(* ===== verification/QX_Prelude.thy ===== *)
theory QX_Prelude
  imports Main "HOL-Library.Word"
begin

text \<open>
  Shared vocabulary of the development: the machine integers of the Rust code, their saturating
  operations, bounded vectors, the result type of a dispatchable (a value or an error, together
  with the storage the body leaves behind), sequences of calls, and the contract that every
  pallet's calls satisfy. The generic lemmas are collected in \<open>saturation\<close> (saturating
  arithmetic read as natural numbers) and \<open>layering\<close> (effects of the storage layer).
\<close>

named_theorems saturation
named_theorems layering

section \<open>Machine integers\<close>

type_synonym u8 = "8 word"
type_synonym u32 = "32 word"
type_synonym u64 = "64 word"
type_synonym u128 = "128 word"

text \<open>Rust's \<open>saturating_add\<close> and \<open>saturating_sub\<close>: clamp at the ends of the type.\<close>

definition saturating_add :: "'w::len word \<Rightarrow> 'w word \<Rightarrow> 'w word" where
  "saturating_add x y = (if unat x + unat y < 2 ^ LENGTH('w) then x + y else - 1)"

definition saturating_sub :: "'w::len word \<Rightarrow> 'w word \<Rightarrow> 'w word" where
  "saturating_sub x y = (if y \<le> x then x - y else 0)"

text \<open>\<open>saturated_into\<close>: convert between unsigned widths, clamping at the target's maximum.\<close>

definition saturated_into :: "'v::len word \<Rightarrow> 'w::len word" where
  "saturated_into x = (if unat x < 2 ^ LENGTH('w) then ucast x else - 1)"

lemma unat_max_word: "unat (- 1 :: 'w::len word) = 2 ^ LENGTH('w) - 1"
  by (simp add: unsigned_minus_1_eq_mask mask_eq_exp_minus_1)

lemma unat_le_max: "unat (x :: 'w::len word) \<le> 2 ^ LENGTH('w) - Suc 0"
  using unsigned_less [where 'a = nat, of x] by linarith

lemma unat_saturating_add [saturation]:
  "unat (saturating_add x y) = min (unat x + unat y) (2 ^ LENGTH('w) - 1)"
  for x y :: "'w::len word"
proof (cases "unat x + unat y < 2 ^ LENGTH('w)")
  case True
  then have "unat (x + y) = unat x + unat y"
    by (simp add: unat_add_lem [THEN iffD1])
  with True show ?thesis
    by (auto simp: saturating_add_def min_def)
next
  case False
  then show ?thesis
    using unat_max_word [where 'w = 'w] by (auto simp: saturating_add_def min_def)
qed

lemma unat_saturating_sub [saturation]:
  "unat (saturating_sub x y) = unat x - unat y"
  by (auto simp: saturating_sub_def unat_sub word_le_nat_alt)

lemma saturating_add_ge: "x \<le> saturating_add x y"
  by (simp add: word_le_nat_alt unat_saturating_add unat_le_max)

lemma saturated_into_same [simp]: "saturated_into (x :: 'w::len word) = x"
  by (simp add: saturated_into_def)

lemma unat_Suc_no_wrap:
  fixes x :: "'w::len word"
  assumes "x \<noteq> - 1"
  shows "unat (x + 1) = Suc (unat x)"
proof -
  have "x + 1 \<noteq> 0"
    using assms by (metis add_eq_0_iff2 add.inverse_inverse neg_equal_iff_equal)
  then show ?thesis
    by (simp add: unatSuc add.commute)
qed

lemma le_succ: "x \<noteq> - 1 \<Longrightarrow> x \<le> x + 1" for x :: "'w::len word"
  by (simp add: word_le_nat_alt unat_Suc_no_wrap)

lemma less_succ_iff:
  fixes x y :: "'w::len word"
  assumes "x \<noteq> - 1"
  shows "y < x + 1 \<longleftrightarrow> y < x \<or> y = x"
  using unat_Suc_no_wrap [OF assms]
  by (auto simp: word_less_nat_alt less_Suc_eq word_unat_eq_iff)

lemma unat_of_nat_small: "m < 2 ^ LENGTH('w) \<Longrightarrow> unat (of_nat m :: 'w::len word) = m"
  by (simp add: unat_of_nat take_bit_nat_eq_self)

lemma card_less_word: "card {j :: 'w::len word. j < n} = unat n"
proof -
  have "bij_betw unat {j :: 'w word. j < n} {..<unat n}"
    unfolding bij_betw_def
  proof
    show "inj_on unat {j :: 'w word. j < n}" by (auto intro: inj_onI simp: word_unat_eq_iff)
    have "k \<in> unat ` {j :: 'w word. j < n}" if "k < unat n" for k
    proof (rule image_eqI)
      from that have "k < 2 ^ LENGTH('w)" using unsigned_less [where 'a = nat, of n] by linarith
      then show "k = unat (of_nat k :: 'w word)" by (simp add: unat_of_nat_small)
      with that show "(of_nat k :: 'w word) \<in> {j. j < n}" by (simp add: word_less_nat_alt)
    qed
    then show "unat ` {j :: 'w word. j < n} = {..<unat n}"
      by (auto simp: word_less_nat_alt)
  qed
  then show ?thesis by (simp add: bij_betw_same_card)
qed

section \<open>Bounded vectors\<close>

text \<open>
  A \<open>BoundedVec<T, ConstU32<n>>\<close> is a list of at most \<open>n\<close> elements.
  \<open>try_from\<close> and \<open>try_push\<close> return \<open>None\<close> where the vector would exceed its bound.
\<close>

definition bounded_try_from :: "nat \<Rightarrow> 'v list \<Rightarrow> 'v list option" where
  "bounded_try_from n xs = (if length xs \<le> n then Some xs else None)"

definition bounded_try_push :: "nat \<Rightarrow> 'v list \<Rightarrow> 'v \<Rightarrow> 'v list option" where
  "bounded_try_push n xs x = (if length xs < n then Some (xs @ [x]) else None)"

lemma bounded_try_from_Some [simp]:
  "bounded_try_from n xs = Some ys \<longleftrightarrow> ys = xs \<and> length xs \<le> n"
  by (auto simp: bounded_try_from_def)

lemma bounded_try_from_None [simp]:
  "bounded_try_from n xs = None \<longleftrightarrow> n < length xs"
  by (auto simp: bounded_try_from_def)

lemma bounded_try_push_Some [simp]:
  "bounded_try_push n xs x = Some ys \<longleftrightarrow> ys = xs @ [x] \<and> length xs < n"
  by (auto simp: bounded_try_push_def)

lemma bounded_try_push_None [simp]:
  "bounded_try_push n xs x = None \<longleftrightarrow> n \<le> length xs"
  by (auto simp: bounded_try_push_def)

section \<open>Searching a list\<close>

lemma find_SomeD: "List.find P xs = Some x \<Longrightarrow> x \<in> set xs \<and> P x"
  by (induction xs) (auto split: if_splits)

lemma find_None_iff_ball: "List.find P xs = None \<longleftrightarrow> (\<forall>x\<in>set xs. \<not> P x)"
  by (induction xs) auto

section \<open>Strictly increasing lists\<close>

lemma strict_sorted_snoc:
  fixes xs :: "'v::linorder list"
  assumes "sorted_wrt (<) xs" and "\<And>y. y \<in> set xs \<Longrightarrow> y < x"
  shows "sorted_wrt (<) (xs @ [x])"
  using assms by (simp add: sorted_wrt_append)

lemma strict_sorted_filter:
  "sorted_wrt (<) xs \<Longrightarrow> sorted_wrt (<) (filter P xs)"
  by (induction xs) auto

lemma length_filter_neq_less:
  "x \<in> set xs \<Longrightarrow> length (filter (\<lambda>y. y \<noteq> x) xs) < length xs"
  by (rule length_filter_less) auto

section \<open>Dispatchables, the storage layer and sequences of calls\<close>

text \<open>
  The body of a dispatchable reads and writes storage as it goes, so it returns the storage it
  leaves behind in the error case as well. FRAME runs the body of every call inside a storage
  layer that is committed on \<open>Ok\<close> and discarded on \<open>Err\<close>. The layer is code outside
  the repository: it is a parameter \<open>layer\<close> of whatever runs calls, and
  \<open>storage_layer layer\<close> states the documented behaviour.
\<close>

type_synonym ('s, 'e, 'r) body = "'s \<Rightarrow> ('e + 'r) \<times> 's"

definition storage_layer :: "(('s, 'e, 'r) body \<Rightarrow> ('s, 'e, 'r) body) \<Rightarrow> bool" where
  "storage_layer layer \<longleftrightarrow>
     (\<forall>f s r s'. f s = (Inr r, s') \<longrightarrow> layer f s = (Inr r, s')) \<and>
     (\<forall>f s e s'. f s = (Inl e, s') \<longrightarrow> layer f s = (Inl e, s))"

text \<open>A concrete layer, used to show that the hypothesis can hold.\<close>

definition commit_or_discard :: "('s, 'e, 'r) body \<Rightarrow> ('s, 'e, 'r) body" where
  "commit_or_discard f s = (case f s of (Inr r, s') \<Rightarrow> (Inr r, s') | (Inl e, _) \<Rightarrow> (Inl e, s))"

lemma storage_layer_commit_or_discard: "storage_layer commit_or_discard"
  by (simp add: storage_layer_def commit_or_discard_def)

lemma layer_result [layering]: "storage_layer layer \<Longrightarrow> fst (layer f s) = fst (f s)"
  by (cases "f s"; cases "fst (f s)") (auto simp: storage_layer_def)

lemma layer_Inl [layering]: "storage_layer layer \<Longrightarrow> fst (f s) = Inl e \<Longrightarrow> layer f s = (Inl e, s)"
  by (cases "f s") (auto simp: storage_layer_def)

lemma layer_Inr [layering]: "storage_layer layer \<Longrightarrow> fst (f s) = Inr r \<Longrightarrow> layer f s = f s"
  by (cases "f s") (auto simp: storage_layer_def)

text \<open>The storage after a sequence of calls, each run in its own layer.\<close>

fun run_calls :: "(('s, 'e, 'r) body \<Rightarrow> ('s, 'e, 'r) body) \<Rightarrow> ('c \<Rightarrow> ('s, 'e, 'r) body) \<Rightarrow> 'c list \<Rightarrow> 's \<Rightarrow> 's" where
  "run_calls layer exec [] s = s"
| "run_calls layer exec (c # cs) s = run_calls layer exec cs (snd (layer (exec c) s))"

lemma run_calls_append:
  "run_calls layer exec (cs @ ds) s = run_calls layer exec ds (run_calls layer exec cs s)"
  by (induction cs arbitrary: s) auto

subsection \<open>The contract of a pallet's calls\<close>

text \<open>
  A pallet's calls keep its invariant whenever they return \<open>Ok\<close>, provided the storage
  satisfies \<open>guard\<close> (the AI pallet's counters must not wrap; the other pallets need no
  guard). Whatever the failing calls leave behind is discarded by the layer, so the invariant
  survives every sequence of calls.
\<close>

locale guarded_calls =
  fixes exec :: "'c \<Rightarrow> ('s, 'e, 'r) body"
    and wf :: "'c \<Rightarrow> bool"
    and inv :: "'s \<Rightarrow> bool"
    and guard :: "'s \<Rightarrow> bool"
  assumes exec_keeps: "inv s \<Longrightarrow> guard s \<Longrightarrow> wf c \<Longrightarrow> exec c s = (Inr r, s') \<Longrightarrow> inv s'"
begin

lemma layered_keeps:
  assumes "storage_layer layer" and "inv s" and "guard s" and "wf c"
  shows "inv (snd (layer (exec c) s))"
proof (cases "fst (exec c s)")
  case (Inl e)
  with assms show ?thesis by (simp add: layering)
next
  case (Inr r)
  then have "exec c s = (Inr r, snd (exec c s))" by (simp add: prod_eq_iff)
  with assms have "inv (snd (exec c s))" by (blast intro: exec_keeps)
  with Inr assms show ?thesis by (simp add: layering)
qed

lemma run_keeps_guarded:
  assumes "storage_layer layer"
    and "inv s"
    and "\<forall>c\<in>set cs. wf c"
    and "\<And>t. guard t"
  shows "inv (run_calls layer exec cs s)"
  using assms(2,3) by (induction cs arbitrary: s) (auto intro: layered_keeps assms)

end

text \<open>
  A pallet whose calls are guarded by a counter: every successful call consumes at most one
  unit of a finite budget, and the guard holds as long as the budget is not used up.
\<close>

locale counted_calls = guarded_calls +
  fixes used :: "'b \<Rightarrow> nat"
    and limit :: nat
  assumes guard_if: "used s < limit \<Longrightarrow> guard s"
    and used_step: "inv s \<Longrightarrow> guard s \<Longrightarrow> wf c \<Longrightarrow> exec c s = (Inr r, s') \<Longrightarrow> used s' \<le> Suc (used s)"
begin

lemma layered_used:
  assumes "storage_layer layer" and "inv s" and "guard s" and "wf c"
  shows "used (snd (layer (exec c) s)) \<le> Suc (used s)"
proof (cases "fst (exec c s)")
  case (Inl e)
  with assms show ?thesis by (simp add: layering)
next
  case (Inr r)
  then have "exec c s = (Inr r, snd (exec c s))" by (simp add: prod_eq_iff)
  with assms have "used (snd (exec c s)) \<le> Suc (used s)" by (blast intro: used_step)
  with Inr assms show ?thesis by (simp add: layering)
qed

lemma run_keeps_counted:
  assumes "storage_layer layer"
    and "inv s"
    and "\<forall>c\<in>set cs. wf c"
    and "used s + length cs \<le> limit"
  shows "inv (run_calls layer exec cs s) \<and> used (run_calls layer exec cs s) \<le> used s + length cs"
  using assms(2-4)
proof (induction cs arbitrary: s)
  case Nil
  then show ?case by simp
next
  case (Cons c cs)
  let ?t = "snd (layer (exec c) s)"
  from Cons.prems have g: "guard s" by (auto intro: guard_if)
  with Cons.prems assms(1) have "inv ?t" and "used ?t \<le> Suc (used s)"
    by (auto intro: layered_keeps layered_used)
  with Cons.prems Cons.IH [of ?t] show ?case by auto
qed

end

end
