(* ===== verification/Frame_Interface.thy ===== *)
theory Frame_Interface
  imports QX_Prelude
begin

text \<open>
  What the pallets see of FRAME. Origins, the currency, the storage's iteration order and the
  hasher are code outside the repository, so they are parameters: the fields of the records
  \<open>frame\<close>, \<open>currency\<close> and (in the pallets' theories) the pallets' \<open>Config\<close> records.
  The behaviour a property relies on is a named hypothesis (\<open>currency_laws\<close>,
  \<open>spendable\<close>, \<open>storage_iter\<close>), and each hypothesis is shown to be satisfiable by a
  concrete instance at the end of the theory. The error enums are those of the three pallets,
  joined in the runtime's \<open>RuntimeError\<close>.
\<close>

section \<open>Errors\<close>

datatype kilt_error =
    WorkerDIDAlreadyExists
  | WorkerDIDNotFound
  | WorkerCredentialNotFound
  | InvalidCredentialIssuer
  | CredentialExpired
  | CredentialSuspended
  | CredentialRevoked
  | NotAuthorizedToIssue
  | NotAuthorizedToRevoke
  | GovernanceDIDNotSet
  | AccountHasNoDID
  | InvalidBoundedVec

text \<open>The AI pallet's \<open>WorkerDIDNotFound\<close> clashes with the one above and carries a prefix.\<close>

datatype ai_error =
    AIWorkerNotFound
  | InferenceNotFound
  | RequestNotFound
  | AIWorkerQueueFull
  | RequestAlreadyAssigned
  | RequestNotAssigned
  | InvalidWorkerCredential
  | AI_WorkerDIDNotFound

datatype faucet_error =
    ClaimTooSoon
  | MaxClaimsReached
  | FaucetEmpty

text \<open>
  A \<open>DispatchError\<close>: a pallet's module error, or an error raised by code outside the
  repository (a bad origin, a token error of the balances pallet), of which the pallets only
  ever pass on the value.
\<close>

datatype dispatch_error =
    Kilt_Error kilt_error
  | AI_Error ai_error
  | Faucet_Error faucet_error
  | Frame_Error nat

section \<open>Origins\<close>

record ('o, 'a) frame =
  ensure_signed :: "'o \<Rightarrow> dispatch_error + 'a"
  ensure_root :: "'o \<Rightarrow> dispatch_error + unit"
  ensure_none :: "'o \<Rightarrow> dispatch_error + unit"

section \<open>Dispatch information\<close>

datatype pays = Pays_Yes | Pays_No

datatype dispatch_class = Normal | Operational | Mandatory

record dispatch_info =
  di_ref_time :: u64
  di_class :: dispatch_class
  di_pays_fee :: pays

text \<open>A weight attribute that names only a weight means class \<open>Normal\<close> and a fee.\<close>

definition weight_only :: "u64 \<Rightarrow> dispatch_info" where
  "weight_only w = \<lparr>di_ref_time = w, di_class = Normal, di_pays_fee = Pays_Yes\<rparr>"

section \<open>Currency\<close>

datatype existence_requirement = KeepAlive | AllowDeath

record ('a, 'c) currency =
  free_balance :: "'c \<Rightarrow> 'a \<Rightarrow> u128"
  transfer :: "'a \<Rightarrow> 'a \<Rightarrow> u128 \<Rightarrow> existence_requirement \<Rightarrow> 'c \<Rightarrow> (dispatch_error + unit) \<times> 'c"

text \<open>
  The documented behaviour of \<open>Currency::transfer\<close> with \<open>KeepAlive\<close>: a successful
  transfer between two accounts moves exactly the amount and touches nobody else, a transfer to
  oneself changes no balance, and a transfer that would leave the source below the existential
  deposit is refused.
\<close>

definition currency_laws :: "('a, 'c) currency \<Rightarrow> u128 \<Rightarrow> bool" where
  "currency_laws cur ed \<longleftrightarrow>
     (\<forall>a b v c c'. transfer cur a b v KeepAlive c = (Inr (), c') \<longrightarrow> a \<noteq> b \<longrightarrow>
        unat (free_balance cur c a) = unat (free_balance cur c' a) + unat v \<and>
        unat (free_balance cur c' b) = unat (free_balance cur c b) + unat v) \<and>
     (\<forall>a b v c c' x. transfer cur a b v KeepAlive c = (Inr (), c') \<longrightarrow> x \<noteq> a \<and> x \<noteq> b \<or> a = b \<longrightarrow>
        free_balance cur c' x = free_balance cur c x) \<and>
     (\<forall>a b v c. a \<noteq> b \<longrightarrow> v \<noteq> 0 \<longrightarrow>
        unat (free_balance cur c a) < unat v + unat ed \<longrightarrow>
        (\<exists>e. fst (transfer cur a b v KeepAlive c) = Inl e))"

text \<open>
  In a ledger in which none of an account's funds are locked or frozen, it can spend everything above the existential
  deposit, in amounts that keep the receiver alive and do not overflow its balance.
\<close>

definition spendable :: "('a, 'c) currency \<Rightarrow> u128 \<Rightarrow> 'a \<Rightarrow> 'c \<Rightarrow> bool" where
  "spendable cur ed a c \<longleftrightarrow>
     (\<forall>b v. ed \<le> v \<longrightarrow> unat v + unat ed \<le> unat (free_balance cur c a) \<longrightarrow>
        unat (free_balance cur c b) + unat v < 2 ^ 128 \<longrightarrow>
        (\<exists>c'. transfer cur a b v KeepAlive c = (Inr (), c')))"

lemma transfer_moves:
  assumes "currency_laws cur ed" and "transfer cur a b v KeepAlive c = (Inr (), c')" and "a \<noteq> b"
  shows "unat (free_balance cur c a) = unat (free_balance cur c' a) + unat v"
    and "unat (free_balance cur c' b) = unat (free_balance cur c b) + unat v"
  using assms by (auto simp: currency_laws_def)

lemma transfer_frame:
  assumes "currency_laws cur ed" and "transfer cur a b v KeepAlive c = (Inr (), c')"
    and "x \<noteq> a \<and> x \<noteq> b \<or> a = b"
  shows "free_balance cur c' x = free_balance cur c x"
  using assms unfolding currency_laws_def by blast

lemma transfer_conserves:
  assumes "currency_laws cur ed" and "transfer cur a b v KeepAlive c = (Inr (), c')" and "finite A" and "a \<in> A" and "b \<in> A"
  shows "(\<Sum>x\<in>A. unat (free_balance cur c' x)) = (\<Sum>x\<in>A. unat (free_balance cur c x))"
proof (cases "a = b")
  case True
  with transfer_frame [OF assms(1,2)] show ?thesis by simp
next
  case False
  let ?R = "A - {a} - {b}"
  have A: "(\<Sum>x\<in>A. f x) = f a + (f b + (\<Sum>x\<in>?R. f x))" for f :: "'a \<Rightarrow> nat"
    using assms(3-5) False by (metis Diff_iff finite_Diff insertE insert_Diff insert_iff sum.remove)
  have "(\<Sum>x\<in>?R. unat (free_balance cur c' x)) = (\<Sum>x\<in>?R. unat (free_balance cur c x))"
    using transfer_frame [OF assms(1,2)] by (intro sum.cong) auto
  with transfer_moves [OF assms(1,2) False] show ?thesis unfolding A by simp
qed

lemma transfer_lowers:
  assumes "currency_laws cur ed" and "transfer cur a b v KeepAlive c = (Inr (), c')"
    and "free_balance cur c' x < free_balance cur c x"
  shows "x = a \<and> unat (free_balance cur c x) = unat (free_balance cur c' x) + unat v"
  using transfer_moves [OF assms(1,2)] transfer_frame [OF assms(1,2), of x] assms(3)
  by (cases "x = a"; cases "x = b"; cases "a = b") (auto simp: word_less_nat_alt)

lemma transfer_keep_alive:
  assumes "currency_laws cur ed" and "a \<noteq> b" and "v \<noteq> 0"
    and "unat (free_balance cur c a) < unat v + unat ed"
  obtains e where "fst (transfer cur a b v KeepAlive c) = Inl e"
  using assms unfolding currency_laws_def by blast

section \<open>Iterating a storage map\<close>

text \<open>
  \<open>StorageMap::iter\<close> visits every entry once, in the order of the hashed keys, which the
  pallets do not control: any enumeration of the map without repetition.
\<close>

definition storage_iter :: "(('k \<rightharpoonup> 'v) \<Rightarrow> ('k \<times> 'v) list) \<Rightarrow> bool" where
  "storage_iter it \<longleftrightarrow> (\<forall>m. finite (dom m) \<longrightarrow> distinct (map fst (it m)) \<and> map_of (it m) = m)"

lemma storage_iter_map_of: "storage_iter it \<Longrightarrow> finite (dom m) \<Longrightarrow> map_of (it m) = m"
  by (simp add: storage_iter_def)

lemma storage_iter_distinct: "storage_iter it \<Longrightarrow> finite (dom m) \<Longrightarrow> distinct (map fst (it m))"
  by (simp add: storage_iter_def)

lemma storage_iter_mem:
  assumes "storage_iter it" and "finite (dom m)"
  shows "(k, v) \<in> set (it m) \<longleftrightarrow> m k = Some v"
  using assms unfolding storage_iter_def by (metis map_of_eq_Some_iff)

section \<open>Instances that satisfy the hypotheses\<close>

text \<open>
  Concrete parameters for the witnesses: the three origins FRAME has, a ledger of plain balances,
  and iteration in the order of the keys.
\<close>

datatype 'a raw_origin = Root | Signed 'a | Unsigned

definition raw_frame :: "('a raw_origin, 'a) frame" where
  "raw_frame = \<lparr>
     ensure_signed = (\<lambda>x. case x of Signed a \<Rightarrow> Inr a | _ \<Rightarrow> Inl (Frame_Error 0)),
     ensure_root = (\<lambda>x. case x of Root \<Rightarrow> Inr () | _ \<Rightarrow> Inl (Frame_Error 0)),
     ensure_none = (\<lambda>x. case x of Unsigned \<Rightarrow> Inr () | _ \<Rightarrow> Inl (Frame_Error 0))\<rparr>"

lemma raw_frame_simps [simp]:
  "ensure_signed raw_frame (Signed a) = Inr a"
  "ensure_signed raw_frame Root = Inl (Frame_Error 0)"
  "ensure_signed raw_frame Unsigned = Inl (Frame_Error 0)"
  "ensure_root raw_frame Root = Inr ()"
  "ensure_root raw_frame (Signed a) = Inl (Frame_Error 0)"
  "ensure_none raw_frame Unsigned = Inr ()"
  "ensure_none raw_frame (Signed a) = Inl (Frame_Error 0)"
  "ensure_none raw_frame Root = Inl (Frame_Error 0)"
  by (simp_all add: raw_frame_def)

definition plain_ledger :: "u128 \<Rightarrow> ('a, 'a \<Rightarrow> u128) currency" where
  "plain_ledger ed = \<lparr>
     free_balance = (\<lambda>c a. c a),
     transfer = (\<lambda>a b v er c.
       if a = b \<or> v = 0 then (Inr (), c)
       else if unat (c a) < unat v + (if er = KeepAlive then unat ed else 0) then (Inl (Frame_Error 1), c)
       else if unat (c b) + unat v \<ge> 2 ^ 128 then (Inl (Frame_Error 2), c)
       else (Inr (), c(a := c a - v, b := c b + v)))\<rparr>"

lemma plain_ledger_laws: "currency_laws (plain_ledger ed) ed"
  by (auto simp: currency_laws_def plain_ledger_def unat_sub word_le_nat_alt unat_add_lem [THEN iffD1]
      split: if_splits)

lemma plain_ledger_spendable: "spendable (plain_ledger ed) ed a c"
  by (auto simp: spendable_def plain_ledger_def)

definition key_order_iter :: "('k::linorder \<rightharpoonup> 'v) \<Rightarrow> ('k \<times> 'v) list" where
  "key_order_iter m = map (\<lambda>k. (k, the (m k))) (sorted_list_of_set (dom m))"

lemma storage_iter_key_order: "storage_iter key_order_iter"
proof -
  have "map_of (key_order_iter m) k = m k" if "finite (dom m)" for m :: "'a \<rightharpoonup> 'b" and k
    using that by (cases "m k") (auto simp: key_order_iter_def map_of_map_keys domIff map_of_eq_None_iff image_iff)
  then show ?thesis
    by (auto simp: storage_iter_def key_order_iter_def comp_def intro!: ext)
qed

end
