(* ===== verification/Kilt_Permissions.thy ===== *)
theory Kilt_Permissions
  imports Frame_Interface
begin

text \<open>
  The pallet \<open>pallet-qx-kilt-permissions\<close>: worker DIDs, credentials, and their verification.
  The pallet's storage is the record \<open>kilt\<close>; each dispatchable is a function of the
  origin, its arguments and the storage, run at block \<open>now\<close>, and returns the result together
  with the storage. The pallet's \<open>Config\<close>, with the hasher and the iteration order of
  \<open>WorkerDIDs\<close>, is the parameter \<open>kilt_config\<close>.
  The lemmas show that failing calls write nothing, that successful calls keep \<open>kilt_inv\<close>,
  and that verification is the condition \<open>credential_live\<close> and \<open>status_permits\<close>,
  whatever the order of iteration.
\<close>

section \<open>Data\<close>

type_synonym did_identifier = "u8 list"
type_synonym model_id = u32

record worker_metadata =
  wm_name :: "u8 list"
  wm_description :: "u8 list"
  wm_registered_at :: u32

datatype credential_status =
    Active
  | Suspended u32
  | Revoked

record 'a worker_did =
  wd_did :: did_identifier
  wd_account :: 'a
  wd_metadata :: worker_metadata
  wd_status :: credential_status

record ai_worker_credential =
  cr_issuer :: did_identifier
  cr_subject :: did_identifier
  cr_models :: "model_id list"
  cr_issued_at :: u32
  cr_expires_at :: "u32 option"

datatype 'a kilt_event =
    WorkerDIDCreated 'a did_identifier
  | WorkerCredentialIssued did_identifier "u32 option"
  | WorkerCredentialRevoked did_identifier
  | WorkerSuspended did_identifier u32
  | GovernanceDIDSet did_identifier

record 'a kilt =
  worker_dids :: "'a \<rightharpoonup> 'a worker_did"
  worker_credentials :: "did_identifier \<rightharpoonup> ai_worker_credential"
  account_to_did :: "'a \<rightharpoonup> did_identifier"
  governance_did :: did_identifier
  kilt_events :: "'a kilt_event list"

record 'a kilt_config =
  default_credential_validity :: u32
  worker_suspension_period :: u32
  hash_of :: "'a \<Rightarrow> u8 list"
  worker_dids_iter :: "('a \<rightharpoonup> 'a worker_did) \<Rightarrow> ('a \<times> 'a worker_did) list"

text \<open>
  \<open>deposit_event\<close>. The log is a history variable: it keeps all events the pallet has deposited, while \<open>System\<close> keeps
  those of the current block (and none of the genesis block, in which no calls are dispatched). No call reads it.
\<close>

definition kilt_deposit :: "'a kilt_event \<Rightarrow> 'a kilt \<Rightarrow> 'a kilt" where
  "kilt_deposit e k = k\<lparr>kilt_events := kilt_events k @ [e]\<rparr>"

definition kilt_genesis :: "'a kilt" where
  "kilt_genesis = \<lparr>worker_dids = Map.empty, worker_credentials = Map.empty,
     account_to_did = Map.empty, governance_did = replicate 32 0, kilt_events = []\<rparr>"

section \<open>Dispatchables and helpers\<close>

text \<open>\<open>generate_did\<close> copies the first bytes of the account's hash into 32 zero bytes.\<close>

definition generate_did :: "'a kilt_config \<Rightarrow> 'a \<Rightarrow> did_identifier" where
  "generate_did cfg account =
     (let did = replicate 32 (0 :: u8);
          hash_bytes = hash_of cfg account;
          len = min (length hash_bytes) 32
      in take len hash_bytes @ drop len did)"

definition set_governance_did ::
  "('o, 'a) frame \<Rightarrow> 'o \<Rightarrow> did_identifier \<Rightarrow> ('a kilt, dispatch_error, unit) body" where
  "set_governance_did fw origin did k =
     (case ensure_root fw origin of
        Inl e \<Rightarrow> (Inl e, k)
      | Inr _ \<Rightarrow> (Inr (), kilt_deposit (GovernanceDIDSet did) (k\<lparr>governance_did := did\<rparr>)))"

definition create_worker_did ::
  "('o, 'a) frame \<Rightarrow> 'a kilt_config \<Rightarrow> u32 \<Rightarrow> 'o \<Rightarrow> u8 list \<Rightarrow> u8 list
     \<Rightarrow> ('a kilt, dispatch_error, unit) body" where
  "create_worker_did fw cfg now origin name description k =
     (case ensure_signed fw origin of
        Inl e \<Rightarrow> (Inl e, k)
      | Inr who \<Rightarrow>
          if who \<in> dom (worker_dids k) then (Inl (Kilt_Error WorkerDIDAlreadyExists), k)
          else
            let did = generate_did cfg who in
            case bounded_try_from 128 name of
              None \<Rightarrow> (Inl (Kilt_Error InvalidBoundedVec), k)
            | Some bname \<Rightarrow>
                (case bounded_try_from 512 description of
                   None \<Rightarrow> (Inl (Kilt_Error InvalidBoundedVec), k)
                 | Some bdescription \<Rightarrow>
                     let worker_did = \<lparr>wd_did = did, wd_account = who,
                           wd_metadata = \<lparr>wm_name = bname, wm_description = bdescription,
                             wm_registered_at = now\<rparr>,
                           wd_status = Active\<rparr>;
                         k1 = k\<lparr>worker_dids := (worker_dids k)(who \<mapsto> worker_did)\<rparr>;
                         k2 = k1\<lparr>account_to_did := (account_to_did k1)(who \<mapsto> did)\<rparr>
                     in (Inr (), kilt_deposit (WorkerDIDCreated who did) k2)))"

definition issue_worker_credential ::
  "('o, 'a) frame \<Rightarrow> u32 \<Rightarrow> 'o \<Rightarrow> did_identifier \<Rightarrow> model_id list \<Rightarrow> u32 option
     \<Rightarrow> ('a kilt, dispatch_error, unit) body" where
  "issue_worker_credential fw now origin worker_did models validity_period k =
     (case ensure_root fw origin of
        Inl e \<Rightarrow> (Inl e, k)
      | Inr _ \<Rightarrow>
          let expires_at = map_option (\<lambda>period. saturating_add now period) validity_period in
          case bounded_try_from 100 models of
            None \<Rightarrow> (Inl (Kilt_Error InvalidBoundedVec), k)
          | Some bmodels \<Rightarrow>
              let credential = \<lparr>cr_issuer = governance_did k, cr_subject = worker_did,
                    cr_models = bmodels, cr_issued_at = now, cr_expires_at = expires_at\<rparr>;
                  k1 = k\<lparr>worker_credentials := (worker_credentials k)(worker_did \<mapsto> credential)\<rparr>
              in (Inr (), kilt_deposit (WorkerCredentialIssued worker_did expires_at) k1))"

definition revoke_worker_credential ::
  "('o, 'a) frame \<Rightarrow> 'o \<Rightarrow> did_identifier \<Rightarrow> ('a kilt, dispatch_error, unit) body" where
  "revoke_worker_credential fw origin worker_did k =
     (case ensure_root fw origin of
        Inl e \<Rightarrow> (Inl e, k)
      | Inr _ \<Rightarrow>
          (Inr (), kilt_deposit (WorkerCredentialRevoked worker_did)
             (k\<lparr>worker_credentials := (worker_credentials k)(worker_did := None)\<rparr>)))"

text \<open>The loop of \<open>suspend_worker\<close>: the first entry with the DID is rewritten, then it stops.\<close>

fun suspend_loop ::
  "did_identifier \<Rightarrow> u32 \<Rightarrow> ('a \<times> 'a worker_did) list \<Rightarrow> ('a \<rightharpoonup> 'a worker_did) \<Rightarrow> ('a \<rightharpoonup> 'a worker_did)" where
  "suspend_loop worker_did until [] dids = dids"
| "suspend_loop worker_did until ((account, info) # rest) dids =
     (if wd_did info = worker_did then dids(account \<mapsto> info\<lparr>wd_status := Suspended until\<rparr>)
      else suspend_loop worker_did until rest dids)"

definition suspend_worker_credential ::
  "'a kilt_config \<Rightarrow> u32 \<Rightarrow> did_identifier \<Rightarrow> u32 \<Rightarrow> ('a kilt, dispatch_error, unit) body" where
  "suspend_worker_credential cfg now worker_did duration k =
     (let until = saturating_add now duration;
          dids = worker_dids k
      in (Inr (), kilt_deposit (WorkerSuspended worker_did until)
            (k\<lparr>worker_dids := suspend_loop worker_did until (worker_dids_iter cfg dids) dids\<rparr>)))"

definition suspend_worker ::
  "('o, 'a) frame \<Rightarrow> 'a kilt_config \<Rightarrow> u32 \<Rightarrow> 'o \<Rightarrow> did_identifier \<Rightarrow> u32 option
     \<Rightarrow> ('a kilt, dispatch_error, unit) body" where
  "suspend_worker fw cfg now origin worker_did duration k =
     (case ensure_root fw origin of
        Inl e \<Rightarrow> (Inl e, k)
      | Inr _ \<Rightarrow>
          let until = saturating_add now
                (case duration of None \<Rightarrow> worker_suspension_period cfg | Some d \<Rightarrow> d);
              dids = worker_dids k
          in (Inr (), kilt_deposit (WorkerSuspended worker_did until)
                (k\<lparr>worker_dids := suspend_loop worker_did until (worker_dids_iter cfg dids) dids\<rparr>)))"

text \<open>The status loop of \<open>verify_worker_credential\<close>, entered when the credential is not expired.\<close>

fun verify_loop :: "did_identifier \<Rightarrow> u32 \<Rightarrow> ('a \<times> 'a worker_did) list \<Rightarrow> bool" where
  "verify_loop worker_did now [] = True"
| "verify_loop worker_did now ((account, info) # rest) =
     (if wd_did info = worker_did
      then (case wd_status info of
              Active \<Rightarrow> True
            | Suspended until \<Rightarrow> (if until < now then True else False)
            | Revoked \<Rightarrow> False)
      else verify_loop worker_did now rest)"

definition verify_worker_credential ::
  "'a kilt_config \<Rightarrow> u32 \<Rightarrow> 'a kilt \<Rightarrow> did_identifier \<Rightarrow> dispatch_error + bool" where
  "verify_worker_credential cfg now k worker_did =
     (case worker_credentials k worker_did of
        None \<Rightarrow> Inl (Kilt_Error WorkerCredentialNotFound)
      | Some credential \<Rightarrow>
          (case cr_expires_at credential of
             Some expires_at \<Rightarrow>
               if expires_at < now then Inr False
               else Inr (verify_loop worker_did now (worker_dids_iter cfg (worker_dids k)))
           | None \<Rightarrow> Inr (verify_loop worker_did now (worker_dids_iter cfg (worker_dids k)))))"

definition get_worker_did :: "'a kilt \<Rightarrow> 'a \<Rightarrow> dispatch_error + did_identifier" where
  "get_worker_did k account =
     (case account_to_did k account of
        None \<Rightarrow> Inl (Kilt_Error AccountHasNoDID)
      | Some did \<Rightarrow> Inr did)"

text \<open>The pallet's calls, with the weights their attributes give them.\<close>

datatype kilt_call =
    SetGovernanceDid did_identifier
  | CreateWorkerDid "u8 list" "u8 list"
  | IssueWorkerCredential did_identifier "model_id list" "u32 option"
  | RevokeWorkerCredential did_identifier
  | SuspendWorker did_identifier "u32 option"

fun kilt_dispatch ::
  "('o, 'a) frame \<Rightarrow> 'a kilt_config \<Rightarrow> u32 \<Rightarrow> 'o \<Rightarrow> kilt_call \<Rightarrow> ('a kilt, dispatch_error, unit) body" where
  "kilt_dispatch fw cfg now origin (SetGovernanceDid did) = set_governance_did fw origin did"
| "kilt_dispatch fw cfg now origin (CreateWorkerDid name description) =
     create_worker_did fw cfg now origin name description"
| "kilt_dispatch fw cfg now origin (IssueWorkerCredential did models validity) =
     issue_worker_credential fw now origin did models validity"
| "kilt_dispatch fw cfg now origin (RevokeWorkerCredential did) = revoke_worker_credential fw origin did"
| "kilt_dispatch fw cfg now origin (SuspendWorker did duration) = suspend_worker fw cfg now origin did duration"

fun kilt_call_index :: "kilt_call \<Rightarrow> nat" where
  "kilt_call_index (SetGovernanceDid _) = 0"
| "kilt_call_index (CreateWorkerDid _ _) = 1"
| "kilt_call_index (IssueWorkerCredential _ _ _) = 2"
| "kilt_call_index (RevokeWorkerCredential _) = 3"
| "kilt_call_index (SuspendWorker _ _) = 4"

fun kilt_dispatch_info :: "kilt_call \<Rightarrow> dispatch_info" where
  "kilt_dispatch_info (SetGovernanceDid _) = weight_only 10000"
| "kilt_dispatch_info (CreateWorkerDid _ _) = weight_only 10000"
| "kilt_dispatch_info (IssueWorkerCredential _ _ _) = weight_only 10000"
| "kilt_dispatch_info (RevokeWorkerCredential _) = weight_only 10000"
| "kilt_dispatch_info (SuspendWorker _ _) = weight_only 10000"

section \<open>Generated DIDs\<close>

lemma length_generate_did [simp]: "length (generate_did cfg a) = 32"
  by (simp add: generate_did_def Let_def)

lemma generate_did_hash:
  "length (hash_of cfg a) = 32 \<Longrightarrow> generate_did cfg a = hash_of cfg a"
  by (simp add: generate_did_def Let_def)

section \<open>The invariant\<close>

definition worker_record_ok :: "'a kilt_config \<Rightarrow> 'a \<Rightarrow> 'a worker_did \<Rightarrow> bool" where
  "worker_record_ok cfg a w \<longleftrightarrow>
     wd_account w = a \<and> wd_did w = generate_did cfg a \<and>
     length (wm_name (wd_metadata w)) \<le> 128 \<and> length (wm_description (wd_metadata w)) \<le> 512 \<and>
     wd_status w \<noteq> Revoked"

definition credential_ok :: "did_identifier \<Rightarrow> ai_worker_credential \<Rightarrow> bool" where
  "credential_ok d c \<longleftrightarrow>
     cr_subject c = d \<and> length (cr_models c) \<le> 100 \<and>
     (\<forall>e. cr_expires_at c = Some e \<longrightarrow> cr_issued_at c \<le> e)"

definition kilt_inv :: "'a kilt_config \<Rightarrow> 'a kilt \<Rightarrow> bool" where
  "kilt_inv cfg k \<longleftrightarrow>
     finite (dom (worker_dids k)) \<and>
     (\<forall>a w. worker_dids k a = Some w \<longrightarrow> worker_record_ok cfg a w) \<and>
     account_to_did k = (\<lambda>a. map_option wd_did (worker_dids k a)) \<and>
     (\<forall>d c. worker_credentials k d = Some c \<longrightarrow> credential_ok d c)"

lemma kilt_inv_genesis: "kilt_inv cfg kilt_genesis"
  by (simp add: kilt_inv_def kilt_genesis_def)

lemma kilt_inv_record: "kilt_inv cfg k \<Longrightarrow> worker_dids k a = Some w \<Longrightarrow> worker_record_ok cfg a w"
  by (simp add: kilt_inv_def)

lemma kilt_inv_did: "kilt_inv cfg k \<Longrightarrow> worker_dids k a = Some w \<Longrightarrow> wd_did w = generate_did cfg a"
  by (simp add: kilt_inv_def worker_record_ok_def)

lemma kilt_inv_account_to_did:
  "kilt_inv cfg k \<Longrightarrow> account_to_did k a = map_option wd_did (worker_dids k a)"
  by (simp add: kilt_inv_def)

lemma kilt_inv_finite: "kilt_inv cfg k \<Longrightarrow> finite (dom (worker_dids k))"
  by (simp add: kilt_inv_def)

lemma kilt_deposit_simps [simp]:
  "worker_dids (kilt_deposit e k) = worker_dids k"
  "worker_credentials (kilt_deposit e k) = worker_credentials k"
  "account_to_did (kilt_deposit e k) = account_to_did k"
  "governance_did (kilt_deposit e k) = governance_did k"
  "kilt_events (kilt_deposit e k) = kilt_events k @ [e]"
  by (simp_all add: kilt_deposit_def)

text \<open>Both loops stop at the first entry with the DID.\<close>

abbreviation find_did :: "did_identifier \<Rightarrow> ('a \<times> 'a worker_did) list \<Rightarrow> ('a \<times> 'a worker_did) option" where
  "find_did d xs \<equiv> List.find (\<lambda>e. wd_did (snd e) = d) xs"

lemma suspend_loop_find:
  "suspend_loop d until xs m =
     (case find_did d xs of None \<Rightarrow> m | Some (a, w) \<Rightarrow> m(a \<mapsto> w\<lparr>wd_status := Suspended until\<rparr>))"
  by (induction d until xs m rule: suspend_loop.induct) auto

definition status_permits :: "u32 \<Rightarrow> credential_status \<Rightarrow> bool" where
  "status_permits now st \<longleftrightarrow> (case st of Active \<Rightarrow> True | Suspended until \<Rightarrow> until < now | Revoked \<Rightarrow> False)"

lemma status_permits_simps [simp]:
  "status_permits now Active"
  "status_permits now (Suspended until) \<longleftrightarrow> until < now"
  "\<not> status_permits now Revoked"
  by (simp_all add: status_permits_def)

lemma verify_loop_find:
  "verify_loop d now xs =
     (case find_did d xs of None \<Rightarrow> True | Some (a, w) \<Rightarrow> status_permits now (wd_status w))"
  by (induction d now xs rule: verify_loop.induct) (auto split: credential_status.splits)

section \<open>DIDs identify workers\<close>

definition no_collision :: "'a kilt_config \<Rightarrow> 'a kilt \<Rightarrow> bool" where
  "no_collision cfg k \<longleftrightarrow> inj_on (generate_did cfg) (dom (worker_dids k))"

definition iter_ok :: "'a kilt_config \<Rightarrow> bool" where
  "iter_ok cfg \<longleftrightarrow> storage_iter (worker_dids_iter cfg)"

lemma iter_mem:
  "iter_ok cfg \<Longrightarrow> kilt_inv cfg k \<Longrightarrow>
   (a, w) \<in> set (worker_dids_iter cfg (worker_dids k)) \<longleftrightarrow> worker_dids k a = Some w"
  by (simp add: iter_ok_def storage_iter_mem kilt_inv_finite)

lemma find_did_None:
  assumes "iter_ok cfg" and "kilt_inv cfg k"
  shows "find_did d (worker_dids_iter cfg (worker_dids k)) = None \<longleftrightarrow>
     (\<forall>a w. worker_dids k a = Some w \<longrightarrow> wd_did w \<noteq> d)"
  using iter_mem [OF assms] by (fastforce simp: find_None_iff_ball)

lemma find_did_sound:
  assumes "iter_ok cfg" and "kilt_inv cfg k"
    and "find_did d (worker_dids_iter cfg (worker_dids k)) = Some (a, w)"
  shows "worker_dids k a = Some w \<and> wd_did w = d"
  using find_SomeD [OF assms(3)] assms(1,2) by (simp add: iter_mem)

lemma find_did_registered:
  assumes "iter_ok cfg" and "kilt_inv cfg k" and "no_collision cfg k"
    and "worker_dids k a = Some w"
  shows "find_did (wd_did w) (worker_dids_iter cfg (worker_dids k)) = Some (a, w)"
proof (cases "find_did (wd_did w) (worker_dids_iter cfg (worker_dids k))")
  case None
  with assms(1,2) have "\<forall>b v. worker_dids k b = Some v \<longrightarrow> wd_did v \<noteq> wd_did w"
    by (simp add: find_did_None)
  with assms(4) show ?thesis by blast
next
  case (Some e)
  then obtain b v where e: "e = (b, v)" by (cases e)
  have b: "worker_dids k b = Some v" "wd_did v = wd_did w"
    using find_did_sound [OF assms(1,2) Some [unfolded e]] by simp_all
  from kilt_inv_did [OF assms(2) b(1)] kilt_inv_did [OF assms(2,4)] b(2)
  have "generate_did cfg b = generate_did cfg a" by simp
  with assms(3) have "b = a"
    by (rule inj_onD [OF no_collision_def [THEN iffD1]]) (use b(1) assms(4) in auto)
  with Some e b assms(4) show ?thesis by simp
qed

section \<open>Verification\<close>

definition credential_live :: "u32 \<Rightarrow> ai_worker_credential \<Rightarrow> bool" where
  "credential_live now c \<longleftrightarrow> (case cr_expires_at c of None \<Rightarrow> True | Some e \<Rightarrow> now \<le> e)"

lemma verify_unfold:
  "verify_worker_credential cfg now k d =
     (case worker_credentials k d of
        None \<Rightarrow> Inl (Kilt_Error WorkerCredentialNotFound)
      | Some c \<Rightarrow> Inr (credential_live now c \<and>
          verify_loop d now (worker_dids_iter cfg (worker_dids k))))"
  by (auto simp: verify_worker_credential_def credential_live_def not_less split: option.splits)

text \<open>The worker of an account may act at block \<open>now\<close>.\<close>

definition worker_authorised :: "u32 \<Rightarrow> 'a kilt \<Rightarrow> 'a \<Rightarrow> bool" where
  "worker_authorised now k a \<longleftrightarrow>
     (case worker_dids k a of
        None \<Rightarrow> False
      | Some w \<Rightarrow>
          (case worker_credentials k (wd_did w) of
             None \<Rightarrow> False
           | Some c \<Rightarrow> credential_live now c \<and> status_permits now (wd_status w)))"

lemma verify_registered:
  assumes "iter_ok cfg" and "kilt_inv cfg k" and "no_collision cfg k"
    and "worker_dids k a = Some w"
  shows "verify_worker_credential cfg now k (wd_did w) =
     (case worker_credentials k (wd_did w) of
        None \<Rightarrow> Inl (Kilt_Error WorkerCredentialNotFound)
      | Some c \<Rightarrow> Inr (credential_live now c \<and> status_permits now (wd_status w)))"
  using find_did_registered [OF assms] by (simp add: verify_unfold verify_loop_find split: option.splits)

lemma verify_unregistered:
  assumes "iter_ok cfg" and "kilt_inv cfg k"
    and "\<forall>a w. worker_dids k a = Some w \<longrightarrow> wd_did w \<noteq> d"
  shows "verify_worker_credential cfg now k d =
     (case worker_credentials k d of
        None \<Rightarrow> Inl (Kilt_Error WorkerCredentialNotFound)
      | Some c \<Rightarrow> Inr (credential_live now c))"
  using find_did_None [OF assms(1,2), of d] assms(3) by (simp add: verify_unfold verify_loop_find split: option.splits)

lemma authorised_iff_verified:
  assumes "iter_ok cfg" and "kilt_inv cfg k" and "no_collision cfg k"
  shows "worker_authorised now k a \<longleftrightarrow>
     (\<exists>d. get_worker_did k a = Inr d \<and> verify_worker_credential cfg now k d = Inr True)"
proof (cases "worker_dids k a")
  case None
  with assms(2) show ?thesis
    by (simp add: worker_authorised_def get_worker_did_def kilt_inv_account_to_did)
next
  case (Some w)
  with assms verify_registered [OF assms Some, of now] show ?thesis
    by (auto simp: worker_authorised_def get_worker_did_def kilt_inv_account_to_did split: option.splits)
qed

section \<open>Every call keeps the invariant, and a failing call writes nothing\<close>

lemma kilt_errors_write_nothing:
  "fst (set_governance_did fw origin did k) = Inl e \<Longrightarrow> snd (set_governance_did fw origin did k) = k"
  "fst (create_worker_did fw cfg now origin name desc k) = Inl e \<Longrightarrow>
     snd (create_worker_did fw cfg now origin name desc k) = k"
  "fst (issue_worker_credential fw now origin did models validity k) = Inl e \<Longrightarrow>
     snd (issue_worker_credential fw now origin did models validity k) = k"
  "fst (revoke_worker_credential fw origin did k) = Inl e \<Longrightarrow> snd (revoke_worker_credential fw origin did k) = k"
  "fst (suspend_worker fw cfg now origin did dur k) = Inl e \<Longrightarrow>
     snd (suspend_worker fw cfg now origin did dur k) = k"
  by (auto simp: set_governance_did_def create_worker_did_def issue_worker_credential_def
      revoke_worker_credential_def suspend_worker_def Let_def split: sum.splits if_splits option.splits)

lemma kilt_inv_suspend:
  assumes "iter_ok cfg" and "kilt_inv cfg k"
  shows "kilt_inv cfg (k\<lparr>worker_dids := suspend_loop d until (worker_dids_iter cfg (worker_dids k)) (worker_dids k)\<rparr>)"
proof (cases "find_did d (worker_dids_iter cfg (worker_dids k))")
  case None
  with assms show ?thesis by (simp add: suspend_loop_find)
next
  case (Some e)
  then obtain a w where e: "find_did d (worker_dids_iter cfg (worker_dids k)) = Some (a, w)"
    by (cases e) simp
  with assms have w: "worker_dids k a = Some w" by (blast dest: find_did_sound)
  with assms(2) have "worker_record_ok cfg a w" by (rule kilt_inv_record)
  with assms(2) w e show ?thesis
    by (auto simp: kilt_inv_def suspend_loop_find worker_record_ok_def fun_eq_iff)
qed

lemma kilt_inv_deposit [simp]: "kilt_inv cfg (kilt_deposit e k) = kilt_inv cfg k"
  by (simp add: kilt_inv_def)

lemma kilt_dispatch_inv:
  assumes "iter_ok cfg" and "kilt_inv cfg k" and "kilt_dispatch fw cfg now origin c k = (Inr r, k')"
  shows "kilt_inv cfg k'"
proof (cases c)
  case (SetGovernanceDid did)
  with assms show ?thesis
    by (auto simp: set_governance_did_def kilt_inv_def split: sum.splits)
next
  case (CreateWorkerDid name desc)
  with assms show ?thesis
    by (auto simp: create_worker_did_def kilt_inv_def worker_record_ok_def Let_def fun_eq_iff
        split: sum.splits if_splits option.splits)
next
  case (IssueWorkerCredential did models validity)
  with assms show ?thesis
    by (auto simp: issue_worker_credential_def kilt_inv_def credential_ok_def Let_def saturating_add_ge
        split: sum.splits option.splits if_splits)
next
  case (RevokeWorkerCredential did)
  with assms show ?thesis
    by (auto simp: revoke_worker_credential_def kilt_inv_def split: sum.splits if_splits)
next
  case (SuspendWorker did dur)
  with assms show ?thesis
    by (auto simp: suspend_worker_def Let_def kilt_inv_suspend split: sum.splits)
qed

text \<open>The pallet's calls meet the contract of the library; no guard is needed.\<close>

interpretation kilt_sys: guarded_calls
  "\<lambda>(now, origin, c). kilt_dispatch fw cfg now origin c"
  "\<lambda>_. True"
  "\<lambda>k. iter_ok cfg \<and> kilt_inv cfg k"
  "\<lambda>_. True"
  for fw cfg
  by unfold_locales (auto intro: kilt_dispatch_inv)

section \<open>What each call does to the workers' authority\<close>

text \<open>Registered DIDs never change and are never removed.\<close>

lemma kilt_dispatch_account_to_did:
  assumes "kilt_dispatch fw cfg now origin c k = (r, k')" and "kilt_inv cfg k" and "account_to_did k a = Some d"
  shows "account_to_did k' a = Some d"
proof (cases c)
  case (CreateWorkerDid name desc)
  with assms show ?thesis
    by (auto simp: create_worker_did_def Let_def kilt_inv_account_to_did
        split: sum.splits if_splits option.splits)
qed (use assms in \<open>auto simp: set_governance_did_def issue_worker_credential_def
      revoke_worker_credential_def suspend_worker_def Let_def split: sum.splits option.splits\<close>)

lemma suspend_dids:
  assumes "iter_ok cfg" and "kilt_inv cfg k" and "no_collision cfg k"
    and "worker_dids k a = Some w"
  shows "suspend_loop (wd_did w) until (worker_dids_iter cfg (worker_dids k)) (worker_dids k) =
     (worker_dids k)(a \<mapsto> w\<lparr>wd_status := Suspended until\<rparr>)"
  by (simp add: suspend_loop_find find_did_registered [OF assms])

lemma suspend_worker_Inr:
  "ensure_root fw origin = Inr () \<Longrightarrow>
   suspend_worker fw cfg now origin d dur k =
     suspend_worker_credential cfg now d (case dur of None \<Rightarrow> worker_suspension_period cfg | Some x \<Rightarrow> x) k"
  by (simp add: suspend_worker_def suspend_worker_credential_def Let_def)

lemma worker_authorised_cong:
  "worker_dids k' a = worker_dids k a \<Longrightarrow> worker_credentials k' = worker_credentials k \<Longrightarrow>
   worker_authorised now k' a = worker_authorised now k a"
  by (auto simp: worker_authorised_def split: option.splits)

lemma find_did_iter_independent:
  assumes "iter_ok cfg" and "iter_ok cfg'" and "hash_of cfg' = hash_of cfg"
    and "kilt_inv cfg k" and "no_collision cfg k"
  shows "find_did d (worker_dids_iter cfg' (worker_dids k)) = find_did d (worker_dids_iter cfg (worker_dids k))"
proof -
  have g: "generate_did cfg' = generate_did cfg"
    by (simp add: generate_did_def assms(3) fun_eq_iff)
  then have inv': "kilt_inv cfg' k" and nc': "no_collision cfg' k"
    using assms(4,5) by (simp_all add: kilt_inv_def worker_record_ok_def no_collision_def)
  show ?thesis
  proof (cases "\<exists>a w. worker_dids k a = Some w \<and> wd_did w = d")
    case True
    then obtain a w where w: "worker_dids k a = Some w" and d: "wd_did w = d" by blast
    from find_did_registered [OF assms(1,4,5) w] find_did_registered [OF assms(2) inv' nc' w] d
    show ?thesis by simp
  next
    case False
    with find_did_None [OF assms(1,4), of d] find_did_None [OF assms(2) inv', of d]
    show ?thesis by auto
  qed
qed

section \<open>A revoked credential stays revoked until it is issued again\<close>

fun issues_for :: "did_identifier \<Rightarrow> kilt_call \<Rightarrow> bool" where
  "issues_for d (IssueWorkerCredential d' _ _) \<longleftrightarrow> d' = d"
| "issues_for d _ \<longleftrightarrow> False"

lemma kilt_dispatch_no_issue:
  assumes "worker_credentials k d = None" and "\<not> issues_for d c"
    and "kilt_dispatch fw cfg now origin c k = (r, k')"
  shows "worker_credentials k' d = None"
  using assms
  by (cases c) (auto simp: set_governance_did_def create_worker_did_def issue_worker_credential_def
      revoke_worker_credential_def suspend_worker_def Let_def split: sum.splits if_splits option.splits)

interpretation kilt_revoked: guarded_calls
  "\<lambda>(now, origin, c). kilt_dispatch fw cfg now origin c"
  "\<lambda>(_, _, c). \<not> issues_for d c"
  "\<lambda>k. worker_credentials k d = None"
  "\<lambda>_. True"
  for fw cfg d
  by unfold_locales (auto intro: kilt_dispatch_no_issue)

end
