(* ===== verification/Kilt_Properties.thy ===== *)
theory Kilt_Properties
  imports Kilt_Permissions
begin

text \<open>
  The properties of the KILT permissions pallet, each with a witness on a small instance: accounts
  are natural numbers, the hash of an account is 32 copies of its low byte, storage iterates in key
  order, and origins are FRAME's three.
\<close>

section \<open>The instance the witnesses use\<close>

definition toy_kilt_config :: "nat kilt_config" where
  "toy_kilt_config = \<lparr>default_credential_validity = 432000, worker_suspension_period = 14400,
     hash_of = (\<lambda>a. replicate 32 (of_nat a)), worker_dids_iter = key_order_iter\<rparr>"

definition toy_worker :: "nat \<Rightarrow> nat worker_did" where
  "toy_worker a = \<lparr>wd_did = replicate 32 (of_nat a), wd_account = a,
     wd_metadata = \<lparr>wm_name = [], wm_description = [], wm_registered_at = 1\<rparr>, wd_status = Active\<rparr>"

definition toy_credential :: "nat \<Rightarrow> ai_worker_credential" where
  "toy_credential a = \<lparr>cr_issuer = replicate 32 0, cr_subject = replicate 32 (of_nat a),
     cr_models = [0], cr_issued_at = 1, cr_expires_at = Some 100\<rparr>"

text \<open>Accounts 7 and 8 are registered; account 7 holds a credential up to block 100.\<close>

definition toy_kilt :: "nat kilt" where
  "toy_kilt = \<lparr>worker_dids = [7 \<mapsto> toy_worker 7, 8 \<mapsto> toy_worker 8],
     worker_credentials = [replicate 32 7 \<mapsto> toy_credential 7],
     account_to_did = [7 \<mapsto> replicate 32 7, 8 \<mapsto> replicate 32 8],
     governance_did = replicate 32 0, kilt_events = []\<rparr>"

lemma toy_generate_did [simp]: "generate_did toy_kilt_config a = replicate 32 (of_nat a)"
  by (simp add: generate_did_hash toy_kilt_config_def)

lemma toy_iter_ok [simp]: "iter_ok toy_kilt_config"
  by (simp add: iter_ok_def toy_kilt_config_def storage_iter_key_order)

lemma replicate_eq_iff: "replicate 32 x = replicate 32 y \<longleftrightarrow> x = y"
  by (simp add: numeral_eq_Suc)

lemma toy_kilt_inv [simp]: "kilt_inv toy_kilt_config toy_kilt"
  by (auto simp: kilt_inv_def toy_kilt_def toy_worker_def toy_credential_def worker_record_ok_def
      credential_ok_def fun_eq_iff)

lemma toy_no_collision [simp]: "no_collision toy_kilt_config toy_kilt"
  by (auto simp: no_collision_def toy_kilt_def inj_on_def replicate_eq_iff)

lemma toy_kilt_simps [simp]:
  "worker_dids toy_kilt 7 = Some (toy_worker 7)"
  "worker_credentials toy_kilt (replicate 32 7) = Some (toy_credential 7)"
  "wd_did (toy_worker a) = replicate 32 (of_nat a)"
  "wd_status (toy_worker a) = Active"
  "cr_expires_at (toy_credential a) = Some 100"
  by (simp_all add: toy_kilt_def toy_worker_def toy_credential_def)

section \<open>Verification\<close>

text \<open>
  C5: For a registered account, \<open>get_worker_did\<close> returns the worker's DID, and
  \<open>verify_worker_credential\<close> of that DID answers \<open>Ok(true)\<close> exactly when a credential is
  stored under the DID, its expiry (if any) is not before the current block, and a suspension (if
  any) ended before the current block.
\<close>

theorem verify_correct:
  assumes "iter_ok cfg" and "kilt_inv cfg k" and "no_collision cfg k"
    and "worker_dids k a = Some w"
  shows "get_worker_did k a = Inr (wd_did w) \<and>
     (verify_worker_credential cfg now k (wd_did w) = Inr True \<longleftrightarrow>
        (\<exists>c. worker_credentials k (wd_did w) = Some c \<and>
             (\<forall>e. cr_expires_at c = Some e \<longrightarrow> unat now \<le> unat e) \<and>
             (\<forall>u. wd_status w = Suspended u \<longrightarrow> unat u < unat now)))"
proof -
  from assms have "wd_status w \<noteq> Revoked"
    by (auto dest: kilt_inv_record simp: worker_record_ok_def)
  then have st: "status_permits now (wd_status w) \<longleftrightarrow> (\<forall>u. wd_status w = Suspended u \<longrightarrow> unat u < unat now)"
    by (cases "wd_status w") (auto simp: word_less_nat_alt)
  have live: "credential_live now c \<longleftrightarrow> (\<forall>e. cr_expires_at c = Some e \<longrightarrow> unat now \<le> unat e)" for c
    by (auto simp: credential_live_def word_le_nat_alt split: option.splits)
  from assms(2,4) have "get_worker_did k a = Inr (wd_did w)"
    by (simp add: get_worker_did_def kilt_inv_account_to_did)
  moreover from verify_registered [OF assms, of now] st live
  have "verify_worker_credential cfg now k (wd_did w) = Inr True \<longleftrightarrow>
        (\<exists>c. worker_credentials k (wd_did w) = Some c \<and>
             (\<forall>e. cr_expires_at c = Some e \<longrightarrow> unat now \<le> unat e) \<and>
             (\<forall>u. wd_status w = Suspended u \<longrightarrow> unat u < unat now))"
    by (auto split: option.splits)
  ultimately show ?thesis ..
qed

theorem verify_correct_witness:
  "verify_worker_credential toy_kilt_config 100 toy_kilt (replicate 32 7) = Inr True \<and>
   verify_worker_credential toy_kilt_config 101 toy_kilt (replicate 32 7) \<noteq> Inr True"
  using verify_correct [of toy_kilt_config toy_kilt 7 "toy_worker 7" 100]
    verify_correct [of toy_kilt_config toy_kilt 7 "toy_worker 7" 101]
  by simp

text \<open>
  Neither verification nor suspension depends on the order in which storage iterates over
  \<open>WorkerDIDs\<close>, as long as the hash does not make two registered accounts share a DID.
\<close>

theorem iteration_order_irrelevant:
  assumes "storage_iter it" and "storage_iter it'"
    and "kilt_inv (cfg\<lparr>worker_dids_iter := it\<rparr>) k" and "no_collision (cfg\<lparr>worker_dids_iter := it\<rparr>) k"
  shows "verify_worker_credential (cfg\<lparr>worker_dids_iter := it\<rparr>) now k d =
         verify_worker_credential (cfg\<lparr>worker_dids_iter := it'\<rparr>) now k d \<and>
         suspend_worker fw (cfg\<lparr>worker_dids_iter := it\<rparr>) now origin d duration k =
         suspend_worker fw (cfg\<lparr>worker_dids_iter := it'\<rparr>) now origin d duration k"
proof -
  have "find_did d (it' (worker_dids k)) = find_did d (it (worker_dids k))"
    using find_did_iter_independent [of "cfg\<lparr>worker_dids_iter := it\<rparr>" "cfg\<lparr>worker_dids_iter := it'\<rparr>" k d] assms
    by (simp add: iter_ok_def)
  then show ?thesis
    by (simp add: verify_unfold verify_loop_find suspend_worker_def suspend_loop_find Let_def
        cong: option.case_cong sum.case_cong)
qed

theorem iteration_order_irrelevant_witness:
  "verify_worker_credential toy_kilt_config 5 toy_kilt (replicate 32 7) =
   verify_worker_credential (toy_kilt_config\<lparr>worker_dids_iter := rev \<circ> key_order_iter\<rparr>) 5 toy_kilt (replicate 32 7)"
proof -
  have rev_iter: "storage_iter (rev \<circ> (key_order_iter :: (nat \<rightharpoonup> nat worker_did) \<Rightarrow> _))"
  proof -
    have "map_of (rev (key_order_iter m)) = m" and d: "distinct (map fst (key_order_iter m))"
      if "finite (dom m)" for m :: "nat \<rightharpoonup> nat worker_did"
    proof -
      show d: "distinct (map fst (key_order_iter m))"
        by (rule storage_iter_distinct [OF storage_iter_key_order that])
      then have "map_of (rev (key_order_iter m)) = map_of (key_order_iter m)"
        by (simp add: map_of_inject_set rev_map [symmetric])
      then show "map_of (rev (key_order_iter m)) = m"
        by (simp add: storage_iter_map_of [OF storage_iter_key_order that])
    qed
    then show ?thesis by (simp add: storage_iter_def rev_map [symmetric])
  qed
  have same: "toy_kilt_config\<lparr>worker_dids_iter := key_order_iter\<rparr> = toy_kilt_config"
    by (simp add: toy_kilt_config_def)
  have "verify_worker_credential (toy_kilt_config\<lparr>worker_dids_iter := key_order_iter\<rparr>) 5 toy_kilt (replicate 32 7) =
    verify_worker_credential (toy_kilt_config\<lparr>worker_dids_iter := rev \<circ> key_order_iter\<rparr>) 5 toy_kilt (replicate 32 7)"
    by (rule iteration_order_irrelevant [OF storage_iter_key_order rev_iter, THEN conjunct1])
      (simp_all add: same)
  then show ?thesis by (simp only: same)
qed

section \<open>Storage\<close>

text \<open>
  Starting from an empty pallet, every sequence of calls, by any origins and at any blocks,
  successful or not, leaves storage consistent: each \<open>WorkerDIDs\<close> entry belongs to its key, has
  the DID generated from it and bounded metadata, \<open>AccountToDID\<close> is exactly the projection of
  \<open>WorkerDIDs\<close>, and each credential names its key as subject, has at most 100 models and does not
  expire before it was issued.
\<close>

theorem kilt_storage_consistent:
  assumes "storage_layer layer" and "iter_ok cfg"
    and "k = run_calls layer (\<lambda>(now, origin, c). kilt_dispatch fw cfg now origin c) calls kilt_genesis"
  shows "(\<forall>a w. worker_dids k a = Some w \<longrightarrow>
            wd_account w = a \<and> wd_did w = generate_did cfg a \<and> length (wd_did w) = 32 \<and>
            length (wm_name (wd_metadata w)) \<le> 128 \<and> length (wm_description (wd_metadata w)) \<le> 512) \<and>
         (\<forall>a. account_to_did k a = map_option wd_did (worker_dids k a)) \<and>
         (\<forall>d c. worker_credentials k d = Some c \<longrightarrow>
            cr_subject c = d \<and> length (cr_models c) \<le> 100 \<and>
            (\<forall>e. cr_expires_at c = Some e \<longrightarrow> cr_issued_at c \<le> e))"
proof -
  from assms have "kilt_inv cfg k"
    using kilt_sys.run_keeps_guarded [of layer cfg kilt_genesis calls fw] by (simp add: kilt_inv_genesis)
  then show ?thesis
    by (auto simp: kilt_inv_account_to_did kilt_inv_def worker_record_ok_def credential_ok_def)
qed

theorem kilt_storage_consistent_witness:
  "\<exists>k w. k = run_calls commit_or_discard (\<lambda>(now, origin, c). kilt_dispatch raw_frame toy_kilt_config now origin c)
       [(1, Signed 7, CreateWorkerDid [65] [66]), (2, Signed 7, CreateWorkerDid [67] [68])] kilt_genesis \<and>
     worker_dids k 7 = Some w \<and> wd_account w = 7 \<and> wm_name (wd_metadata w) = [65]"
proof -
  let ?k = "run_calls commit_or_discard (\<lambda>(now, origin, c). kilt_dispatch raw_frame toy_kilt_config now origin c)
       [(1, Signed 7, CreateWorkerDid [65] [66]), (2, Signed 7, CreateWorkerDid [67] [68])] kilt_genesis"
  obtain w where w: "worker_dids ?k 7 = Some w" "wm_name (wd_metadata w) = [65]"
    by (simp add: create_worker_did_def kilt_genesis_def commit_or_discard_def kilt_deposit_def Let_def
        bounded_try_from_def)
  with kilt_storage_consistent [OF storage_layer_commit_or_discard toy_iter_ok refl,
      of raw_frame "[(1, Signed 7, CreateWorkerDid [65] [66]), (2, Signed 7, CreateWorkerDid [67] [68])]"]
  have "wd_account w = 7" by blast
  with w show ?thesis by blast
qed

text \<open>
  A call of the pallet that returns an error has written nothing, so the pallet does not rely on
  the storage layer to undo it.
\<close>

theorem kilt_errors_leave_storage:
  assumes "fst (kilt_dispatch fw cfg now origin c k) = Inl e"
  shows "kilt_dispatch fw cfg now origin c k = (Inl e, k)"
  using assms by (cases c) (simp_all add: prod_eq_iff kilt_errors_write_nothing)

theorem kilt_errors_leave_storage_witness:
  "kilt_dispatch raw_frame toy_kilt_config 9 (Signed 7) (CreateWorkerDid [] []) toy_kilt =
     (Inl (Kilt_Error WorkerDIDAlreadyExists), toy_kilt)"
proof -
  have "fst (kilt_dispatch raw_frame toy_kilt_config 9 (Signed 7) (CreateWorkerDid [] []) toy_kilt) =
      Inl (Kilt_Error WorkerDIDAlreadyExists)"
    by (simp add: create_worker_did_def domIff)
  then show ?thesis by (rule kilt_errors_leave_storage)
qed

section \<open>The effect of each call on who may work\<close>

text \<open>
  C21: A successful \<open>create_worker_did\<close> is possible only for an account without a DID and with
  metadata within the bounds. Afterwards the account's DID can be looked up, it has 32 bytes, the
  DIDs of all other accounts are the same as before, a second call by the account is refused and
  changes nothing, and the account may work as soon as a live credential is stored for its DID.
\<close>

theorem create_then_get:
  assumes "kilt_inv cfg k" and "ensure_signed fw origin = Inr who"
    and "create_worker_did fw cfg now origin name desc k = (Inr (), k')"
  shows "get_worker_did k who = Inl (Kilt_Error AccountHasNoDID) \<and>
    length name \<le> 128 \<and> length desc \<le> 512 \<and>
    get_worker_did k' who = Inr (generate_did cfg who) \<and> length (generate_did cfg who) = 32 \<and>
    (\<forall>a. a \<noteq> who \<longrightarrow> get_worker_did k' a = get_worker_did k a) \<and>
    (\<forall>now' name' desc'. create_worker_did fw cfg now' origin name' desc' k' =
       (Inl (Kilt_Error WorkerDIDAlreadyExists), k')) \<and>
    (\<forall>now'. worker_authorised now' k' who \<longleftrightarrow>
       (\<exists>c. worker_credentials k (generate_did cfg who) = Some c \<and> credential_live now' c))"
proof -
  from assms(2,3) have fresh: "worker_dids k who = None" and len: "length name \<le> 128" "length desc \<le> 512"
    and k': "k' = kilt_deposit (WorkerDIDCreated who (generate_did cfg who)) (k\<lparr>
       worker_dids := (worker_dids k)(who \<mapsto>
         \<lparr>wd_did = generate_did cfg who, wd_account = who,
          wd_metadata = \<lparr>wm_name = name, wm_description = desc, wm_registered_at = now\<rparr>,
          wd_status = Active\<rparr>),
       account_to_did := (account_to_did k)(who \<mapsto> generate_did cfg who)\<rparr>)"
    by (auto simp: create_worker_did_def bounded_try_from_def Let_def domIff split: if_splits)
  from assms(2) have "create_worker_did fw cfg now' origin name' desc' k' =
       (Inl (Kilt_Error WorkerDIDAlreadyExists), k')" for now' name' desc'
    by (simp add: create_worker_did_def k' domIff)
  with fresh len assms(1) show ?thesis
    by (auto simp: get_worker_did_def kilt_inv_account_to_did worker_authorised_def k' split: option.splits)
qed

theorem create_then_get_witness:
  "\<exists>k'. create_worker_did raw_frame toy_kilt_config 5 (Signed 9) [65] [66] toy_kilt = (Inr (), k') \<and>
     get_worker_did k' 9 = Inr (replicate 32 9)"
proof -
  have "fst (create_worker_did raw_frame toy_kilt_config 5 (Signed 9) [65] [66] toy_kilt) = Inr ()"
    by (simp add: create_worker_did_def bounded_try_from_def toy_kilt_def Let_def)
  then obtain k' where k': "create_worker_did raw_frame toy_kilt_config 5 (Signed 9) [65] [66] toy_kilt = (Inr (), k')"
    by (metis prod.collapse)
  show ?thesis
    using k' create_then_get [OF toy_kilt_inv raw_frame_simps(1) k'] by simp
qed

text \<open>
  C20: Suspending a registered worker at block \<open>now\<close> succeeds for the root origin and bars exactly
  this worker: it may work again from the block after \<open>now\<close> plus the duration (the configured
  period if none is given, the sum capped at the largest block number), provided its credential is
  then live, and nobody else's authority changes.
\<close>

theorem suspension_window:
  fixes duration :: "u32 option"
  assumes "iter_ok cfg" and "kilt_inv cfg k" and "no_collision cfg k"
    and "worker_dids k a = Some w" and "ensure_root fw origin = Inr ()"
    and "d = (case duration of None \<Rightarrow> worker_suspension_period cfg | Some x \<Rightarrow> x)"
    and "suspend_worker fw cfg now origin (wd_did w) duration k = (r, k')"
  shows "r = Inr () \<and>
    (\<forall>now'. worker_authorised now' k' a \<longleftrightarrow>
       (\<exists>c. worker_credentials k (wd_did w) = Some c \<and> credential_live now' c) \<and>
       min (unat now + unat d) (2 ^ 32 - 1) < unat now') \<and>
    (\<forall>now' b. b \<noteq> a \<longrightarrow> worker_authorised now' k' b = worker_authorised now' k b)"
proof -
  from assms(5-7) suspend_dids [OF assms(1-4)]
  have r: "r = Inr ()" and k': "k' = kilt_deposit (WorkerSuspended (wd_did w) (saturating_add now d))
      (k\<lparr>worker_dids := (worker_dids k)(a \<mapsto> w\<lparr>wd_status := Suspended (saturating_add now d)\<rparr>)\<rparr>)"
    by (auto simp: suspend_worker_Inr suspend_worker_credential_def Let_def)
  have "saturating_add now d < now' \<longleftrightarrow> min (unat now + unat d) (2 ^ 32 - 1) < unat now'" for now'
    by (simp add: word_less_nat_alt saturation)
  then have "worker_authorised now' k' a \<longleftrightarrow>
       (\<exists>c. worker_credentials k (wd_did w) = Some c \<and> credential_live now' c) \<and>
       min (unat now + unat d) (2 ^ 32 - 1) < unat now'" for now'
    by (auto simp: worker_authorised_def k' split: option.splits)
  moreover have "worker_authorised now' k' b = worker_authorised now' k b" if "b \<noteq> a" for now' b
    using that by (intro worker_authorised_cong) (simp_all add: k')
  ultimately show ?thesis using r by blast
qed

theorem suspension_window_witness:
  "\<exists>k'. suspend_worker raw_frame toy_kilt_config 10 Root (replicate 32 7) (Some 20) toy_kilt = (Inr (), k') \<and>
     \<not> worker_authorised 30 k' 7 \<and> worker_authorised 31 k' 7"
proof -
  obtain r k' where s: "suspend_worker raw_frame toy_kilt_config 10 Root (replicate 32 7) (Some 20) toy_kilt = (r, k')"
    by (rule prod.exhaust)
  have "r = Inr () \<and>
    (\<forall>now'. worker_authorised now' k' 7 \<longleftrightarrow>
       (\<exists>c. worker_credentials toy_kilt (wd_did (toy_worker 7)) = Some c \<and> credential_live now' c) \<and>
       min (unat (10 :: u32) + unat (20 :: u32)) (2 ^ 32 - 1) < unat now') \<and>
    (\<forall>now' b. b \<noteq> 7 \<longrightarrow> worker_authorised now' k' b = worker_authorised now' toy_kilt b)"
    by (rule suspension_window [of toy_kilt_config toy_kilt 7 "toy_worker 7" raw_frame Root 20 "Some 20" 10])
      (simp_all add: s)
  with s show ?thesis by (simp add: credential_live_def)
qed

text \<open>
  A revocation is final until governance issues again: after root revokes the credential of a
  DID, whatever calls follow, as long as none of them issues a credential for this DID, verification
  fails with \<open>WorkerCredentialNotFound\<close> at every block and no account with the DID may work.
\<close>

theorem revocation_lasts:
  assumes "storage_layer layer" and "ensure_root fw origin = Inr ()"
    and "revoke_worker_credential fw origin d k = (r, k1)"
    and "\<forall>(now, o', c)\<in>set calls. \<not> issues_for d c"
    and "k2 = run_calls layer (\<lambda>(now, o', c). kilt_dispatch fw cfg now o' c) calls k1"
  shows "r = Inr () \<and>
    verify_worker_credential cfg now k2 d = Inl (Kilt_Error WorkerCredentialNotFound) \<and>
    (\<forall>a w. worker_dids k2 a = Some w \<and> wd_did w = d \<longrightarrow> \<not> worker_authorised now k2 a)"
proof -
  from assms(2,3) have "r = Inr ()" and "worker_credentials k1 d = None"
    by (auto simp: revoke_worker_credential_def)
  moreover from this assms(1,4,5) have "worker_credentials k2 d = None"
    using kilt_revoked.run_keeps_guarded [of layer k1 d calls fw cfg] by (auto simp: case_prod_beta)
  ultimately show ?thesis
    by (auto simp: verify_unfold worker_authorised_def)
qed

theorem revocation_lasts_witness:
  "verify_worker_credential toy_kilt_config 50
     (run_calls commit_or_discard (\<lambda>(now, o', c). kilt_dispatch raw_frame toy_kilt_config now o' c)
        [(11, Root, IssueWorkerCredential (replicate 32 8) [1] None)]
        (snd (revoke_worker_credential raw_frame Root (replicate 32 7) toy_kilt)))
     (replicate 32 7) = Inl (Kilt_Error WorkerCredentialNotFound)"
proof -
  obtain r k1 where k1: "revoke_worker_credential raw_frame Root (replicate 32 7) toy_kilt = (r, k1)"
    by (rule prod.exhaust)
  have "\<forall>(now, o', c)\<in>set [(11, Root, IssueWorkerCredential (replicate 32 8) [1] None)].
      \<not> issues_for (replicate 32 7) c"
    by (simp add: replicate_eq_iff)
  from revocation_lasts [OF storage_layer_commit_or_discard raw_frame_simps(4) k1 this refl, of toy_kilt_config 50]
  show ?thesis by (simp add: k1)
qed

text \<open>
  C34: A credential that root issues at block \<open>now\<close> for a registered worker, with at most 100 models,
  takes effect at once and is good up to and including block \<open>now\<close> plus the validity period (capped
  at the largest block number); without a period it never expires. Throughout, a suspension in
  force still bars the worker. More than 100 models are refused and change nothing.
\<close>

theorem issued_credential_window:
  assumes "kilt_inv cfg k" and "worker_dids k a = Some w" and "ensure_root fw origin = Inr ()"
    and "issue_worker_credential fw now origin (wd_did w) models validity k = (r, k')"
  shows "(100 < length models \<longrightarrow> r = Inl (Kilt_Error InvalidBoundedVec) \<and> k' = k) \<and>
    (length models \<le> 100 \<longrightarrow> r = Inr () \<and>
      (\<exists>c. worker_credentials k' (wd_did w) = Some c \<and> cr_models c = models \<and>
           cr_issuer c = governance_did k \<and> cr_issued_at c = now) \<and>
      (\<forall>now'. worker_authorised now' k' a \<longleftrightarrow>
        (case validity of None \<Rightarrow> True | Some p \<Rightarrow> unat now' \<le> min (unat now + unat p) (2 ^ 32 - 1)) \<and>
        status_permits now' (wd_status w)))"
  using assms
  by (auto simp: issue_worker_credential_def Let_def bounded_try_from_def worker_authorised_def
      credential_live_def word_le_nat_alt saturation split: option.splits if_splits)

theorem issued_credential_window_witness:
  "\<exists>k'. issue_worker_credential raw_frame 200 Root (replicate 32 7) [3] None toy_kilt = (Inr (), k') \<and>
     worker_authorised 4294967295 k' 7"
proof -
  obtain r k' where k': "issue_worker_credential raw_frame 200 Root (replicate 32 7) [3] None toy_kilt = (r, k')"
    by (rule prod.exhaust)
  then have "issue_worker_credential raw_frame 200 Root (wd_did (toy_worker 7)) [3] None toy_kilt = (r, k')"
    by simp
  from issued_credential_window [OF toy_kilt_inv toy_kilt_simps(1) raw_frame_simps(4) this]
  have "r = Inr ()" and "worker_authorised 4294967295 k' 7" by simp_all
  with k' show ?thesis by blast
qed

text \<open>
  Suspending a DID that no account has registered is reported as a success, with a
  \<open>WorkerSuspended\<close> event, but bars nobody: the workers and the credentials are unchanged, and
  verification of that DID answers as before.
\<close>

theorem suspend_unregistered_is_silent:
  assumes "iter_ok cfg" and "kilt_inv cfg k" and "ensure_root fw origin = Inr ()"
    and "\<forall>a w. worker_dids k a = Some w \<longrightarrow> wd_did w \<noteq> d"
    and "suspend_worker fw cfg now origin d (Some duration) k = (r, k')"
  shows "r = Inr () \<and> kilt_events k' = kilt_events k @ [WorkerSuspended d (saturating_add now duration)] \<and>
    worker_dids k' = worker_dids k \<and> worker_credentials k' = worker_credentials k \<and>
    (\<forall>now'. verify_worker_credential cfg now' k' d = verify_worker_credential cfg now' k d)"
  using assms find_did_None [OF assms(1,2), of d]
  by (auto simp: suspend_worker_def suspend_loop_find Let_def verify_unfold split: option.splits)

theorem suspend_unregistered_is_silent_witness:
  "\<exists>k'. suspend_worker raw_frame toy_kilt_config 10 Root (replicate 32 9) (Some 20) toy_kilt = (Inr (), k') \<and>
     worker_dids k' = worker_dids toy_kilt"
proof -
  obtain r k' where k': "suspend_worker raw_frame toy_kilt_config 10 Root (replicate 32 9) (Some 20) toy_kilt = (r, k')"
    by (rule prod.exhaust)
  have "\<forall>a w. worker_dids toy_kilt a = Some w \<longrightarrow> wd_did w \<noteq> replicate 32 9"
    by (auto simp: toy_kilt_def replicate_eq_iff)
  from suspend_unregistered_is_silent [OF toy_iter_ok toy_kilt_inv raw_frame_simps(4) this k'] k'
  show ?thesis by blast
qed

text \<open>
  The helper \<open>suspend_worker_credential\<close> and the extrinsic \<open>suspend_worker\<close> do the same: for
  root, the extrinsic is the helper applied to the given duration, or to the configured period when
  none is given; for any other origin it fails with the origin's error.
\<close>

theorem suspend_worker_is_helper:
  "suspend_worker fw cfg now origin d duration k =
     (case ensure_root fw origin of
        Inl e \<Rightarrow> (Inl e, k)
      | Inr _ \<Rightarrow> suspend_worker_credential cfg now d
                   (if duration = None then worker_suspension_period cfg else the duration) k)"
  by (auto simp: suspend_worker_def suspend_worker_credential_def Let_def split: sum.splits option.splits)

end
