(* ===== verification/QX_AI.thy ===== *)
theory QX_AI
  imports Frame_Interface
begin

text \<open>
  The pallet \<open>pallet-qx-ai\<close>: inference requests, the workers' queues, inference results and the
  registry of models. The pallet's storage is the record \<open>ai\<close>; the trait \<open>KiltPermissions\<close>,
  through which the pallet sees the KILT pallet, is the record \<open>kilt_permissions\<close>. The bodies
  keep the order of the source's reads and writes, so the storage a failing body leaves behind is
  visible. The invariant \<open>ai_inv\<close> ties requests, queues, the request map and the results
  together; every successful call keeps it unless the request counter is at its maximum, where
  the unchecked increment wraps. What the client side needs of the trait is the locale
  \<open>credential_oracle\<close>.
\<close>

section \<open>Data\<close>

type_synonym ai_did_identifier = "u8 list"

record allowed_model =
  model_name :: "u8 list"
  model_hash :: "u8 list"
  active :: bool

datatype inference_status = Inference_Completed | Inference_Failed

datatype request_status = Queued | Assigned | Completed | Failed

record 'a inference_request =
  customer :: 'a
  target_worker :: 'a
  prompt :: "u8 list"
  max_tokens :: u32
  req_status :: request_status
  created_at :: u32

record 'a inference_result =
  res_request_id :: u32
  res_worker :: 'a
  res_worker_did :: ai_did_identifier
  res_output :: "u8 list"
  res_status :: inference_status
  submitted_at :: u32

record 'a kilt_permissions =
  kp_verify_worker_credential :: "ai_did_identifier \<Rightarrow> dispatch_error + bool"
  kp_get_worker_did :: "'a \<Rightarrow> dispatch_error + ai_did_identifier"

datatype 'a ai_event =
    RequestSubmitted u32 'a 'a
  | RequestAssigned u32 'a
  | InferenceSubmitted u32 u32 'a ai_did_identifier
  | AIWorkerStatusUpdated 'a bool
  | RequestCompleted u32 u32
  | ModelAdded u32 "u8 list"

record 'a ai =
  authorized_workers :: "ai_did_identifier \<rightharpoonup> 'a"
  allowed_models :: "u32 \<rightharpoonup> allowed_model"
  next_model_id :: u32
  next_request_id :: u32
  next_inference_id :: u32
  inference_requests :: "u32 \<rightharpoonup> 'a inference_request"
  inference_results :: "u32 \<rightharpoonup> 'a inference_result"
  ai_worker_queues :: "'a \<rightharpoonup> u32 list"
  request_worker_map :: "u32 \<rightharpoonup> 'a"
  ai_worker_status :: "'a \<rightharpoonup> bool"
  ai_events :: "'a ai_event list"

text \<open>
  \<open>deposit_event\<close>. The log is a history variable: it keeps all events the pallet has deposited, while \<open>System\<close> keeps
  those of the current block (and none of the genesis block, in which no calls are dispatched). No call reads it.
\<close>

definition ai_deposit :: "'a ai_event \<Rightarrow> 'a ai \<Rightarrow> 'a ai" where
  "ai_deposit e s = s\<lparr>ai_events := ai_events s @ [e]\<rparr>"

definition ai_genesis :: "'a ai" where
  "ai_genesis = \<lparr>authorized_workers = Map.empty, allowed_models = Map.empty, next_model_id = 0,
     next_request_id = 0, next_inference_id = 0, inference_requests = Map.empty,
     inference_results = Map.empty, ai_worker_queues = Map.empty, request_worker_map = Map.empty,
     ai_worker_status = Map.empty, ai_events = []\<rparr>"

section \<open>Dispatchables\<close>

text \<open>
  The counter is incremented by an unchecked \<open>+ 1\<close>, which wraps in the release profile the
  runtime is built with. When the queue is full the request has already been stored.
\<close>

definition submit_request ::
  "('o, 'a) frame \<Rightarrow> 'a kilt_permissions \<Rightarrow> u32 \<Rightarrow> u32 \<Rightarrow> 'o \<Rightarrow> 'a \<Rightarrow> u8 list \<Rightarrow> u32
     \<Rightarrow> ('a ai, dispatch_error, unit) body" where
  "submit_request fw kp max_queue_size now origin worker prompt_bytes tokens s =
     (case ensure_signed fw origin of
        Inl e \<Rightarrow> (Inl e, s)
      | Inr who \<Rightarrow>
          (case kp_get_worker_did kp worker of
             Inl _ \<Rightarrow> (Inl (AI_Error AI_WorkerDIDNotFound), s)
           | Inr worker_did \<Rightarrow>
               let is_valid = (case kp_verify_worker_credential kp worker_did of Inr valid \<Rightarrow> valid | Inl _ \<Rightarrow> False) in
               if \<not> is_valid then (Inl (AI_Error InvalidWorkerCredential), s)
               else
                 let request_id = next_request_id s;
                     s1 = s\<lparr>next_request_id := request_id + 1\<rparr>;
                     block_number = saturated_into now;
                     request = \<lparr>customer = who, target_worker = worker, prompt = prompt_bytes,
                       max_tokens = tokens, req_status = Queued, created_at = block_number\<rparr>;
                     s2 = s1\<lparr>inference_requests := (inference_requests s1)(request_id \<mapsto> request)\<rparr>;
                     s3 = s2\<lparr>request_worker_map := (request_worker_map s2)(request_id \<mapsto> worker)\<rparr>;
                     queue = (case ai_worker_queues s3 worker of None \<Rightarrow> [] | Some q \<Rightarrow> q)
                 in (case bounded_try_push (unat max_queue_size) queue request_id of
                       None \<Rightarrow> (Inl (AI_Error AIWorkerQueueFull), s3)
                     | Some queue' \<Rightarrow>
                         let s4 = s3\<lparr>ai_worker_queues := (ai_worker_queues s3)(worker \<mapsto> queue')\<rparr>
                         in (Inr (), ai_deposit (RequestAssigned request_id worker)
                               (ai_deposit (RequestSubmitted request_id who worker) s4)))))"

definition update_ai_worker_status ::
  "('o, 'a) frame \<Rightarrow> 'a kilt_permissions \<Rightarrow> 'o \<Rightarrow> bool \<Rightarrow> ('a ai, dispatch_error, pays) body" where
  "update_ai_worker_status fw kp origin online s =
     (case ensure_signed fw origin of
        Inl e \<Rightarrow> (Inl e, s)
      | Inr who \<Rightarrow>
          (case kp_get_worker_did kp who of
             Inl e \<Rightarrow> (Inl e, s)
           | Inr worker_did \<Rightarrow>
               (case kp_verify_worker_credential kp worker_did of
                  Inl e \<Rightarrow> (Inl e, s)
                | Inr valid \<Rightarrow>
                    if \<not> valid then (Inl (AI_Error InvalidWorkerCredential), s)
                    else (Inr Pays_No, ai_deposit (AIWorkerStatusUpdated who online)
                            (s\<lparr>ai_worker_status := (ai_worker_status s)(who \<mapsto> online)\<rparr>)))))"

definition submit_inference ::
  "('o, 'a) frame \<Rightarrow> 'a kilt_permissions \<Rightarrow> u32 \<Rightarrow> 'o \<Rightarrow> u32 \<Rightarrow> u8 list
     \<Rightarrow> ('a ai, dispatch_error, pays) body" where
  "submit_inference fw kp now origin request_id output s =
     (case ensure_signed fw origin of
        Inl e \<Rightarrow> (Inl e, s)
      | Inr who \<Rightarrow>
          (case kp_get_worker_did kp who of
             Inl e \<Rightarrow> (Inl e, s)
           | Inr worker_did \<Rightarrow>
               (case kp_verify_worker_credential kp worker_did of
                  Inl e \<Rightarrow> (Inl e, s)
                | Inr valid \<Rightarrow>
                    if \<not> valid then (Inl (AI_Error InvalidWorkerCredential), s)
                    else (case inference_requests s request_id of
                            None \<Rightarrow> (Inl (AI_Error RequestNotFound), s)
                          | Some request \<Rightarrow>
                              if target_worker request \<noteq> who then (Inl (AI_Error RequestNotAssigned), s)
                              else if req_status request \<noteq> Queued then (Inl (AI_Error RequestAlreadyAssigned), s)
                              else
                                let inference_id = next_inference_id s;
                                    s1 = s\<lparr>next_inference_id := inference_id + 1\<rparr>;
                                    block_number = saturated_into now;
                                    result = \<lparr>res_request_id = request_id, res_worker = who,
                                      res_worker_did = worker_did, res_output = output,
                                      res_status = Inference_Completed, submitted_at = block_number\<rparr>;
                                    s2 = s1\<lparr>inference_results := (inference_results s1)(inference_id \<mapsto> result)\<rparr>
                                in (case inference_requests s2 request_id of
                                      None \<Rightarrow> (Inl (AI_Error RequestNotFound), s2)
                                    | Some req \<Rightarrow>
                                        let s3 = s2\<lparr>inference_requests := (inference_requests s2)(request_id \<mapsto> req\<lparr>req_status := Completed\<rparr>)\<rparr>;
                                            s4 = (case ai_worker_queues s3 who of
                                                    None \<Rightarrow> s3
                                                  | Some queue \<Rightarrow> s3\<lparr>ai_worker_queues := (ai_worker_queues s3)
                                                      (who \<mapsto> filter (\<lambda>i. i \<noteq> request_id) queue)\<rparr>)
                                        in (Inr Pays_No, ai_deposit (RequestCompleted request_id inference_id)
                                              (ai_deposit (InferenceSubmitted inference_id request_id who worker_did) s4)))))))"

definition add_allowed_model ::
  "('o, 'a) frame \<Rightarrow> 'o \<Rightarrow> u32 \<Rightarrow> u8 list \<Rightarrow> u8 list \<Rightarrow> ('a ai, dispatch_error, unit) body" where
  "add_allowed_model fw origin model_id name hash s =
     (case ensure_root fw origin of
        Inl e \<Rightarrow> (Inl e, s)
      | Inr _ \<Rightarrow>
          let model = \<lparr>model_name = name, model_hash = hash, active = True\<rparr>
          in (Inr (), ai_deposit (ModelAdded model_id name)
                (s\<lparr>allowed_models := (allowed_models s)(model_id \<mapsto> model)\<rparr>)))"

definition get_inference_result :: "'a ai \<Rightarrow> u32 \<Rightarrow> 'a inference_result option" where
  "get_inference_result s inference_id = inference_results s inference_id"

definition get_allowed_model :: "'a ai \<Rightarrow> u32 \<Rightarrow> allowed_model option" where
  "get_allowed_model s model_id = allowed_models s model_id"

text \<open>
  The pallet's calls. Arguments that are bounded vectors in the source are lists here, and
  \<open>ai_call_wf\<close> is what their types guarantee. A call that returns \<open>()\<close> has FRAME's default
  post-dispatch information, which charges the fee.
\<close>

datatype 'a ai_call =
    SubmitRequest 'a "u8 list" u32
  | UpdateAIWorkerStatus bool
  | SubmitInference u32 "u8 list"
  | AddAllowedModel u32 "u8 list" "u8 list"

fun ai_call_wf :: "'a ai_call \<Rightarrow> bool" where
  "ai_call_wf (SubmitRequest _ p _) \<longleftrightarrow> length p \<le> 2048"
| "ai_call_wf (UpdateAIWorkerStatus _) \<longleftrightarrow> True"
| "ai_call_wf (SubmitInference _ out) \<longleftrightarrow> length out \<le> 4096"
| "ai_call_wf (AddAllowedModel _ name hash) \<longleftrightarrow> length name \<le> 128 \<and> length hash \<le> 64"

definition default_post_info :: "(dispatch_error + unit) \<times> 's \<Rightarrow> (dispatch_error + pays) \<times> 's" where
  "default_post_info rs = (case rs of (Inl e, s) \<Rightarrow> (Inl e, s) | (Inr _, s) \<Rightarrow> (Inr Pays_Yes, s))"

fun ai_dispatch ::
  "('o, 'a) frame \<Rightarrow> 'a kilt_permissions \<Rightarrow> u32 \<Rightarrow> u32 \<Rightarrow> 'o \<Rightarrow> 'a ai_call \<Rightarrow> ('a ai, dispatch_error, pays) body" where
  "ai_dispatch fw kp mq now origin (SubmitRequest worker p tokens) s =
     default_post_info (submit_request fw kp mq now origin worker p tokens s)"
| "ai_dispatch fw kp mq now origin (UpdateAIWorkerStatus online) s = update_ai_worker_status fw kp origin online s"
| "ai_dispatch fw kp mq now origin (SubmitInference request_id out) s =
     submit_inference fw kp now origin request_id out s"
| "ai_dispatch fw kp mq now origin (AddAllowedModel model_id name hash) s =
     default_post_info (add_allowed_model fw origin model_id name hash s)"

fun ai_call_index :: "'a ai_call \<Rightarrow> nat" where
  "ai_call_index (SubmitRequest _ _ _) = 0"
| "ai_call_index (UpdateAIWorkerStatus _) = 1"
| "ai_call_index (SubmitInference _ _) = 2"
| "ai_call_index (AddAllowedModel _ _ _) = 4"

fun ai_dispatch_info :: "'a ai_call \<Rightarrow> dispatch_info" where
  "ai_dispatch_info (SubmitRequest _ _ _) = weight_only 10000"
| "ai_dispatch_info (UpdateAIWorkerStatus _) = \<lparr>di_ref_time = 10000, di_class = Normal, di_pays_fee = Pays_No\<rparr>"
| "ai_dispatch_info (SubmitInference _ _) = \<lparr>di_ref_time = 10000, di_class = Normal, di_pays_fee = Pays_No\<rparr>"
| "ai_dispatch_info (AddAllowedModel _ _ _) = weight_only 10000"

section \<open>What a successful call does\<close>

definition queue_of :: "'a ai \<Rightarrow> 'a \<Rightarrow> u32 list" where
  "queue_of s w = (case ai_worker_queues s w of None \<Rightarrow> [] | Some q \<Rightarrow> q)"

text \<open>The storage of a successful \<open>submit_request\<close>, without its events.\<close>

definition enqueued :: "'a \<Rightarrow> 'a \<Rightarrow> u8 list \<Rightarrow> u32 \<Rightarrow> u32 \<Rightarrow> 'a ai \<Rightarrow> 'a ai" where
  "enqueued who worker p tokens now s = s\<lparr>
     next_request_id := next_request_id s + 1,
     inference_requests := (inference_requests s)(next_request_id s \<mapsto>
       \<lparr>customer = who, target_worker = worker, prompt = p, max_tokens = tokens,
        req_status = Queued, created_at = now\<rparr>),
     request_worker_map := (request_worker_map s)(next_request_id s \<mapsto> worker),
     ai_worker_queues := (ai_worker_queues s)(worker \<mapsto> queue_of s worker @ [next_request_id s])\<rparr>"

text \<open>The storage of a successful \<open>submit_inference\<close> for the request \<open>req\<close>, without its events.\<close>

definition completed_by :: "'a \<Rightarrow> ai_did_identifier \<Rightarrow> u32 \<Rightarrow> 'a inference_request \<Rightarrow> u8 list \<Rightarrow> u32 \<Rightarrow> 'a ai \<Rightarrow> 'a ai" where
  "completed_by who did rid req out now s = s\<lparr>
     next_inference_id := next_inference_id s + 1,
     inference_results := (inference_results s)(next_inference_id s \<mapsto>
       \<lparr>res_request_id = rid, res_worker = who, res_worker_did = did, res_output = out,
        res_status = Inference_Completed, submitted_at = now\<rparr>),
     inference_requests := (inference_requests s)(rid \<mapsto> req\<lparr>req_status := Completed\<rparr>),
     ai_worker_queues := (case ai_worker_queues s who of
         None \<Rightarrow> ai_worker_queues s
       | Some q \<Rightarrow> (ai_worker_queues s)(who \<mapsto> filter (\<lambda>i. i \<noteq> rid) q))\<rparr>"

text \<open>An account that has a DID with a verified credential, as the trait reports it.\<close>

definition credentialed :: "'a kilt_permissions \<Rightarrow> 'a \<Rightarrow> ai_did_identifier \<Rightarrow> bool" where
  "credentialed kp a did \<longleftrightarrow> kp_get_worker_did kp a = Inr did \<and> kp_verify_worker_credential kp did = Inr True"

lemma submit_request_ok_iff:
  "submit_request fw kp mq now origin worker p tokens s = (Inr (), s') \<longleftrightarrow>
     (\<exists>who did. ensure_signed fw origin = Inr who \<and> credentialed kp worker did \<and>
        length (queue_of s worker) < unat mq \<and>
        s' = ai_deposit (RequestAssigned (next_request_id s) worker)
               (ai_deposit (RequestSubmitted (next_request_id s) who worker)
                 (enqueued who worker p tokens now s)))"
  by (auto simp: submit_request_def credentialed_def enqueued_def queue_of_def bounded_try_push_def Let_def
      split: sum.splits option.splits if_splits)

lemma submit_inference_ok_iff:
  "submit_inference fw kp now origin rid out s = (Inr pay, s') \<longleftrightarrow>
     (\<exists>who did req. ensure_signed fw origin = Inr who \<and> credentialed kp who did \<and>
        inference_requests s rid = Some req \<and> target_worker req = who \<and> req_status req = Queued \<and>
        pay = Pays_No \<and>
        s' = ai_deposit (RequestCompleted rid (next_inference_id s))
               (ai_deposit (InferenceSubmitted (next_inference_id s) rid who did)
                 (completed_by who did rid req out now s)))"
  by (auto simp: submit_inference_def credentialed_def completed_by_def Let_def
      split: sum.splits option.splits if_splits)

lemma update_ai_worker_status_ok_iff:
  "update_ai_worker_status fw kp origin online s = (Inr pay, s') \<longleftrightarrow>
     (\<exists>who did. ensure_signed fw origin = Inr who \<and> credentialed kp who did \<and> pay = Pays_No \<and>
        s' = ai_deposit (AIWorkerStatusUpdated who online)
               (s\<lparr>ai_worker_status := (ai_worker_status s)(who \<mapsto> online)\<rparr>))"
  by (auto simp: update_ai_worker_status_def credentialed_def split: sum.splits if_splits)

lemma add_allowed_model_ok_iff:
  "add_allowed_model fw origin mid name hash s = (Inr (), s') \<longleftrightarrow>
     ensure_root fw origin = Inr () \<and>
     s' = ai_deposit (ModelAdded mid name)
            (s\<lparr>allowed_models := (allowed_models s)(mid \<mapsto> \<lparr>model_name = name, model_hash = hash, active = True\<rparr>)\<rparr>)"
  by (auto simp: add_allowed_model_def Let_def split: sum.splits)

lemmas ai_ok_iffs = submit_request_ok_iff submit_inference_ok_iff update_ai_worker_status_ok_iff add_allowed_model_ok_iff

lemma default_post_info_Inr [simp]:
  "default_post_info rs = (Inr pay, s') \<longleftrightarrow> rs = (Inr (), s') \<and> pay = Pays_Yes"
  by (auto simp: default_post_info_def split: prod.splits sum.splits)

lemma ai_deposit_simps [simp]:
  "authorized_workers (ai_deposit e s) = authorized_workers s"
  "allowed_models (ai_deposit e s) = allowed_models s"
  "next_model_id (ai_deposit e s) = next_model_id s"
  "next_request_id (ai_deposit e s) = next_request_id s"
  "next_inference_id (ai_deposit e s) = next_inference_id s"
  "inference_requests (ai_deposit e s) = inference_requests s"
  "inference_results (ai_deposit e s) = inference_results s"
  "ai_worker_queues (ai_deposit e s) = ai_worker_queues s"
  "request_worker_map (ai_deposit e s) = request_worker_map s"
  "ai_worker_status (ai_deposit e s) = ai_worker_status s"
  "ai_events (ai_deposit e s) = ai_events s @ [e]"
  "queue_of (ai_deposit e s) = queue_of s"
  by (simp_all add: ai_deposit_def queue_of_def fun_eq_iff)

section \<open>The invariant\<close>

text \<open>The requests a worker still has to answer.\<close>

definition pending :: "'a ai \<Rightarrow> 'a \<Rightarrow> u32 set" where
  "pending s w = {i. \<exists>r. inference_requests s i = Some r \<and> target_worker r = w \<and> req_status r = Queued}"

definition requests_ok :: "'a ai \<Rightarrow> bool" where
  "requests_ok s \<longleftrightarrow>
     (\<forall>i. inference_requests s i \<noteq> None \<longleftrightarrow> i < next_request_id s) \<and>
     (\<forall>i r. inference_requests s i = Some r \<longrightarrow> req_status r \<in> {Queued, Completed} \<and> length (prompt r) \<le> 2048) \<and>
     request_worker_map s = (\<lambda>i. map_option target_worker (inference_requests s i))"

definition queues_ok :: "nat \<Rightarrow> 'a ai \<Rightarrow> bool" where
  "queues_ok mq s \<longleftrightarrow>
     (\<forall>w. sorted_wrt (<) (queue_of s w) \<and> set (queue_of s w) = pending s w \<and> length (queue_of s w) \<le> mq)"

text \<open>Results are numbered without gaps.\<close>

definition results_dense :: "'a ai \<Rightarrow> bool" where
  "results_dense s \<longleftrightarrow> (\<forall>j. inference_results s j \<noteq> None \<longleftrightarrow> j < next_inference_id s)"

text \<open>Every result answers a completed request of its worker.\<close>

definition results_sound :: "'a ai \<Rightarrow> bool" where
  "results_sound s \<longleftrightarrow>
     (\<forall>j r. inference_results s j = Some r \<longrightarrow>
        res_status r = Inference_Completed \<and> length (res_output r) \<le> 4096 \<and>
        (\<exists>q. inference_requests s (res_request_id r) = Some q \<and> req_status q = Completed \<and>
             target_worker q = res_worker r))"

text \<open>Every completed request has a result, and only one.\<close>

definition results_complete :: "'a ai \<Rightarrow> bool" where
  "results_complete s \<longleftrightarrow>
     (\<forall>i q. inference_requests s i = Some q \<and> req_status q = Completed \<longrightarrow>
        (\<exists>j r. inference_results s j = Some r \<and> res_request_id r = i))"

definition results_unique :: "'a ai \<Rightarrow> bool" where
  "results_unique s \<longleftrightarrow>
     (\<forall>j j' r r'. inference_results s j = Some r \<and> inference_results s j' = Some r' \<and>
        res_request_id r = res_request_id r' \<longrightarrow> j = j')"

definition results_ok :: "'a ai \<Rightarrow> bool" where
  "results_ok s \<longleftrightarrow> results_dense s \<and> results_sound s \<and> results_complete s \<and> results_unique s"

lemmas results_defs = results_dense_def results_sound_def results_complete_def results_unique_def

lemma results_denseD: "results_ok s \<Longrightarrow> inference_results s j \<noteq> None \<longleftrightarrow> j < next_inference_id s"
  by (simp add: results_ok_def results_dense_def)

lemma results_soundD:
  assumes "results_ok s" and "inference_results s j = Some r"
  obtains q where "inference_requests s (res_request_id r) = Some q" and "req_status q = Completed"
    and "target_worker q = res_worker r"
  using assms by (auto simp: results_ok_def results_sound_def)

lemma results_completeE:
  assumes "results_ok s" and "inference_requests s i = Some q" and "req_status q = Completed"
  obtains j r where "inference_results s j = Some r" and "res_request_id r = i"
  using assms by (auto simp: results_ok_def results_complete_def)

lemma results_uniqueD:
  "results_ok s \<Longrightarrow> inference_results s j = Some r \<Longrightarrow> inference_results s j' = Some r' \<Longrightarrow>
   res_request_id r = res_request_id r' \<Longrightarrow> j = j'"
  by (auto simp: results_ok_def results_unique_def)

definition ai_inv :: "nat \<Rightarrow> 'a ai \<Rightarrow> bool" where
  "ai_inv mq s \<longleftrightarrow> requests_ok s \<and> queues_ok mq s \<and> results_ok s"

lemma ai_inv_genesis: "ai_inv mq ai_genesis"
  by (simp add: ai_inv_def requests_ok_def queues_ok_def results_ok_def results_defs ai_genesis_def queue_of_def pending_def)

lemma ai_inv_deposit [simp]: "ai_inv mq (ai_deposit e s) = ai_inv mq s"
  by (simp add: ai_inv_def requests_ok_def queues_ok_def results_ok_def results_defs pending_def)

lemma requests_ok_fresh: "requests_ok s \<Longrightarrow> inference_requests s (next_request_id s) = None"
  unfolding requests_ok_def by (metis less_irrefl)

lemma results_ok_fresh: "results_ok s \<Longrightarrow> inference_results s (next_inference_id s) = None"
  using results_denseD [of s "next_inference_id s"] by simp

text \<open>There are fewer results than requests as long as a request is unanswered.\<close>

lemma inference_id_less_request_id:
  assumes "requests_ok s" and "results_ok s"
    and "inference_requests s i = Some q" and "req_status q \<noteq> Completed"
  shows "next_inference_id s < next_request_id s"
proof -
  let ?f = "\<lambda>j. res_request_id (the (inference_results s j))"
  let ?J = "{j. j < next_inference_id s}" and ?I = "{i. i < next_request_id s}"
  have res: "\<exists>r. inference_results s j = Some r" if "j \<in> ?J" for j
    using results_denseD [OF assms(2), of j] that by auto
  have below: "x < next_request_id s" if "inference_requests s x = Some q'" for x q'
    using assms(1) that unfolding requests_ok_def by blast
  have "inj_on ?f ?J"
  proof (rule inj_onI)
    fix j j' assume "j \<in> ?J" "j' \<in> ?J" and eq: "?f j = ?f j'"
    with res obtain r r' where "inference_results s j = Some r" "inference_results s j' = Some r'" by blast
    with eq show "j = j'" by (simp add: results_uniqueD [OF assms(2)])
  qed
  moreover have "?f ` ?J \<subseteq> ?I - {i}"
  proof
    fix x assume "x \<in> ?f ` ?J"
    then obtain j r where "inference_results s j = Some r" and x: "x = res_request_id r"
      using res by fastforce
    then obtain q' where "inference_requests s x = Some q'" "req_status q' = Completed"
      using results_soundD [OF assms(2)] by metis
    with below assms(3,4) show "x \<in> ?I - {i}" by auto
  qed
  ultimately have "card ?J \<le> card (?I - {i})"
    by (metis card_image card_mono finite)
  also have "\<dots> < card ?I"
    using below [OF assms(3)] by (intro psubset_card_mono) auto
  finally show ?thesis
    unfolding card_less_word by (simp only: word_less_nat_alt)
qed

subsection \<open>Submitting a request keeps the invariant\<close>

lemma enqueued_pending:
  assumes "requests_ok s"
  shows "pending (enqueued who worker p tokens now s) w =
     (if w = worker then insert (next_request_id s) (pending s w) else pending s w)"
  using requests_ok_fresh [OF assms] by (auto simp: pending_def enqueued_def)

lemma enqueued_queue_of:
  "queue_of (enqueued who worker p tokens now s) w =
     (if w = worker then queue_of s worker @ [next_request_id s] else queue_of s w)"
  by (simp add: queue_of_def enqueued_def)

lemma pending_below: "requests_ok s \<Longrightarrow> i \<in> pending s w \<Longrightarrow> i < next_request_id s"
  unfolding requests_ok_def pending_def by blast

lemma enqueued_requests_ok:
  assumes "requests_ok s" and "next_request_id s \<noteq> - 1" and "length p \<le> 2048"
  shows "requests_ok (enqueued who worker p tokens now s)"
  using assms by (auto simp: requests_ok_def enqueued_def less_succ_iff fun_eq_iff)

lemma enqueued_queues_ok:
  assumes "requests_ok s" and "queues_ok mq s" and "length (queue_of s worker) < mq"
  shows "queues_ok mq (enqueued who worker p tokens now s)"
  using assms pending_below [OF assms(1)]
  by (auto simp: queues_ok_def enqueued_queue_of enqueued_pending intro!: strict_sorted_snoc)

lemma enqueued_results_ok:
  assumes "requests_ok s" and "results_ok s"
  shows "results_ok (enqueued who worker p tokens now s)"
proof -
  let ?s = "enqueued who worker p tokens now s"
  have old: "inference_requests ?s i = Some q" if "inference_requests s i = Some q" for i q
    using that requests_ok_fresh [OF assms(1)] by (auto simp: enqueued_def)
  have new: "inference_requests s i = Some q" if "inference_requests ?s i = Some q" "req_status q = Completed" for i q
    using that by (auto simp: enqueued_def split: if_splits)
  have same: "inference_results ?s = inference_results s" "next_inference_id ?s = next_inference_id s"
    by (simp_all add: enqueued_def)
  have "results_sound ?s"
    using assms(2) old unfolding results_ok_def results_sound_def same by blast
  moreover have "results_complete ?s"
    using assms(2) new unfolding results_ok_def results_complete_def same by blast
  ultimately show ?thesis
    using assms(2) by (simp add: results_ok_def results_dense_def results_unique_def same)
qed

lemma enqueued_inv:
  assumes "ai_inv mq s" and "next_request_id s \<noteq> - 1" and "length p \<le> 2048"
    and "length (queue_of s worker) < mq"
  shows "ai_inv mq (enqueued who worker p tokens now s)"
  using assms by (simp add: ai_inv_def enqueued_requests_ok enqueued_queues_ok enqueued_results_ok)

subsection \<open>Submitting an inference keeps the invariant\<close>

lemma completed_by_queue_of:
  "queue_of (completed_by who did rid req out now s) w =
     (if w = who then filter (\<lambda>i. i \<noteq> rid) (queue_of s who) else queue_of s w)"
  by (auto simp: queue_of_def completed_by_def split: option.splits)

lemma completed_by_pending:
  assumes "inference_requests s rid = Some req" and "target_worker req = who"
  shows "pending (completed_by who did rid req out now s) w =
     (if w = who then pending s w - {rid} else pending s w)"
  using assms by (auto simp: pending_def completed_by_def)

lemma completed_by_requests_ok:
  assumes "requests_ok s" and "inference_requests s rid = Some req"
  shows "requests_ok (completed_by who did rid req out now s)"
  using assms by (auto simp: requests_ok_def completed_by_def fun_eq_iff)

lemma completed_by_queues_ok:
  assumes "queues_ok mq s" and "inference_requests s rid = Some req" and "target_worker req = who"
  shows "queues_ok mq (completed_by who did rid req out now s)"
  unfolding queues_ok_def completed_by_queue_of completed_by_pending [OF assms(2,3)]
proof
  fix w
  from assms(1) have "sorted_wrt (<) (queue_of s w)" "set (queue_of s w) = pending s w" "length (queue_of s w) \<le> mq"
    by (simp_all add: queues_ok_def)
  then show "sorted_wrt (<) (if w = who then filter (\<lambda>i. i \<noteq> rid) (queue_of s who) else queue_of s w) \<and>
      set (if w = who then filter (\<lambda>i. i \<noteq> rid) (queue_of s who) else queue_of s w) =
        (if w = who then pending s w - {rid} else pending s w) \<and>
      length (if w = who then filter (\<lambda>i. i \<noteq> rid) (queue_of s who) else queue_of s w) \<le> mq"
    by (auto simp: strict_sorted_filter intro: order_trans [OF length_filter_le])
qed

text \<open>The new result is numbered by the counter; all other results answer other requests.\<close>

lemma completed_by_results:
  "inference_results (completed_by who did rid q out now s) = (inference_results s)(next_inference_id s \<mapsto>
     \<lparr>res_request_id = rid, res_worker = who, res_worker_did = did, res_output = out,
      res_status = Inference_Completed, submitted_at = now\<rparr>)"
  "inference_requests (completed_by who did rid q out now s) =
     (inference_requests s)(rid \<mapsto> q\<lparr>req_status := Completed\<rparr>)"
  "next_inference_id (completed_by who did rid q out now s) = next_inference_id s + 1"
  by (simp_all add: completed_by_def)

lemma queued_has_no_result:
  assumes "results_ok s" and "inference_requests s rid = Some q" and "req_status q = Queued"
    and "inference_results s j = Some r"
  shows "res_request_id r \<noteq> rid"
  using results_soundD [OF assms(1,4)] assms(2,3) by fastforce

lemma completed_by_results_dense:
  assumes "results_ok s" and "next_inference_id s \<noteq> - 1"
  shows "results_dense (completed_by who did rid q out now s)"
  using results_denseD [OF assms(1)] unfolding results_dense_def completed_by_results
  by (simp add: less_succ_iff [OF assms(2)])

lemma completed_by_results_sound:
  assumes "results_ok s" and "inference_requests s rid = Some q" and "target_worker q = who"
    and "req_status q = Queued" and "length out \<le> 4096"
  shows "results_sound (completed_by who did rid q out now s)"
  unfolding results_sound_def completed_by_results
proof (intro allI impI)
  fix j r
  assume r: "((inference_results s)(next_inference_id s \<mapsto>
     \<lparr>res_request_id = rid, res_worker = who, res_worker_did = did, res_output = out,
      res_status = Inference_Completed, submitted_at = now\<rparr>)) j = Some r"
  show "res_status r = Inference_Completed \<and> length (res_output r) \<le> 4096 \<and>
    (\<exists>y. ((inference_requests s)(rid \<mapsto> q\<lparr>req_status := Completed\<rparr>)) (res_request_id r) = Some y \<and>
         req_status y = Completed \<and> target_worker y = res_worker r)"
  proof (cases "j = next_inference_id s")
    case True
    with r assms(3,5) show ?thesis by auto
  next
    case False
    with r have old: "inference_results s j = Some r" by simp
    with assms(1) queued_has_no_result [OF assms(1,2,4) old] show ?thesis
      by (simp add: results_ok_def results_sound_def)
  qed
qed

lemma completed_by_results_complete:
  assumes "results_ok s"
  shows "results_complete (completed_by who did rid q out now s)"
  unfolding results_complete_def completed_by_results
proof (intro allI impI, elim conjE)
  fix i y
  assume y: "((inference_requests s)(rid \<mapsto> q\<lparr>req_status := Completed\<rparr>)) i = Some y" "req_status y = Completed"
  show "\<exists>j r. ((inference_results s)(next_inference_id s \<mapsto>
     \<lparr>res_request_id = rid, res_worker = who, res_worker_did = did, res_output = out,
      res_status = Inference_Completed, submitted_at = now\<rparr>)) j = Some r \<and> res_request_id r = i"
  proof (cases "i = rid")
    case True
    then show ?thesis by (intro exI [of _ "next_inference_id s"]) simp
  next
    case False
    with y have "inference_requests s i = Some y" by simp
    then obtain j r where jr: "inference_results s j = Some r" "res_request_id r = i"
      using results_completeE [OF assms] y(2) by metis
    with results_ok_fresh [OF assms] have "j \<noteq> next_inference_id s" by auto
    with jr show ?thesis by (intro exI [of _ j]) simp
  qed
qed

lemma completed_by_results_unique:
  assumes "results_ok s" and "inference_requests s rid = Some q" and "req_status q = Queued"
  shows "results_unique (completed_by who did rid q out now s)"
  using queued_has_no_result [OF assms] results_uniqueD [OF assms(1)]
  unfolding results_unique_def completed_by_results by (auto split: if_splits)

lemma completed_by_inv:
  assumes inv: "ai_inv mq s"
    and r: "inference_requests s rid = Some q" "target_worker q = who" "req_status q = Queued"
    and "length out \<le> 4096"
  shows "ai_inv mq (completed_by who did rid q out now s)"
proof -
  from inv have req: "requests_ok s" and que: "queues_ok mq s" and res: "results_ok s"
    by (simp_all add: ai_inv_def)
  have "next_inference_id s < next_request_id s"
    using inference_id_less_request_id [OF req res r(1)] r(3) by simp
  then have "next_inference_id s \<noteq> - 1" by (metis word_not_simps(3))
  then have "results_ok (completed_by who did rid q out now s)"
    unfolding results_ok_def using assms
    by (intro conjI completed_by_results_dense completed_by_results_sound completed_by_results_complete
        completed_by_results_unique) (simp_all add: ai_inv_def)
  with completed_by_requests_ok [OF req r(1)] completed_by_queues_ok [OF que r(1,2)]
  show ?thesis by (simp add: ai_inv_def)
qed

subsection \<open>Every successful call keeps the invariant\<close>

lemma ai_inv_status [simp]: "ai_inv mq (s\<lparr>ai_worker_status := x\<rparr>) = ai_inv mq s"
  by (simp add: ai_inv_def requests_ok_def queues_ok_def results_ok_def results_defs pending_def queue_of_def)

lemma ai_inv_models [simp]: "ai_inv mq (s\<lparr>allowed_models := x\<rparr>) = ai_inv mq s"
  by (simp add: ai_inv_def requests_ok_def queues_ok_def results_ok_def results_defs pending_def queue_of_def)

lemma ai_dispatch_inv:
  assumes "ai_inv (unat mq) s" and "next_request_id s \<noteq> - 1" and "ai_call_wf c"
    and "ai_dispatch fw kp mq now origin c s = (Inr r, s')"
  shows "ai_inv (unat mq) s'"
  using assms by (cases c) (auto simp: ai_ok_iffs enqueued_inv completed_by_inv)

lemma ai_dispatch_used:
  assumes "next_request_id s \<noteq> - 1" and "ai_dispatch fw kp mq now origin c s = (Inr r, s')"
  shows "unat (next_request_id s') \<le> Suc (unat (next_request_id s))"
  using assms by (cases c) (auto simp: ai_ok_iffs enqueued_def completed_by_def unat_Suc_no_wrap)

text \<open>
  The pallet's calls meet the contract of the library with the request counter as budget:
  \<open>2 ^ 32 - 1\<close> requests fit before the counter wraps.
\<close>

interpretation ai_sys: counted_calls
  "\<lambda>(kp, now, origin, c). ai_dispatch fw kp mq now origin c"
  "\<lambda>(kp, now, origin, c). ai_call_wf c"
  "ai_inv (unat mq)"
  "\<lambda>s. next_request_id s \<noteq> - 1"
  "\<lambda>s. unat (next_request_id s)"
  "2 ^ 32 - 1"
  for fw :: "('o, 'a) frame" and mq :: u32
proof unfold_locales
  fix s :: "'a ai"
  assume "unat (next_request_id s) < 2 ^ 32 - 1"
  then show "next_request_id s \<noteq> - 1" by (auto simp: unat_max_word)
qed (auto intro: ai_dispatch_inv ai_dispatch_used)

section \<open>Stored results are never overwritten\<close>

lemma ai_dispatch_keeps_result:
  assumes "ai_inv n s" and "inference_results s j = Some x"
    and "ai_dispatch fw kp mq now origin c s = (Inr r, s')"
  shows "inference_results s' j = Some x"
proof -
  from assms(1,2) have "j \<noteq> next_inference_id s"
    using results_ok_fresh [of s] by (auto simp: ai_inv_def)
  with assms(2,3) show ?thesis
    by (cases c) (auto simp: ai_ok_iffs enqueued_def completed_by_results)
qed

text \<open>So the contract also holds with a stored result as part of the invariant.\<close>

interpretation ai_final: counted_calls
  "\<lambda>(kp, now, origin, c). ai_dispatch fw kp mq now origin c"
  "\<lambda>(kp, now, origin, c). ai_call_wf c"
  "\<lambda>s. ai_inv (unat mq) s \<and> inference_results s j = Some x"
  "\<lambda>s. next_request_id s \<noteq> - 1"
  "\<lambda>s. unat (next_request_id s)"
  "2 ^ 32 - 1"
  for fw :: "('o, 'a) frame" and mq :: u32 and j :: u32 and x :: "'a inference_result"
  by unfold_locales
    (auto simp: unat_max_word intro: ai_dispatch_inv ai_dispatch_used ai_dispatch_keeps_result)

end
