(* ===== verification/AI_Market.thy ===== *)
theory AI_Market
  imports QX_AI
begin

text \<open>
  The abstract specification of the AI pallet, a market of jobs, and the interface to the pallet
  that vouches for the workers. A job is absent, waiting for a worker, or answered; the step
  relation \<open>market_step\<close> says who may move it. Every successful call of the pallet is one such
  step (\<open>ai_dispatch_signed_step\<close>), so a run of calls is a run of the market. The locale
  \<open>credential_oracle\<close> is what the AI pallet assumes of an implementation of the trait
  \<open>KiltPermissions\<close>; the runtime interprets it on the KILT pallet.
\<close>

section \<open>The market\<close>

datatype 'a job = Absent | Waiting 'a 'a | Answered 'a 'a

type_synonym 'a market = "u32 \<Rightarrow> 'a job"

text \<open>One step by the account \<open>who\<close>, where \<open>auth\<close> are the workers authorised at that moment.\<close>

inductive market_step :: "('a \<Rightarrow> bool) \<Rightarrow> 'a \<Rightarrow> 'a market \<Rightarrow> 'a market \<Rightarrow> bool" for auth who where
  ms_submit: "J i = Absent \<Longrightarrow> auth w \<Longrightarrow> market_step auth who J (J(i := Waiting who w))"
| ms_answer: "J i = Waiting c who \<Longrightarrow> auth who \<Longrightarrow> market_step auth who J (J(i := Answered c who))"
| ms_idle: "market_step auth who J J"

inductive_cases market_stepE: "market_step auth who J J'"

text \<open>A job only moves forward, and keeps its customer and its worker.\<close>

fun job_le :: "'a job \<Rightarrow> 'a job \<Rightarrow> bool" where
  "job_le Absent _ \<longleftrightarrow> True"
| "job_le (Waiting c w) (Waiting c' w') \<longleftrightarrow> c = c' \<and> w = w'"
| "job_le (Waiting c w) (Answered c' w') \<longleftrightarrow> c = c' \<and> w = w'"
| "job_le (Answered c w) (Answered c' w') \<longleftrightarrow> c = c' \<and> w = w'"
| "job_le _ _ \<longleftrightarrow> False"

lemma job_le_refl [simp]: "job_le x x"
  by (cases x) simp_all

lemma job_le_trans: "job_le x y \<Longrightarrow> job_le y z \<Longrightarrow> job_le x z"
  by (cases x; cases y; cases z) simp_all

fun_cases job_le_WaitingE: "job_le (Waiting c w) y"
fun_cases job_le_AnsweredE: "job_le (Answered c w) y"

text \<open>So jobs are ordered by progress, and markets pointwise.\<close>

instantiation job :: (type) order
begin

definition less_eq_job :: "'a job \<Rightarrow> 'a job \<Rightarrow> bool" where
  "less_eq_job x y \<longleftrightarrow> job_le x y"

definition less_job :: "'a job \<Rightarrow> 'a job \<Rightarrow> bool" where
  "less_job x y \<longleftrightarrow> job_le x y \<and> \<not> job_le y x"

instance
proof
  fix x y z :: "'a job"
  show "x < y \<longleftrightarrow> x \<le> y \<and> \<not> y \<le> x" by (simp add: less_eq_job_def less_job_def)
  show "x \<le> x" by (simp add: less_eq_job_def)
  show "x \<le> y \<Longrightarrow> y \<le> z \<Longrightarrow> x \<le> z" unfolding less_eq_job_def by (rule job_le_trans)
  show "x \<le> y \<Longrightarrow> y \<le> x \<Longrightarrow> x = y" unfolding less_eq_job_def by (cases x; cases y) simp_all
qed

end

lemma market_step_forward: "market_step auth who J J' \<Longrightarrow> J \<le> J'"
  by (erule market_stepE) (auto simp: le_fun_def less_eq_job_def)

section \<open>The pallet refines the market\<close>

text \<open>The market a pallet's storage stands for.\<close>

definition market_of :: "'a ai \<Rightarrow> 'a market" where
  "market_of s i = (case inference_requests s i of
      None \<Rightarrow> Absent
    | Some r \<Rightarrow> if req_status r = Completed then Answered (customer r) (target_worker r)
                else Waiting (customer r) (target_worker r))"

lemma market_of_deposit [simp]: "market_of (ai_deposit e s) = market_of s"
  by (simp add: market_of_def fun_eq_iff)

lemma market_of_status [simp]: "market_of (s\<lparr>ai_worker_status := x\<rparr>) = market_of s"
  by (simp add: market_of_def fun_eq_iff)

lemma market_of_models [simp]: "market_of (s\<lparr>allowed_models := x\<rparr>) = market_of s"
  by (simp add: market_of_def fun_eq_iff)

lemma market_of_enqueued:
  "market_of (enqueued who worker p tokens now s) = (market_of s)(next_request_id s := Waiting who worker)"
  by (auto simp: market_of_def enqueued_def fun_eq_iff)

lemma market_of_completed_by:
  "inference_requests s rid = Some q \<Longrightarrow>
   market_of (completed_by who did rid q out now s) = (market_of s)(rid := Answered (customer q) (target_worker q))"
  by (auto simp: market_of_def completed_by_def fun_eq_iff)

lemma market_of_fresh: "requests_ok s \<Longrightarrow> market_of s (next_request_id s) = Absent"
  by (simp add: market_of_def requests_ok_fresh)

lemma market_of_queued:
  "inference_requests s rid = Some q \<Longrightarrow> req_status q = Queued \<Longrightarrow>
   market_of s rid = Waiting (customer q) (target_worker q)"
  by (simp add: market_of_def)

lemma ai_dispatch_signed_step:
  assumes "ai_inv n s" and "ensure_signed fw origin = Inr who"
    and "ai_dispatch fw kp mq now origin c s = (Inr r, s')"
  shows "market_step (\<lambda>w. \<exists>did. credentialed kp w did) who (market_of s) (market_of s')"
proof -
  from assms(1) have req: "requests_ok s" by (simp add: ai_inv_def)
  show ?thesis
  proof (cases c)
    case (SubmitRequest w p tokens)
    with assms(2,3) obtain did where "credentialed kp w did"
      and m: "market_of s' = (market_of s)(next_request_id s := Waiting who w)"
      by (auto simp: ai_ok_iffs market_of_enqueued)
    then show ?thesis unfolding m by (intro ms_submit market_of_fresh [OF req]) blast
  next
    case (SubmitInference rid out)
    with assms(2,3) obtain did q where "credentialed kp who did" and "inference_requests s rid = Some q"
      and "target_worker q = who" and "req_status q = Queued"
      and m: "market_of s' = (market_of s)(rid := Answered (customer q) who)"
      by (auto simp: ai_ok_iffs market_of_completed_by)
    then have "market_of s rid = Waiting (customer q) who" by (simp add: market_of_queued)
    with \<open>credentialed kp who did\<close> show ?thesis unfolding m by (intro ms_answer) blast+
  qed (use assms(3) in \<open>auto simp: ai_ok_iffs intro: ms_idle\<close>)
qed

lemma ai_dispatch_unsigned_idle:
  assumes "ensure_signed fw origin = Inl e" and "ai_dispatch fw kp mq now origin c s = (Inr r, s')"
  shows "market_of s' = market_of s"
  using assms by (cases c) (auto simp: ai_ok_iffs)

text \<open>A layered call, successful or not, moves each job forward or leaves it.\<close>

lemma ai_dispatch_forward:
  assumes "ai_inv n s" and "ai_dispatch fw kp mq now origin c s = (Inr r, s')"
  shows "market_of s \<le> market_of s'"
proof (cases "ensure_signed fw origin")
  case (Inl e)
  with ai_dispatch_unsigned_idle [OF Inl assms(2)] show ?thesis by simp
next
  case (Inr who)
  from ai_dispatch_signed_step [OF assms(1) Inr assms(2)] show ?thesis by (rule market_step_forward)
qed

interpretation ai_forward: counted_calls
  "\<lambda>(kp, now, origin, c). ai_dispatch fw kp mq now origin c"
  "\<lambda>(kp, now, origin, c). ai_call_wf c"
  "\<lambda>s. ai_inv (unat mq) s \<and> J \<le> market_of s"
  "\<lambda>s. next_request_id s \<noteq> - 1"
  "\<lambda>s. unat (next_request_id s)"
  "2 ^ 32 - 1"
  for fw :: "('o, 'a) frame" and mq :: u32 and J :: "'a market"
  by unfold_locales
    (auto simp: unat_max_word intro: ai_dispatch_inv ai_dispatch_used order_trans ai_dispatch_forward)

section \<open>The interface to the credentials\<close>

text \<open>
  \<open>vouch k now\<close> is the trait as the pallet sees it at storage \<open>k\<close> and block \<open>now\<close>.
  The law: the accounts whose DID the trait reports as verified are the authorised ones.
\<close>

locale credential_oracle =
  fixes vouch :: "'k \<Rightarrow> u32 \<Rightarrow> 'a kilt_permissions"
    and invar :: "'k \<Rightarrow> bool"
    and authorised :: "u32 \<Rightarrow> 'k \<Rightarrow> 'a \<Rightarrow> bool"
  assumes vouch_authorised: "invar k \<Longrightarrow> authorised now k a \<longleftrightarrow> (\<exists>did. credentialed (vouch k now) a did)"
begin

lemma signed_step:
  assumes "invar k" and "ai_inv n s" and "ensure_signed fw origin = Inr who"
    and "ai_dispatch fw (vouch k now) mq now origin c s = (Inr r, s')"
  shows "market_step (\<lambda>w. authorised now k w) who (market_of s) (market_of s')"
  using ai_dispatch_signed_step [OF assms(2-4)] assms(1) by (simp add: vouch_authorised)

lemma status_update_iff:
  assumes "invar k" and "ensure_signed fw origin = Inr who"
  shows "(\<exists>s'. update_ai_worker_status fw (vouch k now) origin online s = (Inr Pays_No, s')) \<longleftrightarrow> authorised now k who"
  using assms by (auto simp: update_ai_worker_status_ok_iff vouch_authorised)

lemma submit_request_iff:
  assumes "invar k" and "ensure_signed fw origin = Inr who"
  shows "(\<exists>s'. submit_request fw (vouch k now) mq now origin worker p tokens s = (Inr (), s')) \<longleftrightarrow>
     authorised now k worker \<and> length (queue_of s worker) < unat mq"
  using assms by (auto simp: submit_request_ok_iff vouch_authorised)

lemma submit_inference_iff:
  assumes "invar k" and "ensure_signed fw origin = Inr who"
  shows "(\<exists>s'. submit_inference fw (vouch k now) now origin rid out s = (Inr Pays_No, s')) \<longleftrightarrow>
     authorised now k who \<and>
     (\<exists>req. inference_requests s rid = Some req \<and> target_worker req = who \<and> req_status req = Queued)"
  using assms by (auto simp: submit_inference_ok_iff vouch_authorised)

end

end
