(* ===== verification/AI_Properties.thy ===== *)
theory AI_Properties
  imports AI_Market
begin

text \<open>
  The properties of the AI pallet. The witnesses run the pallet with natural numbers as accounts,
  where accounts 7 and 8 are credentialed workers, all others are customers.
\<close>

section \<open>The instance the witnesses use\<close>

definition toy_kp :: "nat kilt_permissions" where
  "toy_kp = \<lparr>kp_verify_worker_credential = (\<lambda>d. Inr (d = replicate 32 7 \<or> d = replicate 32 8)),
     kp_get_worker_did = (\<lambda>a. if a = 7 \<or> a = 8 then Inr (replicate 32 (of_nat a))
                                else Inl (Kilt_Error AccountHasNoDID))\<rparr>"

lemma toy_credentialed [simp]:
  "credentialed toy_kp 7 d \<longleftrightarrow> d = replicate 32 7"
  "credentialed toy_kp 8 d \<longleftrightarrow> d = replicate 32 8"
  "\<not> credentialed toy_kp 2 d"
  by (auto simp: credentialed_def toy_kp_def)

text \<open>The storage after customer 2 has sent one request to worker 7, at block 5.\<close>

definition toy_ai :: "nat ai" where
  "toy_ai = snd (submit_request raw_frame toy_kp 100 5 (Signed 2) 7 [80] 9 ai_genesis)"

lemma toy_submit:
  "submit_request raw_frame toy_kp 100 5 (Signed 2) 7 [80] 9 ai_genesis = (Inr (), toy_ai)"
  by (simp add: prod_eq_iff toy_ai_def)
    (simp add: submit_request_def toy_kp_def ai_genesis_def bounded_try_push_def Let_def)

lemma toy_ai_inv: "ai_inv (unat (100 :: u32)) toy_ai"
proof -
  have "ai_dispatch raw_frame toy_kp 100 5 (Signed 2) (SubmitRequest 7 [80] 9) ai_genesis = (Inr Pays_Yes, toy_ai)"
    by (simp add: toy_submit)
  from ai_dispatch_inv [OF ai_inv_genesis _ _ this] show ?thesis
    by (simp add: ai_genesis_def)
qed

lemma toy_ai_simps [simp]:
  "inference_requests toy_ai 0 = Some \<lparr>customer = 2, target_worker = 7, prompt = [80], max_tokens = 9,
     req_status = Queued, created_at = 5\<rparr>"
  "next_request_id toy_ai = 1"
  "next_inference_id toy_ai = 0"
  "ai_worker_queues toy_ai = [7 \<mapsto> [0]]"
  by (simp_all add: toy_ai_def submit_request_def toy_kp_def ai_genesis_def bounded_try_push_def Let_def ai_deposit_def)

section \<open>Consistency of the storage\<close>

text \<open>The results number the completed requests.\<close>

lemma results_correspond:
  assumes "results_ok s"
  shows "bij_betw (\<lambda>j. res_request_id (the (inference_results s j)))
      (dom (inference_results s)) {i. \<exists>r. inference_requests s i = Some r \<and> req_status r = Completed}"
  unfolding bij_betw_def
proof
  show "inj_on (\<lambda>j. res_request_id (the (inference_results s j))) (dom (inference_results s))"
    by (rule inj_onI) (auto dest: results_uniqueD [OF assms])
  show "(\<lambda>j. res_request_id (the (inference_results s j))) ` dom (inference_results s) =
      {i. \<exists>r. inference_requests s i = Some r \<and> req_status r = Completed}"
  proof (intro equalityI subsetI)
    fix x assume "x \<in> (\<lambda>j. res_request_id (the (inference_results s j))) ` dom (inference_results s)"
    then obtain j r where "inference_results s j = Some r" and "x = res_request_id r" by auto
    then show "x \<in> {i. \<exists>r. inference_requests s i = Some r \<and> req_status r = Completed}"
      using results_soundD [OF assms] by blast
  next
    fix i assume "i \<in> {i. \<exists>r. inference_requests s i = Some r \<and> req_status r = Completed}"
    then obtain j r where "inference_results s j = Some r" and "res_request_id r = i"
      using results_completeE [OF assms] by blast
    then have "i = res_request_id (the (inference_results s j))" and "j \<in> dom (inference_results s)" by auto
    then show "i \<in> (\<lambda>j. res_request_id (the (inference_results s j))) ` dom (inference_results s)" by blast
  qed
qed

text \<open>
  C6: Starting from an empty pallet, after any sequence of up to \<open>2 ^ 32 - 1\<close> calls (by any origins,
  at any blocks, whatever the credentials are at each of them, successful or not), every worker's
  queue lists exactly the worker's queued requests, in the order of submission, within the bound;
  the request map agrees with the requests; no request is ever \<open>Assigned\<close> or \<open>Failed\<close>; and
  the completed requests and the results are in one-to-one correspondence, each result being the
  assigned worker's.
\<close>

theorem ai_storage_consistent:
  fixes fw :: "('o, 'a) frame"
  assumes "storage_layer layer"
    and "\<forall>(kp, now, origin, c)\<in>set calls. ai_call_wf c"
    and "length calls \<le> 2 ^ 32 - 1"
    and "s = run_calls layer (\<lambda>(kp, now, origin, c). ai_dispatch fw kp mq now origin c) calls ai_genesis"
  shows "(\<forall>w. queue_of s w = sorted_list_of_set {i. \<exists>r. inference_requests s i = Some r \<and>
             target_worker r = w \<and> req_status r = Queued} \<and> length (queue_of s w) \<le> unat mq) \<and>
    (\<forall>i. request_worker_map s i = map_option target_worker (inference_requests s i)) \<and>
    (\<forall>i r. inference_requests s i = Some r \<longrightarrow> req_status r = Queued \<or> req_status r = Completed) \<and>
    bij_betw (\<lambda>j. res_request_id (the (inference_results s j)))
      (dom (inference_results s)) {i. \<exists>r. inference_requests s i = Some r \<and> req_status r = Completed} \<and>
    (\<forall>j x. inference_results s j = Some x \<longrightarrow> request_worker_map s (res_request_id x) = Some (res_worker x))"
proof -
  have "ai_inv (unat mq) s"
    using ai_sys.run_keeps_counted [where fw = fw and mq = mq, OF assms(1) ai_inv_genesis assms(2)] assms(3,4)
    by (simp add: ai_genesis_def)
  then have req: "requests_ok s" and que: "queues_ok (unat mq) s" and res: "results_ok s"
    by (simp_all add: ai_inv_def)
  have "queue_of s w = sorted_list_of_set (pending s w) \<and> length (queue_of s w) \<le> unat mq" for w
    using que unfolding queues_ok_def
    by (metis sorted_list_of_set.idem_if_sorted_distinct strict_sorted_iff)
  moreover note results_correspond [OF res]
  moreover have "request_worker_map s (res_request_id x) = Some (res_worker x)"
    if "inference_results s j = Some x" for j x
    using results_soundD [OF res that] req unfolding requests_ok_def by (metis option.simps(9))
  moreover have "request_worker_map s i = map_option target_worker (inference_requests s i)" for i
    using req by (simp add: requests_ok_def)
  moreover have "req_status r = Queued \<or> req_status r = Completed" if "inference_requests s i = Some r" for i r
    using req that by (auto simp: requests_ok_def)
  ultimately show ?thesis unfolding pending_def by (intro conjI allI impI) blast+
qed

text \<open>Worker 7 answers its only request in the second call; the third call is refused.\<close>

definition toy_calls :: "(nat kilt_permissions \<times> u32 \<times> nat raw_origin \<times> nat ai_call) list" where
  "toy_calls = [(toy_kp, 5, Signed 2, SubmitRequest 7 [80] 9), (toy_kp, 6, Signed 7, SubmitInference 0 [81]),
     (toy_kp, 7, Signed 8, SubmitInference 0 [82])]"

theorem ai_storage_consistent_witness:
  "\<exists>s. s = run_calls commit_or_discard (\<lambda>(kp, now, origin, c). ai_dispatch raw_frame kp 100 now origin c) toy_calls ai_genesis \<and>
     length toy_calls = 3 \<and> (\<forall>i. request_worker_map s i = map_option target_worker (inference_requests s i))"
proof -
  have "\<forall>(kp, now, origin, c)\<in>set toy_calls. ai_call_wf c" and "length toy_calls = 3"
    by (simp_all add: toy_calls_def)
  moreover from this have "length toy_calls \<le> 2 ^ 32 - 1" by simp
  ultimately show ?thesis
    using ai_storage_consistent [OF storage_layer_commit_or_discard _ _ refl, of toy_calls raw_frame 100] by blast
qed

section \<open>A full queue\<close>

text \<open>
  C22: When the worker's queue is full, the body has already taken a request number and stored the
  request and its worker without queueing it, so that the pallet's invariant no longer holds; it is
  the storage layer around the call that undoes this.
\<close>

theorem full_queue_relies_on_layer:
  assumes "storage_layer layer" and "ai_inv (unat mq) s"
    and "ensure_signed fw origin = Inr who" and "credentialed kp worker did"
    and "length (queue_of s worker) = unat mq"
    and "submit_request fw kp mq now origin worker p tokens s = (r, s')"
  shows "r = Inl (AI_Error AIWorkerQueueFull) \<and>
    next_request_id s' = next_request_id s + 1 \<and> request_worker_map s' (next_request_id s) = Some worker \<and>
    next_request_id s \<in> pending s' worker \<and> next_request_id s \<notin> set (queue_of s' worker) \<and>
    \<not> ai_inv (unat mq) s' \<and>
    layer (submit_request fw kp mq now origin worker p tokens) s = (r, s)"
proof -
  from assms(3-6) have r: "r = Inl (AI_Error AIWorkerQueueFull)"
    and n: "next_request_id s' = next_request_id s + 1"
    and m: "request_worker_map s' (next_request_id s) = Some worker"
    and p: "next_request_id s \<in> pending s' worker"
    and q: "queue_of s' worker = queue_of s worker"
    by (auto simp: submit_request_def credentialed_def queue_of_def bounded_try_push_def pending_def Let_def
        split: if_splits option.splits)
  have "next_request_id s \<notin> pending s worker"
    using pending_below assms(2) by (fastforce simp: ai_inv_def)
  with q assms(2) have nq: "next_request_id s \<notin> set (queue_of s' worker)"
    by (simp add: ai_inv_def queues_ok_def)
  with p have "\<not> ai_inv (unat mq) s'" by (auto simp: ai_inv_def queues_ok_def)
  moreover have "layer (submit_request fw kp mq now origin worker p tokens) s = (r, s)"
    using layer_Inl [OF assms(1)] assms(6) r by (metis fst_conv)
  ultimately show ?thesis using r n m p nq by blast
qed

theorem full_queue_relies_on_layer_witness:
  "commit_or_discard (submit_request raw_frame toy_kp 1 6 (Signed 2) 7 [80] 9) toy_ai =
     (Inl (AI_Error AIWorkerQueueFull), toy_ai)"
proof -
  have "submit_request raw_frame toy_kp 1 5 (Signed 2) 7 [80] 9 ai_genesis = (Inr (), toy_ai)"
    by (simp add: prod_eq_iff toy_ai_def)
      (simp add: submit_request_def toy_kp_def ai_genesis_def bounded_try_push_def Let_def)
  then have "ai_dispatch raw_frame toy_kp 1 5 (Signed 2) (SubmitRequest 7 [80] 9) ai_genesis = (Inr Pays_Yes, toy_ai)"
    by simp
  from ai_dispatch_inv [OF ai_inv_genesis _ _ this] have inv: "ai_inv (unat (1 :: u32)) toy_ai"
    by (simp add: ai_genesis_def)
  obtain r s' where rs: "submit_request raw_frame toy_kp 1 6 (Signed 2) 7 [80] 9 toy_ai = (r, s')"
    by (rule prod.exhaust)
  have "credentialed toy_kp 7 (replicate 32 7)" and "length (queue_of toy_ai 7) = unat (1 :: u32)"
    by (simp_all add: queue_of_def)
  from full_queue_relies_on_layer [OF storage_layer_commit_or_discard inv raw_frame_simps(1) this rs]
  show ?thesis by simp
qed

section \<open>The life of a request\<close>

text \<open>
  C11: A request that was accepted for a worker can be answered by this worker, whatever other calls
  come first, as long as they leave it queued: the answer is stored under the next inference number
  with the worker's DID and the block number, the request becomes completed and keeps its other
  fields, the request leaves the queue, and the inference counter moves on by one. Nothing else changes: not the other
  results, requests and queues, the request map, the other counters, the registry or the workers'
  status; and the two events of an answer are deposited, in this order.
\<close>

theorem answer_round_trip:
  assumes "ai_inv (unat mq) s" and "ensure_signed fw origin = Inr who" and "credentialed kp who did"
    and "rid \<in> set (queue_of s who)"
  shows "\<exists>s' q. submit_inference fw kp now origin rid out s = (Inr Pays_No, s') \<and>
    inference_requests s rid = Some q \<and>
    get_inference_result s (next_inference_id s) = None \<and>
    get_inference_result s' (next_inference_id s) = Some \<lparr>res_request_id = rid, res_worker = who,
      res_worker_did = did, res_output = out, res_status = Inference_Completed, submitted_at = now\<rparr> \<and>
    inference_requests s' = (inference_requests s)(rid \<mapsto> q\<lparr>req_status := Completed\<rparr>) \<and>
    queue_of s' who = remove1 rid (queue_of s who) \<and>
    (\<forall>w. w \<noteq> who \<longrightarrow> queue_of s' w = queue_of s w) \<and>
    next_inference_id s' = next_inference_id s + 1 \<and>
    (\<forall>j. j \<noteq> next_inference_id s \<longrightarrow> get_inference_result s' j = get_inference_result s j) \<and>
    next_request_id s' = next_request_id s \<and> next_model_id s' = next_model_id s \<and>
    request_worker_map s' = request_worker_map s \<and> ai_worker_status s' = ai_worker_status s \<and>
    allowed_models s' = allowed_models s \<and> authorized_workers s' = authorized_workers s \<and>
    ai_events s' = ai_events s @ [InferenceSubmitted (next_inference_id s) rid who did, RequestCompleted rid (next_inference_id s)]"
proof -
  from assms(1,4) have "rid \<in> pending s who" and dist: "distinct (queue_of s who)"
    by (simp_all add: ai_inv_def queues_ok_def strict_sorted_iff)
  then obtain q where q: "inference_requests s rid = Some q" "target_worker q = who" "req_status q = Queued"
    by (auto simp: pending_def)
  let ?s = "ai_deposit (RequestCompleted rid (next_inference_id s))
               (ai_deposit (InferenceSubmitted (next_inference_id s) rid who did)
                 (completed_by who did rid q out now s))"
  have ok: "submit_inference fw kp now origin rid out s = (Inr Pays_No, ?s)"
    unfolding submit_inference_ok_iff using assms(2,3) q by blast
  have "filter (\<lambda>i. i \<noteq> rid) (queue_of s who) = remove1 rid (queue_of s who)"
    unfolding distinct_remove1_removeAll [OF dist] removeAll_filter_not_eq by (rule filter_cong) auto
  with ok q assms(1) show ?thesis
    by (intro exI [of _ ?s] exI [of _ q])
      (simp add: get_inference_result_def completed_by_results completed_by_queue_of results_ok_fresh ai_inv_def, simp add: completed_by_def ai_deposit_def)
qed

theorem answer_round_trip_witness:
  "\<exists>s'. submit_inference raw_frame toy_kp 6 (Signed 7) 0 [81] toy_ai = (Inr Pays_No, s') \<and>
     map_option res_output (get_inference_result s' 0) = Some [81] \<and> queue_of s' 7 = []"
proof -
  have "credentialed toy_kp 7 (replicate 32 7)" and "0 \<in> set (queue_of toy_ai 7)"
    by (simp_all add: queue_of_def)
  from answer_round_trip [OF toy_ai_inv raw_frame_simps(1) this, of 6 "[81]"]
  obtain s' q where a: "submit_inference raw_frame toy_kp 6 (Signed 7) 0 [81] toy_ai = (Inr Pays_No, s')"
    and b: "get_inference_result s' (next_inference_id toy_ai) = Some \<lparr>res_request_id = 0, res_worker = 7,
      res_worker_did = replicate 32 7, res_output = [81], res_status = Inference_Completed, submitted_at = 6\<rparr>"
    and c: "queue_of s' 7 = remove1 0 (queue_of toy_ai 7)"
    by (elim exE conjE) (rule that)
  from b have "map_option res_output (get_inference_result s' 0) = Some [81]" by simp
  moreover from c have "queue_of s' 7 = []" by (simp add: queue_of_def)
  ultimately show ?thesis using a by blast
qed

text \<open>
  C12: An answer is final: once a result is stored, then after any number of further calls within the
  counter's range, by whomever, the same result is still stored under its number, its request is
  still completed, and every attempt to answer that request again fails and changes nothing.
\<close>

theorem answer_is_final:
  fixes fw :: "('o, 'a) frame"
  assumes "storage_layer layer" and "ai_inv (unat mq) s" and "inference_results s j = Some x"
    and "\<forall>(kp, now, origin, c)\<in>set calls. ai_call_wf c"
    and "unat (next_request_id s) + length calls \<le> 2 ^ 32 - 1"
    and "s' = run_calls layer (\<lambda>(kp, now, origin, c). ai_dispatch fw kp mq now origin c) calls s"
  shows "inference_results s' j = Some x \<and>
    map_option req_status (inference_requests s' (res_request_id x)) = Some Completed \<and>
    (\<exists>e. submit_inference fw kp now origin (res_request_id x) out s' = (Inl e, s'))"
proof -
  from ai_final.run_keeps_counted [where fw = fw and mq = mq, OF assms(1) _ assms(4)] assms(2,3,5,6)
  have inv: "ai_inv (unat mq) s'" and j: "inference_results s' j = Some x" by blast+
  then obtain q where q: "inference_requests s' (res_request_id x) = Some q" "req_status q = Completed"
    using results_soundD by (metis ai_inv_def)
  then have "\<exists>e. submit_inference fw kp now origin (res_request_id x) out s' = (Inl e, s')"
    by (auto simp: submit_inference_def split: sum.splits)
  with j q show ?thesis by simp
qed

text \<open>The storage after worker 7 has answered request 0.\<close>

definition toy_answered :: "nat ai" where
  "toy_answered = snd (submit_inference raw_frame toy_kp 6 (Signed 7) 0 [81] toy_ai)"

lemma toy_answer: "submit_inference raw_frame toy_kp 6 (Signed 7) 0 [81] toy_ai = (Inr Pays_No, toy_answered)"
  by (simp add: prod_eq_iff toy_answered_def) (simp add: submit_inference_def toy_kp_def Let_def)

lemma toy_answered_inv: "ai_inv (unat (100 :: u32)) toy_answered"
proof -
  have "ai_dispatch raw_frame toy_kp 100 6 (Signed 7) (SubmitInference 0 [81]) toy_ai = (Inr Pays_No, toy_answered)"
    by (simp add: toy_answer)
  from ai_dispatch_inv [OF toy_ai_inv _ _ this] show ?thesis by simp
qed

lemma toy_answered_result:
  "inference_results toy_answered 0 = Some \<lparr>res_request_id = 0, res_worker = 7, res_worker_did = replicate 32 7,
     res_output = [81], res_status = Inference_Completed, submitted_at = 6\<rparr>"
  "next_request_id toy_answered = 1"
  by (simp_all add: toy_answered_def submit_inference_def toy_kp_def Let_def)

theorem answer_is_final_witness:
  "\<exists>e s'. s' = run_calls commit_or_discard (\<lambda>(kp, now, origin, c). ai_dispatch raw_frame kp 100 now origin c)
       [(toy_kp, 9, Signed 2, SubmitRequest 8 [] 1)] toy_answered \<and>
     submit_inference raw_frame toy_kp 10 (Signed 7) 0 [99] s' = (Inl e, s')"
proof -
  have "\<forall>(kp, now, origin, c)\<in>set [(toy_kp, 9 :: u32, Signed (2 :: nat), SubmitRequest 8 [] 1)]. ai_call_wf c"
    by simp
  from answer_is_final [where fw = raw_frame and kp = toy_kp and now = 10 and origin = "Signed 7" and out = "[99]",
      OF storage_layer_commit_or_discard toy_answered_inv toy_answered_result(1) this _ refl]
  show ?thesis by (simp add: toy_answered_result(2))
qed

text \<open>
  The pallet refines the market of jobs. Whatever a call returns, after its storage layer is
  closed the market has made a step that its rules allow: a signed account can only create a waiting
  job for an authorised worker, answer a job waiting for itself while it is authorised, or leave the
  market alone, and a call without a signature leaves it alone.
\<close>

theorem ai_refines_market:
  assumes "storage_layer layer" and "ai_inv n s"
  shows "case ensure_signed fw origin of
      Inr who \<Rightarrow> market_step (\<lambda>w. \<exists>did. credentialed kp w did) who (market_of s)
                    (market_of (snd (layer (ai_dispatch fw kp mq now origin c) s)))
    | Inl _ \<Rightarrow> market_of (snd (layer (ai_dispatch fw kp mq now origin c) s)) = market_of s"
proof (cases "fst (ai_dispatch fw kp mq now origin c s)")
  case (Inl e)
  then show ?thesis using assms(1) by (auto simp: layering intro: ms_idle split: sum.splits)
next
  case (Inr r)
  let ?t = "snd (ai_dispatch fw kp mq now origin c s)"
  from Inr have ok: "ai_dispatch fw kp mq now origin c s = (Inr r, ?t)" by (simp add: prod_eq_iff)
  from Inr assms(1) have "snd (layer (ai_dispatch fw kp mq now origin c) s) = ?t" by (simp add: layering)
  then show ?thesis
    using ai_dispatch_signed_step [OF assms(2) _ ok] ai_dispatch_unsigned_idle [OF _ ok]
    by (simp split: sum.splits)
qed

theorem ai_refines_market_witness:
  "market_step (\<lambda>w. \<exists>did. credentialed toy_kp w did) 7 (market_of toy_ai) (market_of toy_answered) \<and>
   market_of toy_ai 0 = Waiting 2 7 \<and> market_of toy_answered 0 = Answered 2 7"
proof -
  have a: "commit_or_discard (ai_dispatch raw_frame toy_kp 100 6 (Signed 7) (SubmitInference 0 [81])) toy_ai =
      (Inr Pays_No, toy_answered)"
    by (simp add: commit_or_discard_def toy_answer)
  have "market_of toy_answered 0 = Answered 2 7"
    by (simp add: market_of_def toy_answered_def submit_inference_def toy_kp_def Let_def)
  with ai_refines_market [where fw = raw_frame and origin = "Signed 7" and kp = toy_kp and mq = 100 and now = 6
      and c = "SubmitInference 0 [81]", OF storage_layer_commit_or_discard toy_ai_inv] a
  show ?thesis by (simp add: market_of_def)
qed

text \<open>
  C24: Jobs only move forward: over any run within the counter's range, a waiting job stays waiting or
  is answered, an answered job stays answered, and neither ever changes its customer or its worker.
\<close>

theorem jobs_move_forward:
  fixes fw :: "('o, 'a) frame"
  assumes "storage_layer layer" and "ai_inv (unat mq) s"
    and "\<forall>(kp, now, origin, c)\<in>set calls. ai_call_wf c"
    and "unat (next_request_id s) + length calls \<le> 2 ^ 32 - 1"
    and "s' = run_calls layer (\<lambda>(kp, now, origin, c). ai_dispatch fw kp mq now origin c) calls s"
  shows "market_of s \<le> market_of s' \<and>
    (market_of s i = Waiting c w \<longrightarrow> market_of s' i \<in> {Waiting c w, Answered c w}) \<and>
    (market_of s i = Answered c w \<longrightarrow> market_of s' i = Answered c w)"
proof -
  have le: "market_of s \<le> market_of s'"
    using ai_forward.run_keeps_counted [where fw = fw and mq = mq and J = "market_of s", OF assms(1) _ assms(3)]
      assms(2,4,5) by simp
  then have "job_le (market_of s i) (market_of s' i)" by (simp add: le_fun_def less_eq_job_def)
  with le show ?thesis by (auto elim: job_le_WaitingE job_le_AnsweredE)
qed

theorem jobs_move_forward_witness:
  "market_of (run_calls commit_or_discard (\<lambda>(kp, now, origin, c). ai_dispatch raw_frame kp 100 now origin c)
     [(toy_kp, 9, Signed 2, SubmitRequest 8 [] 1), (toy_kp, 9, Signed 8, SubmitInference 0 [])] toy_ai) 0
   \<in> {Waiting 2 7, Answered 2 7}"
proof -
  have "\<forall>(kp, now, origin, c)\<in>set [(toy_kp, 9 :: u32, Signed (2 :: nat), SubmitRequest 8 [] 1),
      (toy_kp, 9, Signed 8, SubmitInference 0 [])]. ai_call_wf c"
    by simp
  from jobs_move_forward [where fw = raw_frame and i = 0 and c = 2 and w = 7,
      OF storage_layer_commit_or_discard toy_ai_inv this _ refl]
  show ?thesis by (simp add: market_of_def)
qed

section \<open>The limits of the pallet\<close>

text \<open>
  C35: At the end of the counter's range the unchecked increment wraps to 0, and the request after
  that is stored over request 0: if that one was still queued, its worker's queue keeps a number that
  is now another worker's request, the worker's answer to it is refused, and the invariant is lost.
\<close>

theorem request_counter_wraps:
  assumes "ai_inv (unat mq) s" and "next_request_id s = - 1"
    and "inference_requests s 0 = Some q" and "req_status q = Queued" and "target_worker q \<noteq> worker'"
    and "submit_request fw kp mq now origin worker p tokens s = (Inr (), s1)"
    and "submit_request fw kp mq now origin' worker' p' tokens' s1 = (Inr (), s2)"
  shows "next_request_id s1 = 0 \<and> map_option target_worker (inference_requests s2 0) = Some worker' \<and>
    0 \<in> set (queue_of s2 (target_worker q)) \<and> \<not> ai_inv (unat mq) s2 \<and>
    (ensure_signed fw o' = Inr (target_worker q) \<longrightarrow>
       (\<exists>e. submit_inference fw kp now o' 0 out s2 = (Inl e, s2)))"
proof -
  from assms(6,2) have n1: "next_request_id s1 = 0"
    and q1: "queue_of s1 w = (if w = worker then queue_of s worker @ [- 1] else queue_of s w)" for w
    by (auto simp: submit_request_ok_iff enqueued_queue_of) (simp add: enqueued_def)
  from assms(7) n1 have r2: "map_option target_worker (inference_requests s2 0) = Some worker'"
    and q2: "queue_of s2 w = (if w = worker' then queue_of s1 worker' @ [0] else queue_of s1 w)" for w
    by (auto simp: submit_request_ok_iff enqueued_queue_of) (simp add: enqueued_def)
  have "0 \<in> set (queue_of s (target_worker q))"
    using assms(1,3,4) by (auto simp: ai_inv_def queues_ok_def pending_def)
  with q1 q2 assms(5) have old: "0 \<in> set (queue_of s2 (target_worker q))" by auto
  moreover have "0 \<notin> pending s2 (target_worker q)" using r2 assms(5) by (auto simp: pending_def)
  ultimately have "\<not> ai_inv (unat mq) s2" by (auto simp: ai_inv_def queues_ok_def)
  moreover have "\<exists>e. submit_inference fw kp now o' 0 out s2 = (Inl e, s2)"
    if "ensure_signed fw o' = Inr (target_worker q)"
    using that r2 assms(5) by (auto simp: submit_inference_def split: sum.splits)
  ultimately show ?thesis using n1 r2 old by blast
qed

text \<open>
  The storage after \<open>2 ^ 32 - 1\<close> requests, one for each of as many workers, and credentials for
  every account.
\<close>

definition worn_ai :: "nat ai" where
  "worn_ai = ai_genesis\<lparr>next_request_id := - 1,
     inference_requests := (\<lambda>i. if i < - 1 then Some \<lparr>customer = 0, target_worker = unat i, prompt = [],
       max_tokens = 0, req_status = Queued, created_at = 0\<rparr> else None),
     request_worker_map := (\<lambda>i. if i < - 1 then Some (unat i) else None),
     ai_worker_queues := (\<lambda>w. if w < 2 ^ 32 - 1 then Some [of_nat w] else None)\<rparr>"

definition open_kp :: "nat kilt_permissions" where
  "open_kp = \<lparr>kp_verify_worker_credential = (\<lambda>_. Inr True), kp_get_worker_did = (\<lambda>_. Inr [])\<rparr>"

lemma worn_ai_queue: "queue_of worn_ai w = (if w < 2 ^ 32 - 1 then [of_nat w] else [])"
  by (simp add: worn_ai_def queue_of_def)

lemma worn_ai_pending: "pending worn_ai w = (if w < 2 ^ 32 - 1 then {of_nat w} else {})"
proof -
  have "pending worn_ai w = {i. i < - 1 \<and> unat i = w}"
    unfolding pending_def worn_ai_def by (rule Collect_cong) simp
  also have "\<dots> = (if w < 2 ^ 32 - 1 then {of_nat w} else {})"
  proof (cases "w < 2 ^ 32 - 1")
    case True
    then have "unat (of_nat w :: u32) = w" by (simp add: unat_of_nat_small)
    with True have "{i :: u32. i < - 1 \<and> unat i = w} = {of_nat w}"
      by (intro set_eqI iffI) (auto simp: word_less_nat_alt unat_max_word)
    with True show ?thesis by simp
  next
    case False
    then have "{i :: u32. i < - 1 \<and> unat i = w} = {}"
      by (auto simp: word_less_nat_alt unat_max_word)
    with False show ?thesis by simp
  qed
  finally show ?thesis .
qed

lemma worn_ai_inv: "ai_inv (unat (100 :: u32)) worn_ai"
proof -
  have "requests_ok worn_ai" by (auto simp: requests_ok_def worn_ai_def fun_eq_iff)
  moreover have "queues_ok (unat (100 :: u32)) worn_ai"
    by (simp add: queues_ok_def worn_ai_queue worn_ai_pending)
  moreover have "results_ok worn_ai"
    by (simp add: results_ok_def results_defs worn_ai_def ai_genesis_def)
  ultimately show ?thesis by (simp add: ai_inv_def)
qed

theorem request_counter_wraps_witness:
  "\<exists>s1 s2. submit_request raw_frame open_kp 100 9 (Signed 2) 7 [] 1 worn_ai = (Inr (), s1) \<and>
     submit_request raw_frame open_kp 100 9 (Signed 2) 8 [] 1 s1 = (Inr (), s2) \<and>
     next_request_id s1 = 0 \<and> map_option target_worker (inference_requests s2 0) = Some 8 \<and>
     \<not> ai_inv (unat (100 :: u32)) s2"
proof -
  have cred: "credentialed open_kp w []" for w by (simp add: credentialed_def open_kp_def)
  have ok: "\<exists>s'. submit_request raw_frame open_kp 100 9 (Signed 2) w [] 1 s = (Inr (), s')"
    if "length (queue_of s w) < 100" for w s
    using cred that by (auto simp: submit_request_ok_iff)
  obtain s1 where s1: "submit_request raw_frame open_kp 100 9 (Signed 2) 7 [] 1 worn_ai = (Inr (), s1)"
    using ok [of worn_ai 7] by (auto simp: worn_ai_queue)
  then have "length (queue_of s1 8) < 100"
    by (auto simp: submit_request_ok_iff enqueued_queue_of worn_ai_queue)
  then obtain s2 where s2: "submit_request raw_frame open_kp 100 9 (Signed 2) 8 [] 1 s1 = (Inr (), s2)"
    using ok by blast
  have "next_request_id worn_ai = - 1" and "inference_requests worn_ai 0 = Some \<lparr>customer = 0,
      target_worker = 0, prompt = [], max_tokens = 0, req_status = Queued, created_at = 0\<rparr>"
    by (simp_all add: worn_ai_def word_less_nat_alt unat_max_word)
  from request_counter_wraps [OF worn_ai_inv this _ _ s1 s2] s1 s2 show ?thesis by simp
qed

text \<open>
  C37: Neither the registry of models nor the workers' online status has any influence on requests and
  answers: changing them arbitrarily changes neither the outcome nor any other part of the storage.
\<close>

theorem registry_and_status_unused:
  "submit_request fw kp mq now origin worker p tokens (s\<lparr>allowed_models := m, ai_worker_status := st\<rparr>) =
     (case submit_request fw kp mq now origin worker p tokens s of
        (r, s') \<Rightarrow> (r, s'\<lparr>allowed_models := m, ai_worker_status := st\<rparr>)) \<and>
   submit_inference fw kp now origin rid out (s\<lparr>allowed_models := m, ai_worker_status := st\<rparr>) =
     (case submit_inference fw kp now origin rid out s of
        (r, s') \<Rightarrow> (r, s'\<lparr>allowed_models := m, ai_worker_status := st\<rparr>))"
proof
  show "submit_request fw kp mq now origin worker p tokens (s\<lparr>allowed_models := m, ai_worker_status := st\<rparr>) =
     (case submit_request fw kp mq now origin worker p tokens s of
        (r, s') \<Rightarrow> (r, s'\<lparr>allowed_models := m, ai_worker_status := st\<rparr>))"
    by (simp add: submit_request_def ai_deposit_def Let_def split: sum.split option.split)
  show "submit_inference fw kp now origin rid out (s\<lparr>allowed_models := m, ai_worker_status := st\<rparr>) =
     (case submit_inference fw kp now origin rid out s of
        (r, s') \<Rightarrow> (r, s'\<lparr>allowed_models := m, ai_worker_status := st\<rparr>))"
    by (simp add: submit_inference_def ai_deposit_def Let_def split: sum.split option.split)
qed

text \<open>
  C38: The calls that are free for workers are free for everybody: an account without a verified
  credential gets an error from both and changes nothing, but the fee is waived all the same, because
  the dispatch information is fixed before the credential is looked at.
\<close>

theorem worker_calls_free_for_all:
  assumes "ensure_signed fw origin = Inr who" and "\<And>did. \<not> credentialed kp who did"
    and "c = UpdateAIWorkerStatus online \<or> c = SubmitInference rid out"
  shows "\<exists>e. ai_dispatch fw kp mq now origin c s = (Inl e, s) \<and> di_pays_fee (ai_dispatch_info c) = Pays_No"
proof -
  have "\<exists>e. update_ai_worker_status fw kp origin online s = (Inl e, s)"
    using assms(1,2) by (auto simp: update_ai_worker_status_def credentialed_def split: sum.splits)
  moreover have "\<exists>e. submit_inference fw kp now origin rid out s = (Inl e, s)"
    using assms(1,2) by (auto simp: submit_inference_def credentialed_def split: sum.splits)
  ultimately show ?thesis using assms(3) by auto
qed

theorem worker_calls_free_for_all_witness:
  "\<exists>e. ai_dispatch raw_frame toy_kp 100 9 (Signed 2) (SubmitInference 0 [99]) toy_ai = (Inl e, toy_ai) \<and>
     di_pays_fee (ai_dispatch_info (SubmitInference 0 [99] :: nat ai_call)) = Pays_No"
  by (rule worker_calls_free_for_all [where fw = raw_frame and who = 2 and rid = 0 and out = "[99]"]) simp_all

end
