(* ===== verification/QX_Faucet.thy ===== *)
theory QX_Faucet
  imports Frame_Interface
begin

text \<open>
  The pallet \<open>pallet-qx-faucet\<close>: free tokens for new accounts, claimed by unsigned
  transactions. The pallet's own storage is the record \<open>faucet\<close>; the ledger of the currency,
  which the pallet changes only through \<open>Currency::transfer\<close>, stands beside it. The pool's check
  \<open>validate_unsigned\<close> returns the arguments the source gives to the builder of
  \<open>ValidTransaction\<close>. The invariant \<open>faucet_inv\<close> ties the counters to the events, and
  \<open>faucet_run\<close> is the pallet's life on a chain: claims and donations at growing block numbers,
  between arbitrary changes of the ledger by others, with the trace of the successful claims.
\<close>

section \<open>Data\<close>

record ('a, 'c) faucet_config =
  fc_currency :: "('a, 'c) currency"
  fc_drip_amount :: u128
  fc_claim_cooldown :: u32
  fc_max_claims_per_account :: u32
  fc_faucet_pot :: 'a

datatype 'a faucet_event =
    Claimed 'a u128
  | FaucetFunded 'a u128

record 'a faucet =
  last_claim :: "'a \<rightharpoonup> u32"
  claim_count :: "'a \<rightharpoonup> u32"
  faucet_events :: "'a faucet_event list"

definition faucet_genesis :: "'a faucet" where
  "faucet_genesis = \<lparr>last_claim = Map.empty, claim_count = Map.empty, faucet_events = []\<rparr>"

text \<open>
  \<open>deposit_event\<close>. The log is a history variable: it keeps all events the pallet has deposited, while \<open>System\<close> keeps
  those of the current block (and none of the genesis block, in which no calls are dispatched). No call reads it.
\<close>

definition faucet_deposit :: "'a faucet_event \<Rightarrow> 'a faucet \<Rightarrow> 'a faucet" where
  "faucet_deposit e s = s\<lparr>faucet_events := faucet_events s @ [e]\<rparr>"

text \<open>\<open>ClaimCount\<close> is a map with \<open>ValueQuery\<close>: an absent entry reads as 0.\<close>

definition claim_count_get :: "'a faucet \<Rightarrow> 'a \<Rightarrow> u32" where
  "claim_count_get s a = (case claim_count s a of None \<Rightarrow> 0 | Some n \<Rightarrow> n)"

section \<open>Dispatchables\<close>

definition claim ::
  "('o, 'a) frame \<Rightarrow> ('a, 'c) faucet_config \<Rightarrow> u32 \<Rightarrow> 'o \<Rightarrow> 'a \<Rightarrow> ('a faucet \<times> 'c, dispatch_error, unit) body" where
  "claim fw cfg now origin account sl =
     (let (s, l) = sl in
      case ensure_none fw origin of
        Inl e \<Rightarrow> (Inl e, (s, l))
      | Inr _ \<Rightarrow>
          let current_block = now;
              too_soon = (case last_claim s account of
                  Some last_block \<Rightarrow> \<not> saturating_add last_block (fc_claim_cooldown cfg) \<le> current_block
                | None \<Rightarrow> False)
          in if too_soon then (Inl (Faucet_Error ClaimTooSoon), (s, l))
             else
               let claims = claim_count_get s account
               in if \<not> claims < fc_max_claims_per_account cfg then (Inl (Faucet_Error MaxClaimsReached), (s, l))
                  else
                    let drip_amount = fc_drip_amount cfg;
                        pot = fc_faucet_pot cfg;
                        balance = free_balance (fc_currency cfg) l pot
                    in if \<not> drip_amount \<le> balance then (Inl (Faucet_Error FaucetEmpty), (s, l))
                       else (case transfer (fc_currency cfg) pot account drip_amount KeepAlive l of
                           (Inl e, l') \<Rightarrow> (Inl e, (s, l'))
                         | (Inr _, l') \<Rightarrow>
                             let s1 = s\<lparr>last_claim := (last_claim s)(account \<mapsto> current_block)\<rparr>;
                                 s2 = s1\<lparr>claim_count := (claim_count s1)
                                        (account \<mapsto> saturating_add (claim_count_get s1 account) 1)\<rparr>
                             in (Inr (), (faucet_deposit (Claimed account drip_amount) s2, l'))))"

definition fund_faucet ::
  "('o, 'a) frame \<Rightarrow> ('a, 'c) faucet_config \<Rightarrow> 'o \<Rightarrow> u128 \<Rightarrow> ('a faucet \<times> 'c, dispatch_error, unit) body" where
  "fund_faucet fw cfg origin amount sl =
     (let (s, l) = sl in
      case ensure_signed fw origin of
        Inl e \<Rightarrow> (Inl e, (s, l))
      | Inr who \<Rightarrow>
          let pot = fc_faucet_pot cfg
          in (case transfer (fc_currency cfg) who pot amount KeepAlive l of
                (Inl e, l') \<Rightarrow> (Inl e, (s, l'))
              | (Inr _, l') \<Rightarrow> (Inr (), (faucet_deposit (FaucetFunded who amount) s, l'))))"

datatype 'a faucet_call = Claim 'a | FundFaucet u128

fun faucet_dispatch ::
  "('o, 'a) frame \<Rightarrow> ('a, 'c) faucet_config \<Rightarrow> u32 \<Rightarrow> 'o \<Rightarrow> 'a faucet_call
     \<Rightarrow> ('a faucet \<times> 'c, dispatch_error, unit) body" where
  "faucet_dispatch fw cfg now origin (Claim account) sl = claim fw cfg now origin account sl"
| "faucet_dispatch fw cfg now origin (FundFaucet amount) sl = fund_faucet fw cfg origin amount sl"

fun faucet_call_index :: "'a faucet_call \<Rightarrow> nat" where
  "faucet_call_index (Claim _) = 0"
| "faucet_call_index (FundFaucet _) = 1"

fun faucet_dispatch_info :: "'a faucet_call \<Rightarrow> dispatch_info" where
  "faucet_dispatch_info (Claim _) = \<lparr>di_ref_time = 50000, di_class = Normal, di_pays_fee = Pays_No\<rparr>"
| "faucet_dispatch_info (FundFaucet _) = weight_only 50000"

section \<open>The pool's check and the queries\<close>

datatype invalid_transaction = Stale | ExhaustsResources | Invalid_Call

text \<open>The arguments of the builder \<open>ValidTransaction::with_tag_prefix(..)...build()\<close>.\<close>

record 'a valid_transaction =
  vt_tag_prefix :: string
  vt_priority :: u64
  vt_provides :: 'a
  vt_longevity :: u64
  vt_propagate :: bool

fun validate_unsigned ::
  "('a, 'c) faucet_config \<Rightarrow> u32 \<Rightarrow> 'a faucet_call \<Rightarrow> 'a faucet \<times> 'c \<Rightarrow> invalid_transaction + 'a valid_transaction" where
  "validate_unsigned cfg now (Claim account) (s, l) =
     (let stale = (case last_claim s account of
          Some last_block \<Rightarrow> now < saturating_add last_block (fc_claim_cooldown cfg)
        | None \<Rightarrow> False)
      in if stale then Inl Stale
         else if fc_max_claims_per_account cfg \<le> claim_count_get s account then Inl ExhaustsResources
         else if free_balance (fc_currency cfg) l (fc_faucet_pot cfg) < fc_drip_amount cfg then Inl ExhaustsResources
         else Inr \<lparr>vt_tag_prefix = ''QxFaucet'', vt_priority = 1, vt_provides = account,
                   vt_longevity = 3, vt_propagate = True\<rparr>)"
| "validate_unsigned cfg now _ (s, l) = Inl Invalid_Call"

definition remaining_claims :: "('a, 'c) faucet_config \<Rightarrow> 'a \<Rightarrow> 'a faucet \<Rightarrow> u32" where
  "remaining_claims cfg account s = saturating_sub (fc_max_claims_per_account cfg) (claim_count_get s account)"

definition faucet_balance :: "('a, 'c) faucet_config \<Rightarrow> 'c \<Rightarrow> u128" where
  "faucet_balance cfg l = free_balance (fc_currency cfg) l (fc_faucet_pot cfg)"

definition can_claim :: "('a, 'c) faucet_config \<Rightarrow> u32 \<Rightarrow> 'a \<Rightarrow> 'a faucet \<times> 'c \<Rightarrow> bool" where
  "can_claim cfg now account sl =
     (case sl of (s, l) \<Rightarrow>
      if fc_max_claims_per_account cfg \<le> claim_count_get s account then False
      else if (case last_claim s account of
                 Some last_block \<Rightarrow> now < saturating_add last_block (fc_claim_cooldown cfg)
               | None \<Rightarrow> False) then False
      else fc_drip_amount cfg \<le> free_balance (fc_currency cfg) l (fc_faucet_pot cfg))"

section \<open>What a successful call does\<close>

text \<open>The cooldown of an account is over.\<close>

definition rested :: "('a, 'c) faucet_config \<Rightarrow> u32 \<Rightarrow> 'a \<Rightarrow> 'a faucet \<Rightarrow> bool" where
  "rested cfg now a s \<longleftrightarrow> (\<forall>last_block. last_claim s a = Some last_block \<longrightarrow> saturating_add last_block (fc_claim_cooldown cfg) \<le> now)"

lemma can_claim_iff:
  "can_claim cfg now a (s, l) \<longleftrightarrow>
     rested cfg now a s \<and> claim_count_get s a < fc_max_claims_per_account cfg \<and>
     fc_drip_amount cfg \<le> free_balance (fc_currency cfg) l (fc_faucet_pot cfg)"
  by (auto simp: can_claim_def rested_def not_less not_le split: option.splits)

text \<open>The storage of a successful claim.\<close>

definition claimed_by :: "('a, 'c) faucet_config \<Rightarrow> u32 \<Rightarrow> 'a \<Rightarrow> 'a faucet \<Rightarrow> 'a faucet" where
  "claimed_by cfg now a s = s\<lparr>
     last_claim := (last_claim s)(a \<mapsto> now),
     claim_count := (claim_count s)(a \<mapsto> saturating_add (claim_count_get s a) 1),
     faucet_events := faucet_events s @ [Claimed a (fc_drip_amount cfg)]\<rparr>"

lemma claim_ok_iff:
  "claim fw cfg now origin a (s, l) = (Inr (), (s', l')) \<longleftrightarrow>
     ensure_none fw origin = Inr () \<and> can_claim cfg now a (s, l) \<and>
     transfer (fc_currency cfg) (fc_faucet_pot cfg) a (fc_drip_amount cfg) KeepAlive l = (Inr (), l') \<and>
     s' = claimed_by cfg now a s"
  by (auto simp: claim_def can_claim_iff rested_def claimed_by_def faucet_deposit_def claim_count_get_def Let_def
      split: sum.splits option.splits prod.splits if_splits)

lemma fund_faucet_ok_iff:
  "fund_faucet fw cfg origin amount (s, l) = (Inr (), (s', l')) \<longleftrightarrow>
     (\<exists>who. ensure_signed fw origin = Inr who \<and>
        transfer (fc_currency cfg) who (fc_faucet_pot cfg) amount KeepAlive l = (Inr (), l') \<and>
        s' = faucet_deposit (FaucetFunded who amount) s)"
  by (auto simp: fund_faucet_def Let_def split: sum.splits prod.splits)

lemmas faucet_ok_iffs = claim_ok_iff fund_faucet_ok_iff

lemma claimed_by_simps [simp]:
  "last_claim (claimed_by cfg now a s) = (last_claim s)(a \<mapsto> now)"
  "claim_count_get (claimed_by cfg now a s) b =
     (if b = a then saturating_add (claim_count_get s a) 1 else claim_count_get s b)"
  "faucet_events (claimed_by cfg now a s) = faucet_events s @ [Claimed a (fc_drip_amount cfg)]"
  by (simp_all add: claimed_by_def claim_count_get_def)

lemma faucet_deposit_simps [simp]:
  "last_claim (faucet_deposit e s) = last_claim s"
  "claim_count_get (faucet_deposit e s) = claim_count_get s"
  "faucet_events (faucet_deposit e s) = faucet_events s @ [e]"
  by (simp_all add: faucet_deposit_def claim_count_get_def fun_eq_iff)

text \<open>A successful claim was below the maximum, so the saturating increment really increments.\<close>

lemma claim_count_incr:
  assumes "claim_count_get s a < fc_max_claims_per_account cfg"
  shows "unat (saturating_add (claim_count_get s a) 1) = Suc (unat (claim_count_get s a))"
  using assms unat_le_max [of "fc_max_claims_per_account cfg"]
  by (simp add: unat_saturating_add word_less_nat_alt)

section \<open>The invariant\<close>

text \<open>The amounts of the claims of an account in a list of events.\<close>

fun claim_amounts :: "'a \<Rightarrow> 'a faucet_event list \<Rightarrow> u128 list" where
  "claim_amounts a [] = []"
| "claim_amounts a (Claimed b v # es) = (if a = b then v # claim_amounts a es else claim_amounts a es)"
| "claim_amounts a (FaucetFunded _ _ # es) = claim_amounts a es"

lemma claim_amounts_append [simp]: "claim_amounts a (es @ fs) = claim_amounts a es @ claim_amounts a fs"
  by (induction es rule: claim_amounts.induct) auto

definition faucet_inv :: "('a, 'c) faucet_config \<Rightarrow> 'a faucet \<Rightarrow> bool" where
  "faucet_inv cfg s \<longleftrightarrow>
     (\<forall>a. claim_amounts a (faucet_events s) = replicate (unat (claim_count_get s a)) (fc_drip_amount cfg) \<and>
          claim_count_get s a \<le> fc_max_claims_per_account cfg \<and>
          (last_claim s a = None \<longleftrightarrow> claim_count_get s a = 0))"

lemma faucet_inv_genesis: "faucet_inv cfg faucet_genesis"
  by (simp add: faucet_inv_def faucet_genesis_def claim_count_get_def)

lemma faucet_inv_funded [simp]: "faucet_inv cfg (faucet_deposit (FaucetFunded who v) s) = faucet_inv cfg s"
  by (simp add: faucet_inv_def)

lemma claimed_by_inv:
  assumes "faucet_inv cfg s" and "claim_count_get s a < fc_max_claims_per_account cfg"
  shows "faucet_inv cfg (claimed_by cfg now a s)"
proof -
  have n: "unat (saturating_add (claim_count_get s a) 1) = Suc (unat (claim_count_get s a))"
    using claim_count_incr [OF assms(2)] .
  then have "saturating_add (claim_count_get s a) 1 \<noteq> 0" by auto
  moreover from n assms(2) have "saturating_add (claim_count_get s a) 1 \<le> fc_max_claims_per_account cfg"
    by (simp add: word_le_nat_alt word_less_nat_alt)
  ultimately show ?thesis
    using assms(1) n by (auto simp: faucet_inv_def replicate_append_same)
qed

lemma faucet_dispatch_inv:
  assumes "faucet_inv cfg (fst sl)" and "faucet_dispatch fw cfg now origin c sl = (Inr r, sl')"
  shows "faucet_inv cfg (fst sl')"
  using assms
  by (cases sl; cases sl'; cases c) (auto simp: faucet_ok_iffs can_claim_iff claimed_by_inv)

interpretation faucet_sys: guarded_calls
  "\<lambda>(now, origin, c). faucet_dispatch fw cfg now origin c"
  "\<lambda>_. True"
  "\<lambda>sl. faucet_inv cfg (fst sl)"
  "\<lambda>_. True"
  for fw :: "('o, 'a) frame" and cfg :: "('a, 'c) faucet_config"
  by unfold_locales (auto intro: faucet_dispatch_inv)

end
