(* ===== verification/Faucet_Run.thy ===== *)
theory Faucet_Run
  imports QX_Faucet
begin

text \<open>
  The faucet over time. \<open>faucet_run\<close> relates a trace of successful claims (block and account) to
  the block and the storage it leads to: calls run in their storage layers, others change the ledger
  as they like, and the block number grows. The invariant \<open>run_inv\<close> relates the storage to the
  trace. Where nobody else touches the ledger, \<open>pot_books\<close> balances the pot against the events.
\<close>

section \<open>Runs\<close>

inductive faucet_run ::
  "(('a faucet \<times> 'c, dispatch_error, unit) body \<Rightarrow> ('a faucet \<times> 'c, dispatch_error, unit) body) \<Rightarrow>
   ('o, 'a) frame \<Rightarrow> ('a, 'c) faucet_config \<Rightarrow> (u32 \<times> 'a) list \<Rightarrow> u32 \<Rightarrow> 'a faucet \<Rightarrow> 'c \<Rightarrow> bool"
  for layer fw cfg where
  fr_start: "faucet_run layer fw cfg [] now faucet_genesis l"
| fr_claim: "faucet_run layer fw cfg tr now s l \<Longrightarrow>
    layer (faucet_dispatch fw cfg now origin (Claim a)) (s, l) = (Inr (), (s', l')) \<Longrightarrow>
    faucet_run layer fw cfg (tr @ [(now, a)]) now s' l'"
| fr_fund: "faucet_run layer fw cfg tr now s l \<Longrightarrow>
    layer (faucet_dispatch fw cfg now origin (FundFaucet v)) (s, l) = (Inr (), (s', l')) \<Longrightarrow>
    faucet_run layer fw cfg tr now s' l'"
| fr_failed: "faucet_run layer fw cfg tr now s l \<Longrightarrow>
    layer (faucet_dispatch fw cfg now origin c) (s, l) = (Inl e, (s', l')) \<Longrightarrow>
    faucet_run layer fw cfg tr now s' l'"
| fr_others: "faucet_run layer fw cfg tr now s l \<Longrightarrow> faucet_run layer fw cfg tr now s l'"
| fr_block: "faucet_run layer fw cfg tr now s l \<Longrightarrow> now \<le> now' \<Longrightarrow> faucet_run layer fw cfg tr now' s l"

text \<open>Claims of one account are a cooldown apart.\<close>

definition spaced :: "u32 \<Rightarrow> (u32 \<times> 'a) list \<Rightarrow> bool" where
  "spaced cd tr \<longleftrightarrow> sorted_wrt (\<lambda>(t, a) (t', b). a = b \<longrightarrow> saturating_add t cd \<le> t') tr"

definition run_inv :: "('a, 'c) faucet_config \<Rightarrow> (u32 \<times> 'a) list \<Rightarrow> u32 \<Rightarrow> 'a faucet \<Rightarrow> bool" where
  "run_inv cfg tr now s \<longleftrightarrow>
     faucet_inv cfg s \<and>
     (\<forall>a. unat (claim_count_get s a) = count_list (map snd tr) a) \<and>
     (\<forall>(t, a)\<in>set tr. t \<le> now \<and> (\<exists>last_block. last_claim s a = Some last_block \<and> t \<le> last_block)) \<and>
     spaced (fc_claim_cooldown cfg) tr"

lemma saturating_add_mono: "x \<le> y \<Longrightarrow> saturating_add x z \<le> saturating_add y z"
  by (auto simp: word_le_nat_alt saturation)

lemma run_inv_claim:
  assumes "run_inv cfg tr now s" and "can_claim cfg now a (s, l)"
  shows "run_inv cfg (tr @ [(now, a)]) now (claimed_by cfg now a s)"
proof -
  from assms(2) have max: "claim_count_get s a < fc_max_claims_per_account cfg" and "rested cfg now a s"
    by (simp_all add: can_claim_iff)
  have "saturating_add t (fc_claim_cooldown cfg) \<le> now" if t: "(t, a) \<in> set tr" for t
  proof -
    obtain last_block where "last_claim s a = Some last_block" and "t \<le> last_block"
      using assms(1) t by (fastforce simp: run_inv_def)
    with \<open>rested cfg now a s\<close> show ?thesis
      unfolding rested_def by (blast intro: order_trans [OF saturating_add_mono])
  qed
  with assms(1) have "spaced (fc_claim_cooldown cfg) (tr @ [(now, a)])"
    by (auto simp: run_inv_def spaced_def sorted_wrt_append)
  with assms(1) max show ?thesis
    by (auto simp: run_inv_def claimed_by_inv claim_count_incr)
qed

lemma run_inv_later: "run_inv cfg tr now s \<Longrightarrow> now \<le> now' \<Longrightarrow> run_inv cfg tr now' s"
  by (auto simp: run_inv_def)

lemma run_inv_funded [simp]: "run_inv cfg tr now (faucet_deposit (FaucetFunded who v) s) = run_inv cfg tr now s"
  by (simp add: run_inv_def)

lemma layer_eq_Inr: "storage_layer layer \<Longrightarrow> layer f s = (Inr r, s') \<longleftrightarrow> f s = (Inr r, s')"
  by (cases "fst (f s)") (auto simp: layering prod_eq_iff)

lemma layer_eq_Inl: "storage_layer layer \<Longrightarrow> layer f s = (Inl e, s') \<Longrightarrow> s' = s"
  by (cases "fst (f s)") (auto simp: layering prod_eq_iff)

lemma faucet_run_inv:
  assumes "storage_layer layer" and "faucet_run layer fw cfg tr now s l"
  shows "run_inv cfg tr now s"
  using assms(2)
proof induction
  case (fr_start now l)
  show ?case
    by (simp add: run_inv_def faucet_inv_genesis spaced_def) (simp add: faucet_genesis_def claim_count_get_def)
next
  case (fr_claim tr now s l origin a s' l')
  then show ?case
    using run_inv_claim by (auto simp: layer_eq_Inr [OF assms(1)] faucet_ok_iffs)
next
  case (fr_fund tr now s l origin v s' l')
  then show ?case by (auto simp: layer_eq_Inr [OF assms(1)] faucet_ok_iffs)
next
  case (fr_failed tr now s l origin c e s' l')
  then show ?case using layer_eq_Inl [OF assms(1)] by blast
qed (auto intro: run_inv_later)

section \<open>The books of the pot\<close>

text \<open>What the events say has left and reached the pot. Transfers of the pot to itself move nothing.\<close>

fun paid_out :: "'a \<Rightarrow> 'a faucet_event list \<Rightarrow> nat" where
  "paid_out pot [] = 0"
| "paid_out pot (Claimed a v # es) = (if a = pot then 0 else unat v) + paid_out pot es"
| "paid_out pot (FaucetFunded _ _ # es) = paid_out pot es"

fun paid_in :: "'a \<Rightarrow> 'a faucet_event list \<Rightarrow> nat" where
  "paid_in pot [] = 0"
| "paid_in pot (Claimed _ _ # es) = paid_in pot es"
| "paid_in pot (FaucetFunded a v # es) = (if a = pot then 0 else unat v) + paid_in pot es"

lemma paid_out_append [simp]: "paid_out pot (es @ fs) = paid_out pot es + paid_out pot fs"
  by (induction es rule: paid_out.induct) auto

lemma paid_in_append [simp]: "paid_in pot (es @ fs) = paid_in pot es + paid_in pot fs"
  by (induction es rule: paid_in.induct) auto

definition pot_books :: "('a, 'c) faucet_config \<Rightarrow> nat \<Rightarrow> 'a faucet \<times> 'c \<Rightarrow> bool" where
  "pot_books cfg start sl \<longleftrightarrow>
     unat (faucet_balance cfg (snd sl)) + paid_out (fc_faucet_pot cfg) (faucet_events (fst sl)) =
     start + paid_in (fc_faucet_pot cfg) (faucet_events (fst sl))"

lemma claim_pot_books:
  assumes "currency_laws (fc_currency cfg) ed" and "pot_books cfg start (s, l)"
    and "transfer (fc_currency cfg) (fc_faucet_pot cfg) a (fc_drip_amount cfg) KeepAlive l = (Inr (), l')"
  shows "pot_books cfg start (claimed_by cfg now a s, l')"
  using assms(2) transfer_moves(1) [OF assms(1,3)] transfer_frame [OF assms(1,3), of "fc_faucet_pot cfg"]
  by (cases "a = fc_faucet_pot cfg") (auto simp: pot_books_def faucet_balance_def)

lemma fund_pot_books:
  assumes "currency_laws (fc_currency cfg) ed" and "pot_books cfg start (s, l)"
    and "transfer (fc_currency cfg) who (fc_faucet_pot cfg) v KeepAlive l = (Inr (), l')"
  shows "pot_books cfg start (faucet_deposit (FaucetFunded who v) s, l')"
  using assms(2) transfer_moves(2) [OF assms(1,3)] transfer_frame [OF assms(1,3), of "fc_faucet_pot cfg"]
  by (cases "who = fc_faucet_pot cfg") (auto simp: pot_books_def faucet_balance_def)

lemma faucet_dispatch_pot_books:
  assumes "currency_laws (fc_currency cfg) ed" and "pot_books cfg start sl"
    and "faucet_dispatch fw cfg now origin c sl = (Inr r, sl')"
  shows "pot_books cfg start sl'"
  using assms
  by (cases sl; cases sl'; cases c) (auto simp: faucet_ok_iffs intro: claim_pot_books fund_pot_books)

text \<open>Calls of the faucet keep the books; the contract needs the laws of the currency.\<close>

interpretation faucet_books: guarded_calls
  "\<lambda>(now, origin, c). faucet_dispatch fw cfg now origin c"
  "\<lambda>_. True"
  "\<lambda>sl. currency_laws (fc_currency cfg) ed \<and> pot_books cfg start sl"
  "\<lambda>_. True"
  for fw :: "('o, 'a) frame" and cfg :: "('a, 'c) faucet_config" and ed :: u128 and start :: nat
  by unfold_locales (auto intro: faucet_dispatch_pot_books)

text \<open>The pot is never spent below the existential deposit, because every claim keeps it alive.\<close>

definition pot_alive :: "('a, 'c) faucet_config \<Rightarrow> u128 \<Rightarrow> 'a faucet \<times> 'c \<Rightarrow> bool" where
  "pot_alive cfg ed sl \<longleftrightarrow> ed \<le> faucet_balance cfg (snd sl)"

lemma claim_pot_alive:
  assumes "currency_laws (fc_currency cfg) ed" and "fc_drip_amount cfg \<noteq> 0" and "pot_alive cfg ed (s, l)"
    and "transfer (fc_currency cfg) (fc_faucet_pot cfg) a (fc_drip_amount cfg) KeepAlive l = (Inr (), l')"
  shows "pot_alive cfg ed (s', l')"
proof (cases "a = fc_faucet_pot cfg")
  case True
  with assms(3) transfer_frame [OF assms(1,4)] show ?thesis by (simp add: pot_alive_def faucet_balance_def)
next
  case False
  have "\<not> unat (faucet_balance cfg l) < unat (fc_drip_amount cfg) + unat ed"
    using transfer_keep_alive [OF assms(1) False [symmetric] assms(2), of l] assms(4)
    by (auto simp: faucet_balance_def)
  with transfer_moves(1) [OF assms(1,4)] False show ?thesis
    by (simp add: pot_alive_def faucet_balance_def word_le_nat_alt)
qed

lemma fund_pot_alive:
  assumes "currency_laws (fc_currency cfg) ed" and "pot_alive cfg ed (s, l)"
    and "transfer (fc_currency cfg) who (fc_faucet_pot cfg) v KeepAlive l = (Inr (), l')"
  shows "pot_alive cfg ed (s', l')"
  using assms(2) transfer_moves(2) [OF assms(1,3)] transfer_frame [OF assms(1,3), of "fc_faucet_pot cfg"]
  by (cases "who = fc_faucet_pot cfg") (auto simp: pot_alive_def faucet_balance_def word_le_nat_alt)

lemma faucet_dispatch_pot_alive:
  assumes "currency_laws (fc_currency cfg) ed" and "fc_drip_amount cfg \<noteq> 0" and "pot_alive cfg ed sl"
    and "faucet_dispatch fw cfg now origin c sl = (Inr r, sl')"
  shows "pot_alive cfg ed sl'"
  using assms
  by (cases sl; cases sl'; cases c) (auto simp: faucet_ok_iffs intro: claim_pot_alive fund_pot_alive)

interpretation faucet_alive: guarded_calls
  "\<lambda>(now, origin, c). faucet_dispatch fw cfg now origin c"
  "\<lambda>_. True"
  "\<lambda>sl. currency_laws (fc_currency cfg) ed \<and> fc_drip_amount cfg \<noteq> 0 \<and> pot_alive cfg ed sl"
  "\<lambda>_. True"
  for fw :: "('o, 'a) frame" and cfg :: "('a, 'c) faucet_config" and ed :: u128
  by unfold_locales (auto intro: faucet_dispatch_pot_alive)

section \<open>Progress\<close>

lemma claim_succeeds:
  assumes "spendable (fc_currency cfg) ed (fc_faucet_pot cfg) l" and "ensure_none fw origin = Inr ()"
    and "ed \<le> fc_drip_amount cfg" and "rested cfg now a s" and "claim_count_get s a < fc_max_claims_per_account cfg"
    and "unat (fc_drip_amount cfg) + unat ed \<le> unat (faucet_balance cfg l)"
    and "unat (free_balance (fc_currency cfg) l a) + unat (fc_drip_amount cfg) < 2 ^ 128"
  shows "\<exists>l'. claim fw cfg now origin a (s, l) = (Inr (), (claimed_by cfg now a s, l')) \<and>
     transfer (fc_currency cfg) (fc_faucet_pot cfg) a (fc_drip_amount cfg) KeepAlive l = (Inr (), l')"
proof -
  from assms(1,3,6,7) obtain l' where
    t: "transfer (fc_currency cfg) (fc_faucet_pot cfg) a (fc_drip_amount cfg) KeepAlive l = (Inr (), l')"
    unfolding spendable_def faucet_balance_def by blast
  have "can_claim cfg now a (s, l)"
    using assms(4,5,6) by (simp add: can_claim_iff faucet_balance_def word_le_nat_alt)
  with t assms(2) show ?thesis by (auto simp: claim_ok_iff)
qed

text \<open>
  An account can collect everything it is entitled to: after \<open>k\<close> claims, one per cooldown and with
  no other call in between, it is ready for the next.
\<close>

abbreviation faucet_calls ::
  "(('a faucet \<times> 'c, dispatch_error, unit) body \<Rightarrow> ('a faucet \<times> 'c, dispatch_error, unit) body) \<Rightarrow>
   ('o, 'a) frame \<Rightarrow> ('a, 'c) faucet_config \<Rightarrow> (u32 \<times> 'o \<times> 'a faucet_call) list \<Rightarrow> 'a faucet \<times> 'c \<Rightarrow> 'a faucet \<times> 'c" where
  "faucet_calls layer fw cfg \<equiv> run_calls layer (\<lambda>(now, origin, c). faucet_dispatch fw cfg now origin c)"

definition claim_each_cooldown :: "('a, 'c) faucet_config \<Rightarrow> 'o \<Rightarrow> 'a \<Rightarrow> nat \<Rightarrow> (u32 \<times> 'o \<times> 'a faucet_call) list" where
  "claim_each_cooldown cfg origin a k =
     map (\<lambda>i. (of_nat (i * unat (fc_claim_cooldown cfg)), origin, Claim a)) [0..<k]"

lemma collect_claims:
  assumes laws: "storage_layer layer" "currency_laws (fc_currency cfg) ed"
      "\<And>l. spendable (fc_currency cfg) ed (fc_faucet_pot cfg) l" "ensure_none fw origin = Inr ()"
    and cfg: "ed \<le> fc_drip_amount cfg" "a \<noteq> fc_faucet_pot cfg"
    and rich: "n * unat (fc_drip_amount cfg) + unat ed \<le> unat (faucet_balance cfg l)"
      "unat (free_balance (fc_currency cfg) l a) + n * unat (fc_drip_amount cfg) < 2 ^ 128"
    and time: "n * unat (fc_claim_cooldown cfg) < 2 ^ 32"
    and "k \<le> n" and "n \<le> unat (fc_max_claims_per_account cfg)"
  shows "\<exists>s l'. faucet_calls layer fw cfg (claim_each_cooldown cfg origin a k) (faucet_genesis, l) = (s, l') \<and>
     unat (claim_count_get s a) = k \<and> rested cfg (of_nat (k * unat (fc_claim_cooldown cfg))) a s \<and>
     unat (faucet_balance cfg l) = unat (faucet_balance cfg l') + k * unat (fc_drip_amount cfg) \<and>
     unat (free_balance (fc_currency cfg) l' a) =
       unat (free_balance (fc_currency cfg) l a) + k * unat (fc_drip_amount cfg)"
  using \<open>k \<le> n\<close>
proof (induction k)
  case 0
  show ?case
    by (simp add: rested_def claim_each_cooldown_def) (simp add: faucet_genesis_def claim_count_get_def)
next
  case (Suc k)
  let ?cd = "unat (fc_claim_cooldown cfg)" and ?d = "unat (fc_drip_amount cfg)"
  let ?now = "of_nat (k * ?cd) :: u32" and ?next = "of_nat (Suc k * ?cd) :: u32"
  from Suc obtain s l' where run: "faucet_calls layer fw cfg (claim_each_cooldown cfg origin a k) (faucet_genesis, l) = (s, l')"
    and c: "unat (claim_count_get s a) = k" and r: "rested cfg ?now a s"
    and p: "unat (faucet_balance cfg l) = unat (faucet_balance cfg l') + k * ?d"
    and b: "unat (free_balance (fc_currency cfg) l' a) = unat (free_balance (fc_currency cfg) l a) + k * ?d"
    by (metis Suc_leD)
  from Suc.prems have n: "Suc k * ?d \<le> n * ?d" and t: "Suc k * ?cd \<le> n * ?cd"
    by (simp_all only: mult_le_mono1)
  from Suc.prems assms(11) c have m: "claim_count_get s a < fc_max_claims_per_account cfg"
    by (simp add: word_less_nat_alt)
  from n p rich(1) have p': "?d + unat ed \<le> unat (faucet_balance cfg l')" by simp
  from n b rich(2) have b': "unat (free_balance (fc_currency cfg) l' a) + ?d < 2 ^ 128" by simp
  obtain l2 where ok: "claim fw cfg ?now origin a (s, l') = (Inr (), (claimed_by cfg ?now a s, l2))"
    and tr2: "transfer (fc_currency cfg) (fc_faucet_pot cfg) a (fc_drip_amount cfg) KeepAlive l' = (Inr (), l2)"
    using claim_succeeds [OF laws(3,4) cfg(1) r m p' b'] by blast
  have "claim_each_cooldown cfg origin a (Suc k) = claim_each_cooldown cfg origin a k @ [(?now, origin, Claim a)]"
    by (simp add: claim_each_cooldown_def)
  then have "faucet_calls layer fw cfg (claim_each_cooldown cfg origin a (Suc k)) (faucet_genesis, l) =
      (claimed_by cfg ?now a s, l2)"
    using ok laws(1) by (simp add: run_calls_append run layer_Inr)
  moreover have "unat (claim_count_get (claimed_by cfg ?now a s) a) = Suc k"
    using claim_count_incr [OF m] c by simp
  moreover from t time have lt: "k * ?cd < 2 ^ LENGTH(32)" "Suc k * ?cd < 2 ^ LENGTH(32)" by simp_all
  note u = unat_of_nat_small [OF lt(1)] unat_of_nat_small [OF lt(2)]
  have "rested cfg ?next a (claimed_by cfg ?now a s)"
    unfolding rested_def word_le_nat_alt claimed_by_simps unat_saturating_add
    by (simp only: fun_upd_same option.inject) (metis u min.cobounded1 mult_Suc add.commute)
  moreover have "unat (faucet_balance cfg l) = unat (faucet_balance cfg l2) + Suc k * ?d"
    and "unat (free_balance (fc_currency cfg) l2 a) = unat (free_balance (fc_currency cfg) l a) + Suc k * ?d"
    using transfer_moves [OF laws(2) tr2] cfg(2) p b by (simp_all add: faucet_balance_def)
  ultimately show ?case by blast
qed

end
