(* ===== verification/Faucet_Properties.thy ===== *)
theory Faucet_Properties
  imports Faucet_Run
begin

text \<open>
  The properties of the faucet. The witnesses run it with natural numbers as accounts: the pot is
  account 9 and holds 1000, a drip is 10, the existential deposit 2, the cooldown 100 blocks, and an
  account may claim twice.
\<close>

section \<open>The instance the witnesses use\<close>

definition toy_fc :: "(nat, nat \<Rightarrow> u128) faucet_config" where
  "toy_fc = \<lparr>fc_currency = plain_ledger 2, fc_drip_amount = 10, fc_claim_cooldown = 100,
     fc_max_claims_per_account = 2, fc_faucet_pot = 9\<rparr>"

lemma toy_fc_simps [simp]:
  "fc_currency toy_fc = plain_ledger 2" "fc_drip_amount toy_fc = 10" "fc_claim_cooldown toy_fc = 100"
  "fc_max_claims_per_account toy_fc = 2" "fc_faucet_pot toy_fc = 9"
  by (simp_all add: toy_fc_def)

definition toy_ledger :: "u128 \<Rightarrow> nat \<Rightarrow> u128" where
  "toy_ledger pot a = (if a = 9 then pot else 0)"

lemma toy_ledger_balance [simp]: "free_balance (plain_ledger ed) (toy_ledger pot) a = (if a = 9 then pot else 0)"
  by (simp add: plain_ledger_def toy_ledger_def)

text \<open>The pallet's storage after account 2 has claimed at block 5.\<close>

definition toy_claimed :: "nat faucet" where
  "toy_claimed = claimed_by toy_fc 5 2 faucet_genesis"

lemma toy_claimed_simps [simp]:
  "last_claim toy_claimed = [2 \<mapsto> 5]"
  "claim_count_get toy_claimed = (\<lambda>a. if a = 2 then 1 else 0)"
  by (simp_all add: toy_claimed_def faucet_genesis_def fun_eq_iff)
    (simp_all add: claim_count_get_def saturating_add_def)

section \<open>The outcome of a claim\<close>

text \<open>
  The outcome of an unsigned claim, on every branch and in the source's order: too soon, the
  maximum reached, an empty pot, an error of the transfer, otherwise success. An error leaves the
  pallet's storage alone. A success records the block, uses up one of the account's remaining claims
  and touches no other account's record.
\<close>

theorem claim_outcome:
  assumes "ensure_none fw origin = Inr ()"
    and "claim fw cfg now origin a (s, l) = (r, (s', l'))"
  shows "r = (if \<not> rested cfg now a s then Inl (Faucet_Error ClaimTooSoon)
              else if remaining_claims cfg a s = 0 then Inl (Faucet_Error MaxClaimsReached)
              else if faucet_balance cfg l < fc_drip_amount cfg then Inl (Faucet_Error FaucetEmpty)
              else fst (transfer (fc_currency cfg) (fc_faucet_pot cfg) a (fc_drip_amount cfg) KeepAlive l)) \<and>
    (\<forall>e. r = Inl e \<longrightarrow> s' = s) \<and>
    (r = Inr () \<longrightarrow>
       last_claim s' = (last_claim s)(a \<mapsto> now) \<and>
       unat (remaining_claims cfg a s) = Suc (unat (remaining_claims cfg a s')) \<and>
       (\<forall>b. b \<noteq> a \<longrightarrow> remaining_claims cfg b s' = remaining_claims cfg b s))"
proof -
  have rem: "remaining_claims cfg a s = 0 \<longleftrightarrow> \<not> claim_count_get s a < fc_max_claims_per_account cfg"
    using unat_eq_zero [of "remaining_claims cfg a s"]
    by (simp add: remaining_claims_def unat_saturating_sub word_less_nat_alt not_less)
  have "unat (remaining_claims cfg a s) = Suc (unat (remaining_claims cfg a s'))" if "r = Inr ()"
    using assms that
    by (auto simp: claim_ok_iff can_claim_iff remaining_claims_def unat_saturating_sub claim_count_incr word_less_nat_alt)
  moreover have "last_claim s' = (last_claim s)(a \<mapsto> now)" and
    "b \<noteq> a \<longrightarrow> remaining_claims cfg b s' = remaining_claims cfg b s" if "r = Inr ()" for b
    using assms that by (auto simp: claim_ok_iff remaining_claims_def)
  moreover have "s' = s" if "r = Inl e" for e
    using assms that by (auto simp: claim_def Let_def split: prod.splits sum.splits option.splits if_splits)
  moreover have "r = (if \<not> rested cfg now a s then Inl (Faucet_Error ClaimTooSoon)
              else if \<not> claim_count_get s a < fc_max_claims_per_account cfg then Inl (Faucet_Error MaxClaimsReached)
              else if \<not> fc_drip_amount cfg \<le> faucet_balance cfg l then Inl (Faucet_Error FaucetEmpty)
              else fst (transfer (fc_currency cfg) (fc_faucet_pot cfg) a (fc_drip_amount cfg) KeepAlive l))"
    using assms
    by (auto simp: claim_def rested_def faucet_balance_def Let_def split: prod.splits sum.splits option.splits if_splits)
  ultimately show ?thesis unfolding rem by (simp add: not_le)
qed

theorem claim_outcome_witness:
  "fst (claim raw_frame toy_fc 104 Unsigned 2 (toy_claimed, toy_ledger 990)) = Inl (Faucet_Error ClaimTooSoon)"
proof -
  obtain r s' l' where c: "claim raw_frame toy_fc 104 Unsigned 2 (toy_claimed, toy_ledger 990) = (r, (s', l'))"
    by (metis surj_pair)
  have "\<not> rested toy_fc 104 2 toy_claimed" by (simp add: rested_def saturating_add_def)
  with claim_outcome [OF raw_frame_simps(6) c] c show ?thesis by simp
qed

text \<open>
  C14: The pool's check agrees with the call. It admits a claim exactly when \<open>can_claim\<close> says so, and
  the claim then does nothing but the transfer; it answers \<open>Stale\<close> exactly when the call would fail
  with \<open>ClaimTooSoon\<close>, and \<open>ExhaustsResources\<close> exactly when it would fail with \<open>MaxClaimsReached\<close> or
  \<open>FaucetEmpty\<close>, provided the transfer itself raises no error of the faucet. What it admits is tagged
  with the account, so the pool holds one claim per account; nothing but a claim is admitted.
\<close>

theorem validate_matches_claim:
  assumes "ensure_none fw origin = Inr ()"
    and "\<And>e. fst (transfer (fc_currency cfg) (fc_faucet_pot cfg) a (fc_drip_amount cfg) KeepAlive l) \<noteq> Inl (Faucet_Error e)"
  shows "((\<exists>v. validate_unsigned cfg now (Claim a) (s, l) = Inr v \<and> vt_provides v = a \<and> vt_tag_prefix v = ''QxFaucet'')
      \<longleftrightarrow> can_claim cfg now a (s, l)) \<and>
    (can_claim cfg now a (s, l) \<longrightarrow> fst (claim fw cfg now origin a (s, l)) =
       fst (transfer (fc_currency cfg) (fc_faucet_pot cfg) a (fc_drip_amount cfg) KeepAlive l)) \<and>
    (validate_unsigned cfg now (Claim a) (s, l) = Inl Stale \<longleftrightarrow>
       fst (claim fw cfg now origin a (s, l)) = Inl (Faucet_Error ClaimTooSoon)) \<and>
    (validate_unsigned cfg now (Claim a) (s, l) = Inl ExhaustsResources \<longleftrightarrow>
       fst (claim fw cfg now origin a (s, l)) \<in> {Inl (Faucet_Error MaxClaimsReached), Inl (Faucet_Error FaucetEmpty)}) \<and>
    validate_unsigned cfg now (FundFaucet v) (s, l) = Inl Invalid_Call"
proof (intro conjI)
  let ?t = "transfer (fc_currency cfg) (fc_faucet_pot cfg) a (fc_drip_amount cfg) KeepAlive l"
  note out = claim_def [of fw cfg now origin a "(s, l)"]
  note splits = option.splits if_splits sum.splits prod.splits
  show "(\<exists>v. validate_unsigned cfg now (Claim a) (s, l) = Inr v \<and> vt_provides v = a \<and> vt_tag_prefix v = ''QxFaucet'')
      \<longleftrightarrow> can_claim cfg now a (s, l)"
    by (auto simp: can_claim_def not_less not_le Let_def split: splits)
  show "can_claim cfg now a (s, l) \<longrightarrow> fst (claim fw cfg now origin a (s, l)) = fst ?t"
    using assms(1) by (auto simp: out can_claim_def not_less not_le Let_def split: splits)
  show "validate_unsigned cfg now (Claim a) (s, l) = Inl Stale \<longleftrightarrow>
       fst (claim fw cfg now origin a (s, l)) = Inl (Faucet_Error ClaimTooSoon)"
    using assms(1) assms(2) [of ClaimTooSoon]
    by (auto simp: out not_less not_le Let_def split: splits)
  show "validate_unsigned cfg now (Claim a) (s, l) = Inl ExhaustsResources \<longleftrightarrow>
       fst (claim fw cfg now origin a (s, l)) \<in> {Inl (Faucet_Error MaxClaimsReached), Inl (Faucet_Error FaucetEmpty)}"
    using assms(1) assms(2) [of MaxClaimsReached] assms(2) [of FaucetEmpty]
    by (auto simp: out not_less not_le Let_def split: splits)
qed simp

theorem validate_matches_claim_witness:
  "can_claim toy_fc 105 2 (toy_claimed, toy_ledger 990) \<and>
   fst (claim raw_frame toy_fc 105 Unsigned 2 (toy_claimed, toy_ledger 990)) = Inr ()"
proof -
  have t: "fst (transfer (fc_currency toy_fc) (fc_faucet_pot toy_fc) 2 (fc_drip_amount toy_fc) KeepAlive (toy_ledger 990)) = Inr ()"
    by (simp add: plain_ledger_def toy_ledger_def)
  then have "fst (transfer (fc_currency toy_fc) (fc_faucet_pot toy_fc) 2 (fc_drip_amount toy_fc) KeepAlive (toy_ledger 990))
      \<noteq> Inl (Faucet_Error e)" for e by simp
  moreover have "can_claim toy_fc 105 2 (toy_claimed, toy_ledger 990)"
    by (simp add: can_claim_iff rested_def saturating_add_def)
  ultimately show ?thesis
    using validate_matches_claim [where fw = raw_frame and cfg = toy_fc and a = 2 and now = 105 and s = toy_claimed
        and l = "toy_ledger 990", OF raw_frame_simps(6)] t by simp
qed

section \<open>The faucet over time\<close>

text \<open>
  On every run of the faucet, whatever the callers and the rest of the chain do, two claims of one
  account are a cooldown apart: the later one is at least the cooldown after the earlier one, or in
  the last block a 32-bit block number can name.
\<close>

theorem claims_are_spaced:
  assumes "storage_layer layer" and "faucet_run layer fw cfg tr now s l"
    and "i < j" and "j < length tr" and "snd (tr ! i) = snd (tr ! j)"
  shows "min (unat (fst (tr ! i)) + unat (fc_claim_cooldown cfg)) (2 ^ 32 - 1) \<le> unat (fst (tr ! j))"
proof -
  have "spaced (fc_claim_cooldown cfg) tr"
    using faucet_run_inv [OF assms(1,2)] by (simp add: run_inv_def)
  with assms(3-5) have "saturating_add (fst (tr ! i)) (fc_claim_cooldown cfg) \<le> fst (tr ! j)"
    by (simp add: spaced_def sorted_wrt_iff_nth_less split_beta)
  then show ?thesis by (simp add: word_le_nat_alt saturation)
qed

text \<open>Account 2 claims at blocks 5 and 105.\<close>

lemma toy_run: "\<exists>s l. faucet_run commit_or_discard raw_frame toy_fc [(5, 2), (105, 2)] 105 s l"
proof -
  have t: "transfer (plain_ledger 2) 9 2 10 KeepAlive (toy_ledger n) = (Inr (), (toy_ledger n)(9 := n - 10, 2 := 10))"
    if "12 \<le> unat n" for n
    using that by (simp add: plain_ledger_def toy_ledger_def)
  have first: "commit_or_discard (faucet_dispatch raw_frame toy_fc 5 Unsigned (Claim 2)) (faucet_genesis, toy_ledger 1000) =
      (Inr (), (toy_claimed, (toy_ledger 1000)(9 := 990, 2 := 10)))"
    unfolding layer_eq_Inr [OF storage_layer_commit_or_discard] faucet_dispatch.simps claim_ok_iff toy_claimed_def
    using t [of 1000] by (simp add: can_claim_iff rested_def) (simp add: faucet_genesis_def claim_count_get_def)
  have second: "commit_or_discard (faucet_dispatch raw_frame toy_fc 105 Unsigned (Claim 2)) (toy_claimed, toy_ledger 990) =
      (Inr (), (claimed_by toy_fc 105 2 toy_claimed, (toy_ledger 990)(9 := 980, 2 := 10)))"
    unfolding layer_eq_Inr [OF storage_layer_commit_or_discard] faucet_dispatch.simps claim_ok_iff
    using t [of 990] by (simp add: can_claim_iff rested_def saturating_add_def)
  from fr_claim [where layer = commit_or_discard and fw = raw_frame and cfg = toy_fc and tr = "[]"
      and origin = Unsigned, OF fr_start first]
  have "faucet_run commit_or_discard raw_frame toy_fc [(5, 2)] 5 toy_claimed ((toy_ledger 1000)(9 := 990, 2 := 10))"
    by simp
  from fr_block [OF fr_others [OF this], where now' = 105]
  have "faucet_run commit_or_discard raw_frame toy_fc [(5, 2)] 105 toy_claimed (toy_ledger 990)" by simp
  from fr_claim [where origin = Unsigned and a = 2, OF this second] show ?thesis by auto
qed

theorem claims_are_spaced_witness:
  "\<exists>tr s l. faucet_run commit_or_discard raw_frame toy_fc tr 105 s l \<and> length tr = 2 \<and>
     unat (fst (tr ! 0)) + 100 \<le> unat (fst (tr ! 1))"
proof -
  obtain s l where run: "faucet_run commit_or_discard raw_frame toy_fc [(5, 2), (105, 2)] 105 s l"
    using toy_run by blast
  from claims_are_spaced [OF storage_layer_commit_or_discard run, of 0 1] run show ?thesis by fastforce
qed

text \<open>
  Over its whole life an account gets at most the maximal number of drips, however long the chain
  runs: its recorded claims are the successful ones, the amounts paid to it are that many drips, and
  what \<open>remaining_claims\<close> reports is exactly what is left.
\<close>

theorem lifetime_cap:
  assumes "storage_layer layer" and "faucet_run layer fw cfg tr now s l"
  shows "claim_amounts a (faucet_events s) = replicate (count_list (map snd tr) a) (fc_drip_amount cfg) \<and>
    count_list (map snd tr) a \<le> unat (fc_max_claims_per_account cfg) \<and>
    count_list (map snd tr) a + unat (remaining_claims cfg a s) = unat (fc_max_claims_per_account cfg)"
proof -
  from faucet_run_inv [OF assms] have "faucet_inv cfg s" and n: "unat (claim_count_get s a) = count_list (map snd tr) a"
    by (simp_all add: run_inv_def)
  then show ?thesis
    unfolding faucet_inv_def remaining_claims_def unat_saturating_sub n [symmetric] word_le_nat_alt by simp
qed

theorem lifetime_cap_witness:
  "\<exists>s l. faucet_run commit_or_discard raw_frame toy_fc [(5, 2), (105, 2)] 105 s l \<and>
     claim_amounts 2 (faucet_events s) = [10, 10] \<and> remaining_claims toy_fc 2 s = 0"
proof -
  obtain s l where run: "faucet_run commit_or_discard raw_frame toy_fc [(5, 2), (105, 2)] 105 s l"
    using toy_run by blast
  have "replicate 2 (10 :: u128) = [10, 10]" by (simp add: numeral_2_eq_2)
  with lifetime_cap [OF storage_layer_commit_or_discard run, of 2]
  have "claim_amounts 2 (faucet_events s) = [10, 10]" and "unat (remaining_claims toy_fc 2 s) = 0"
    by simp_all
  moreover from this(2) have "remaining_claims toy_fc 2 s = 0" by (simp only: unat_eq_zero)
  ultimately show ?thesis using run by blast
qed

text \<open>
  The pot's books balance: while only the faucet's calls touch the ledger, the pot holds what it
  held plus the donations the events report minus the drips they report.
\<close>

theorem pot_books_balance:
  assumes "storage_layer layer" and "currency_laws (fc_currency cfg) ed" and "faucet_events s = []"
    and "run_calls layer (\<lambda>(now, origin, c). faucet_dispatch fw cfg now origin c) calls (s, l) = (s', l')"
  shows "unat (faucet_balance cfg l') + paid_out (fc_faucet_pot cfg) (faucet_events s') =
    unat (faucet_balance cfg l) + paid_in (fc_faucet_pot cfg) (faucet_events s')"
proof -
  have "pot_books cfg (unat (faucet_balance cfg l)) (s, l)"
    using assms(3) by (simp add: pot_books_def)
  with faucet_books.run_keeps_guarded [where fw = fw and cfg = cfg, OF assms(1)] assms(2,4)
  have "pot_books cfg (unat (faucet_balance cfg l)) (s', l')" by (metis (no_types, lifting))
  then show ?thesis by (simp add: pot_books_def)
qed

theorem pot_books_balance_witness:
  "\<exists>s' l'. run_calls commit_or_discard (\<lambda>(now, origin, c). faucet_dispatch raw_frame toy_fc now origin c)
       [(5, Unsigned, Claim 2), (6, Unsigned, Claim 2)] (faucet_genesis, toy_ledger 1000) = (s', l') \<and>
     unat (faucet_balance toy_fc l') + paid_out 9 (faucet_events s') = 1000 + paid_in 9 (faucet_events s')"
proof -
  obtain s' l' where r: "run_calls commit_or_discard (\<lambda>(now, origin, c). faucet_dispatch raw_frame toy_fc now origin c)
       [(5, Unsigned, Claim 2), (6, Unsigned, Claim 2)] (faucet_genesis, toy_ledger 1000) = (s', l')"
    by (rule prod.exhaust)
  have "currency_laws (fc_currency toy_fc) 2" and "faucet_events (faucet_genesis :: nat faucet) = []"
    by (simp_all add: plain_ledger_laws faucet_genesis_def)
  from pot_books_balance [OF storage_layer_commit_or_discard this r] r show ?thesis
    by (simp add: faucet_balance_def)
qed

text \<open>
  C15: The pot's books balance, it never dies, and it never pays out what it does not have: while only the
  faucet's calls touch the ledger, it holds what it held plus the donations the events report minus the
  drips they report; starting alive, it keeps the existential deposit through any calls; and the drips
  plus the deposit never exceed what it started with plus the donations.
\<close>

theorem drips_within_pot:
  assumes "storage_layer layer" and "currency_laws (fc_currency cfg) ed" and "faucet_events s = []"
    and "fc_drip_amount cfg \<noteq> 0" and "ed \<le> faucet_balance cfg l"
    and "run_calls layer (\<lambda>(now, origin, c). faucet_dispatch fw cfg now origin c) calls (s, l) = (s', l')"
  shows "unat (faucet_balance cfg l') + paid_out (fc_faucet_pot cfg) (faucet_events s') =
      unat (faucet_balance cfg l) + paid_in (fc_faucet_pot cfg) (faucet_events s') \<and>
    ed \<le> faucet_balance cfg l' \<and>
    paid_out (fc_faucet_pot cfg) (faucet_events s') + unat ed \<le>
      unat (faucet_balance cfg l) + paid_in (fc_faucet_pot cfg) (faucet_events s')"
proof -
  have "pot_books cfg (unat (faucet_balance cfg l)) (s, l)" and "pot_alive cfg ed (s, l)"
    using assms(3,5) by (simp_all add: pot_books_def pot_alive_def)
  with faucet_books.run_keeps_guarded [where fw = fw and cfg = cfg, OF assms(1)]
    faucet_alive.run_keeps_guarded [where fw = fw and cfg = cfg, OF assms(1)] assms(2,4,6)
  have "pot_books cfg (unat (faucet_balance cfg l)) (s', l')" and "pot_alive cfg ed (s', l')"
    by (metis (no_types, lifting))+
  then show ?thesis by (simp add: pot_books_def pot_alive_def word_le_nat_alt)
qed

theorem drips_within_pot_witness:
  "\<exists>s' l'. run_calls commit_or_discard (\<lambda>(now, origin, c). faucet_dispatch raw_frame toy_fc now origin c)
       [(5, Unsigned, Claim 2), (6, Unsigned, Claim 7)] (faucet_genesis, toy_ledger 13) = (s', l') \<and>
     2 \<le> faucet_balance toy_fc l' \<and> paid_out 9 (faucet_events s') + 2 \<le> 13 + paid_in 9 (faucet_events s')"
proof -
  obtain s' l' where r: "run_calls commit_or_discard (\<lambda>(now, origin, c). faucet_dispatch raw_frame toy_fc now origin c)
       [(5, Unsigned, Claim 2), (6, Unsigned, Claim 7)] (faucet_genesis, toy_ledger 13) = (s', l')"
    by (rule prod.exhaust)
  have "currency_laws (fc_currency toy_fc) 2" and "faucet_events (faucet_genesis :: nat faucet) = []"
    and "fc_drip_amount toy_fc \<noteq> 0" and "2 \<le> faucet_balance toy_fc (toy_ledger 13)"
    by (simp_all add: plain_ledger_laws faucet_genesis_def faucet_balance_def)
  from drips_within_pot [OF storage_layer_commit_or_discard this r] r show ?thesis
    by (simp add: faucet_balance_def)
qed

text \<open>
  C36: Between one drip and one drip plus the existential deposit the pot is stuck: the pool's check
  and \<open>can_claim\<close> still admit the claim, but its transfer must keep the pot alive and fails. The
  storage layer leaves no trace of the attempt, so the free claim is admitted again at once.
\<close>

theorem admitted_claim_can_fail_forever:
  assumes "storage_layer layer" and "currency_laws (fc_currency cfg) ed" and "ensure_none fw origin = Inr ()"
    and "rested cfg now a s" and "claim_count_get s a < fc_max_claims_per_account cfg"
    and "fc_drip_amount cfg \<noteq> 0" and "a \<noteq> fc_faucet_pot cfg"
    and "fc_drip_amount cfg \<le> faucet_balance cfg l"
    and "unat (faucet_balance cfg l) < unat (fc_drip_amount cfg) + unat ed"
  shows "\<exists>e v. layer (faucet_dispatch fw cfg now origin (Claim a)) (s, l) = (Inl e, (s, l)) \<and>
    validate_unsigned cfg now (Claim a) (s, l) = Inr v \<and> can_claim cfg now a (s, l) \<and>
    di_pays_fee (faucet_dispatch_info (Claim a)) = Pays_No"
proof -
  have can: "can_claim cfg now a (s, l)"
    using assms(4,5,8) by (simp add: can_claim_iff faucet_balance_def)
  then have valid: "\<exists>v. validate_unsigned cfg now (Claim a) (s, l) = Inr v"
    by (auto simp: can_claim_def not_less not_le Let_def split: option.splits if_splits)
  obtain e where e: "fst (transfer (fc_currency cfg) (fc_faucet_pot cfg) a (fc_drip_amount cfg) KeepAlive l) = Inl e"
    using transfer_keep_alive [OF assms(2), of "fc_faucet_pot cfg" a "fc_drip_amount cfg" l] assms(6,7,9)
    by (auto simp: faucet_balance_def)
  obtain r sl' where c: "faucet_dispatch fw cfg now origin (Claim a) (s, l) = (r, sl')" by (rule prod.exhaust)
  have "r \<noteq> Inr ()"
  proof
    assume "r = Inr ()"
    with c have "claim fw cfg now origin a (s, l) = (Inr (), (fst sl', snd sl'))" by simp
    with e show False unfolding claim_ok_iff by simp
  qed
  with c obtain e' where "fst (faucet_dispatch fw cfg now origin (Claim a) (s, l)) = Inl e'"
    by (cases r) auto
  with assms(1) have "layer (faucet_dispatch fw cfg now origin (Claim a)) (s, l) = (Inl e', (s, l))"
    by (rule layer_Inl)
  with can valid show ?thesis by auto
qed

theorem admitted_claim_can_fail_forever_witness:
  "\<exists>e. commit_or_discard (faucet_dispatch raw_frame toy_fc 105 Unsigned (Claim 2)) (toy_claimed, toy_ledger 11) =
     (Inl e, (toy_claimed, toy_ledger 11)) \<and> can_claim toy_fc 105 2 (toy_claimed, toy_ledger 11)"
proof -
  have "currency_laws (fc_currency toy_fc) 2" by (simp add: plain_ledger_laws)
  moreover have "rested toy_fc 105 2 toy_claimed" by (simp add: rested_def saturating_add_def)
  ultimately show ?thesis
    using admitted_claim_can_fail_forever [OF storage_layer_commit_or_discard _ raw_frame_simps(6),
        of toy_fc 2 105 2 toy_claimed "toy_ledger 11"]
    by (simp add: faucet_balance_def)
qed

text \<open>
  The faucet delivers: with a pot that covers them and stays alive, an account that claims once per
  cooldown gets any number of claims up to the maximum, and exactly that many drips, out of the pot.
\<close>

theorem full_entitlement:
  assumes "storage_layer layer" and "currency_laws (fc_currency cfg) ed"
    and "\<And>l. spendable (fc_currency cfg) ed (fc_faucet_pot cfg) l" and "ensure_none fw origin = Inr ()"
    and "ed \<le> fc_drip_amount cfg" and "a \<noteq> fc_faucet_pot cfg"
    and "n * unat (fc_drip_amount cfg) + unat ed \<le> unat (faucet_balance cfg l)"
    and "unat (free_balance (fc_currency cfg) l a) + n * unat (fc_drip_amount cfg) < 2 ^ 128"
    and "n * unat (fc_claim_cooldown cfg) < 2 ^ 32"
    and "n \<le> unat (fc_max_claims_per_account cfg)"
  shows "\<exists>s l'. run_calls layer (\<lambda>(now, origin, c). faucet_dispatch fw cfg now origin c)
        (map (\<lambda>i. (of_nat (i * unat (fc_claim_cooldown cfg)), origin, Claim a)) [0..<n]) (faucet_genesis, l) = (s, l') \<and>
    unat (remaining_claims cfg a s) = unat (fc_max_claims_per_account cfg) - n \<and>
    unat (free_balance (fc_currency cfg) l' a) =
      unat (free_balance (fc_currency cfg) l a) + n * unat (fc_drip_amount cfg) \<and>
    unat (faucet_balance cfg l') = unat (faucet_balance cfg l) - n * unat (fc_drip_amount cfg)"
  using collect_claims [OF assms(1-9) order_refl assms(10)]
  by (auto simp: remaining_claims_def saturation claim_each_cooldown_def)

theorem full_entitlement_witness:
  "\<exists>s l'. run_calls commit_or_discard (\<lambda>(now, origin, c). faucet_dispatch raw_frame toy_fc now origin c)
       (map (\<lambda>i. (of_nat (i * 100), Unsigned, Claim 2)) [0..<2]) (faucet_genesis, toy_ledger 1000) = (s, l') \<and>
     unat (remaining_claims toy_fc 2 s) = 0 \<and> unat (free_balance (plain_ledger 2) l' 2) = 20"
proof -
  have "currency_laws (fc_currency toy_fc) 2" and "spendable (fc_currency toy_fc) 2 (fc_faucet_pot toy_fc) l" for l
    by (simp_all add: plain_ledger_laws plain_ledger_spendable)
  from full_entitlement [where n = 2 and a = 2 and l = "toy_ledger 1000",
      OF storage_layer_commit_or_discard this raw_frame_simps(6)]
  show ?thesis by (auto simp: faucet_balance_def)
qed

end
