(* ===== verification/Runtime.thy ===== *)
theory Runtime
  imports Kilt_Permissions AI_Market Faucet_Run
begin

text \<open>
  The runtime: the constants the pallets are configured with, the implementation of the trait
  \<open>KiltPermissions\<close> on the KILT pallet, and the dispatch of the runtime's calls to the pallets,
  over the joint storage \<open>runtime\<close>. The calls of the other pallets (balances, sudo, timestamp
  and so on, code outside the repository) are the parameter of \<open>Other_Call\<close>: any change of the
  ledger. The origin is the one a call is dispatched with: for a call inside \<open>sudo\<close> a root origin, for one inside
  \<open>sudo_as\<close> the account that sudo names. Two calls of \<open>System\<close> are no calls of the model: \<open>set_storage\<close> (with its kin) and
  \<open>set_code\<close>, with which the sudo key can overwrite the pallets' storage or replace the pallets;
  what is proved here holds as long as it does not. This theory
  interprets \<open>credential_oracle\<close> on the KILT pallet, and the contract of the library on the
  runtime's calls.
\<close>

section \<open>Constants\<close>

type_synonym account_id = "u8 list"
type_synonym block_number = u32
type_synonym balance = u128
type_synonym nonce = u32

definition MILLI_SECS_PER_BLOCK :: u64 where "MILLI_SECS_PER_BLOCK = 6000"

definition SLOT_DURATION :: u64 where "SLOT_DURATION = MILLI_SECS_PER_BLOCK"

definition MINUTES :: block_number where "MINUTES = 60000 div ucast MILLI_SECS_PER_BLOCK"

definition HOURS :: block_number where "HOURS = MINUTES * 60"

definition DAYS :: block_number where "DAYS = HOURS * 24"

definition EXISTENTIAL_DEPOSIT :: balance where "EXISTENTIAL_DEPOSIT = 500"

definition MaxQueueSize :: u32 where "MaxQueueSize = 100"

definition FaucetDripAmount :: balance where "FaucetDripAmount = 10000000000000"

definition FaucetClaimCooldown :: block_number where "FaucetClaimCooldown = 14400"

definition FaucetMaxClaims :: u32 where "FaucetMaxClaims = 5"

definition FaucetPotAccount :: account_id where
  "FaucetPotAccount = [
     0x71, 0x78, 0x2f, 0x66, 0x61, 0x75, 0x63, 0x65,
     0x74, 0x00, 0x00, 0x00, 0x00, 0x00, 0x00, 0x00,
     0x00, 0x00, 0x00, 0x00, 0x00, 0x00, 0x00, 0x00,
     0x00, 0x00, 0x00, 0x00, 0x00, 0x00, 0x00, 0x00]"

section \<open>Configuration of the pallets\<close>

text \<open>What the pallets' configurations take from outside the repository.\<close>

record ('o, 'c) env =
  env_frame :: "('o, account_id) frame"
  env_hash :: "account_id \<Rightarrow> u8 list"
  env_iter :: "(account_id \<rightharpoonup> account_id worker_did) \<Rightarrow> (account_id \<times> account_id worker_did) list"
  env_currency :: "(account_id, 'c) currency"

definition kilt_config_of :: "('o, 'c) env \<Rightarrow> account_id kilt_config" where
  "kilt_config_of env = \<lparr>default_credential_validity = 30 * DAYS, worker_suspension_period = 1 * DAYS,
     hash_of = env_hash env, worker_dids_iter = env_iter env\<rparr>"

definition faucet_config_of :: "('o, 'c) env \<Rightarrow> (account_id, 'c) faucet_config" where
  "faucet_config_of env = \<lparr>fc_currency = env_currency env, fc_drip_amount = FaucetDripAmount,
     fc_claim_cooldown = FaucetClaimCooldown, fc_max_claims_per_account = FaucetMaxClaims,
     fc_faucet_pot = FaucetPotAccount\<rparr>"

definition KiltPermissionsImpl :: "'a kilt_config \<Rightarrow> 'a kilt \<Rightarrow> u32 \<Rightarrow> 'a kilt_permissions" where
  "KiltPermissionsImpl cfg k now = \<lparr>
     kp_verify_worker_credential = (\<lambda>did. verify_worker_credential cfg now k did),
     kp_get_worker_did = (\<lambda>account. get_worker_did k account)\<rparr>"

lemma faucet_config_of_simps [simp]:
  "fc_currency (faucet_config_of env) = env_currency env"
  "fc_drip_amount (faucet_config_of env) = FaucetDripAmount"
  "fc_claim_cooldown (faucet_config_of env) = FaucetClaimCooldown"
  "fc_max_claims_per_account (faucet_config_of env) = FaucetMaxClaims"
  "fc_faucet_pot (faucet_config_of env) = FaucetPotAccount"
  by (simp_all add: faucet_config_of_def)

lemma unat_constants [simp]:
  "unat FaucetDripAmount = 10000000000000"
  "unat FaucetClaimCooldown = 14400"
  "unat FaucetMaxClaims = 5"
  "unat EXISTENTIAL_DEPOSIT = 500"
  "unat DAYS = 14400"
  by (simp_all add: FaucetDripAmount_def FaucetClaimCooldown_def FaucetMaxClaims_def EXISTENTIAL_DEPOSIT_def
      DAYS_def HOURS_def MINUTES_def MILLI_SECS_PER_BLOCK_def)

section \<open>The KILT pallet vouches for the workers\<close>

interpretation kilt_oracle: credential_oracle
  "KiltPermissionsImpl cfg"
  "\<lambda>k. iter_ok cfg \<and> kilt_inv cfg k \<and> no_collision cfg k"
  "worker_authorised"
  for cfg :: "'a kilt_config"
  by unfold_locales (auto simp: authorised_iff_verified credentialed_def KiltPermissionsImpl_def)

section \<open>Storage and calls\<close>

record 'c runtime =
  rt_kilt :: "account_id kilt"
  rt_ai :: "account_id ai"
  rt_faucet :: "account_id faucet"
  rt_ledger :: 'c

text \<open>
  The calls of the QX pallets, and \<open>Other_Call\<close> for the calls of the others that leave the QX pallets' storage alone,
  that is all but the raw writes of \<open>System\<close> by root.
\<close>

datatype 'c runtime_call =
    QxKiltPermissions kilt_call
  | QxAi "account_id ai_call"
  | QxFaucet "account_id faucet_call"
  | Other_Call "'c \<Rightarrow> (dispatch_error + pays) \<times> 'c"

fun FeelessCalls_contains :: "'c runtime_call \<Rightarrow> bool" where
  "FeelessCalls_contains (QxFaucet (Claim _)) \<longleftrightarrow> True"
| "FeelessCalls_contains _ \<longleftrightarrow> False"

fun rt_call_wf :: "'c runtime_call \<Rightarrow> bool" where
  "rt_call_wf (QxAi c) \<longleftrightarrow> ai_call_wf c"
| "rt_call_wf _ \<longleftrightarrow> True"

fun rt_dispatch ::
  "('o, 'c) env \<Rightarrow> u32 \<Rightarrow> 'o \<Rightarrow> 'c runtime_call \<Rightarrow> ('c runtime, dispatch_error, pays) body" where
  "rt_dispatch env now origin (QxKiltPermissions c) rt =
     (case default_post_info (kilt_dispatch (env_frame env) (kilt_config_of env) now origin c (rt_kilt rt)) of
        (r, k) \<Rightarrow> (r, rt\<lparr>rt_kilt := k\<rparr>))"
| "rt_dispatch env now origin (QxAi c) rt =
     (case ai_dispatch (env_frame env) (KiltPermissionsImpl (kilt_config_of env) (rt_kilt rt) now)
             MaxQueueSize now origin c (rt_ai rt) of
        (r, a) \<Rightarrow> (r, rt\<lparr>rt_ai := a\<rparr>))"
| "rt_dispatch env now origin (QxFaucet c) rt =
     (case default_post_info (faucet_dispatch (env_frame env) (faucet_config_of env) now origin c
             (rt_faucet rt, rt_ledger rt)) of
        (r, (f, l)) \<Rightarrow> (r, rt\<lparr>rt_faucet := f, rt_ledger := l\<rparr>))"
| "rt_dispatch env now origin (Other_Call f) rt =
     (case f (rt_ledger rt) of (r, l) \<Rightarrow> (r, rt\<lparr>rt_ledger := l\<rparr>))"

definition rt_genesis :: "'c \<Rightarrow> 'c runtime" where
  "rt_genesis l = \<lparr>rt_kilt = kilt_genesis, rt_ai = ai_genesis, rt_faucet = faucet_genesis, rt_ledger = l\<rparr>"

section \<open>The invariant of the runtime\<close>

definition env_ok :: "('o, 'c) env \<Rightarrow> bool" where
  "env_ok env \<longleftrightarrow> iter_ok (kilt_config_of env)"

definition rt_inv :: "('o, 'c) env \<Rightarrow> 'c runtime \<Rightarrow> bool" where
  "rt_inv env rt \<longleftrightarrow>
     kilt_inv (kilt_config_of env) (rt_kilt rt) \<and>
     ai_inv (unat MaxQueueSize) (rt_ai rt) \<and>
     faucet_inv (faucet_config_of env) (rt_faucet rt)"

lemma rt_inv_genesis: "rt_inv env (rt_genesis l)"
  by (simp add: rt_inv_def rt_genesis_def kilt_inv_genesis ai_inv_genesis faucet_inv_genesis)

lemma rt_dispatch_inv:
  assumes "env_ok env" and "rt_inv env rt" and "next_request_id (rt_ai rt) \<noteq> - 1" and "rt_call_wf c"
    and "rt_dispatch env now origin c rt = (Inr r, rt')"
  shows "rt_inv env rt'"
proof (cases c)
  case (QxKiltPermissions x)
  with assms show ?thesis
    by (auto simp: rt_inv_def env_ok_def split: prod.splits intro: kilt_dispatch_inv)
next
  case (QxAi x)
  with assms show ?thesis
    by (auto simp: rt_inv_def split: prod.splits intro: ai_dispatch_inv)
next
  case (QxFaucet x)
  with assms faucet_dispatch_inv [of "faucet_config_of env" "(rt_faucet rt, rt_ledger rt)"] show ?thesis
    by (fastforce simp: rt_inv_def split: prod.splits)
qed (use assms in \<open>auto simp: rt_inv_def split: prod.splits\<close>)

lemma rt_dispatch_kilt_inv:
  assumes "env_ok env" and "kilt_inv (kilt_config_of env) (rt_kilt rt)"
    and "rt_dispatch env now origin c rt = (Inr r, rt')"
  shows "kilt_inv (kilt_config_of env) (rt_kilt rt')"
  using assms by (cases c) (auto simp: env_ok_def split: prod.splits intro: kilt_dispatch_inv)

lemma rt_dispatch_used:
  assumes "next_request_id (rt_ai rt) \<noteq> - 1" and "rt_dispatch env now origin c rt = (Inr r, rt')"
  shows "unat (next_request_id (rt_ai rt')) \<le> Suc (unat (next_request_id (rt_ai rt)))"
  using assms by (cases c) (auto split: prod.splits dest: ai_dispatch_used)

interpretation rt_sys: counted_calls
  "\<lambda>(now, origin, c). rt_dispatch env now origin c"
  "\<lambda>(now, origin, c). rt_call_wf c"
  "\<lambda>rt. env_ok env \<and> rt_inv env rt"
  "\<lambda>rt. next_request_id (rt_ai rt) \<noteq> - 1"
  "\<lambda>rt. unat (next_request_id (rt_ai rt))"
  "2 ^ 32 - 1"
  for env :: "('o, 'c) env"
  by unfold_locales (auto simp: unat_max_word intro: rt_dispatch_inv rt_dispatch_used)

section \<open>Workers without a credential are locked out\<close>

text \<open>Every AI call by the account \<open>a\<close> as a worker, and every request to it, fails and writes nothing.\<close>

definition locked_out :: "('o, 'c) env \<Rightarrow> u32 \<Rightarrow> 'c runtime \<Rightarrow> account_id \<Rightarrow> bool" where
  "locked_out env now rt a \<longleftrightarrow>
     (\<forall>origin. ensure_signed (env_frame env) origin = Inr a \<longrightarrow>
        (\<forall>online. \<exists>e. rt_dispatch env now origin (QxAi (UpdateAIWorkerStatus online)) rt = (Inl e, rt)) \<and>
        (\<forall>rid out. \<exists>e. rt_dispatch env now origin (QxAi (SubmitInference rid out)) rt = (Inl e, rt))) \<and>
     (\<forall>origin p tokens. \<exists>e. rt_dispatch env now origin (QxAi (SubmitRequest a p tokens)) rt = (Inl e, rt))"

lemma uncredentialed_writes_nothing:
  assumes "\<And>did. \<not> credentialed kp a did"
  shows "ensure_signed fw origin = Inr a \<Longrightarrow> \<exists>e. update_ai_worker_status fw kp origin online s = (Inl e, s)"
    and "ensure_signed fw origin = Inr a \<Longrightarrow> \<exists>e. submit_inference fw kp now origin rid out s = (Inl e, s)"
    and "\<exists>e. submit_request fw kp mq now origin a p tokens s = (Inl e, s)"
  using assms
  by (auto simp: update_ai_worker_status_def submit_inference_def submit_request_def credentialed_def Let_def
      split: sum.splits)

lemma default_post_info_Inl [simp]: "default_post_info (Inl e, s) = (Inl e, s)"
  by (simp add: default_post_info_def)

lemma locked_out_iff_uncredentialed:
  assumes "\<And>did. \<not> credentialed (KiltPermissionsImpl (kilt_config_of env) (rt_kilt rt) now) a did"
  shows "locked_out env now rt a"
proof -
  let ?fw = "env_frame env" and ?kp = "KiltPermissionsImpl (kilt_config_of env) (rt_kilt rt) now"
  note dead = uncredentialed_writes_nothing [where fw = ?fw and s = "rt_ai rt", OF assms]
  have "\<exists>e. rt_dispatch env now origin (QxAi (UpdateAIWorkerStatus online)) rt = (Inl e, rt)"
    and "\<exists>e. rt_dispatch env now origin (QxAi (SubmitInference rid out)) rt = (Inl e, rt)"
    if "ensure_signed ?fw origin = Inr a" for origin online rid out
    using dead(1) [OF that, of online] dead(2) [OF that, of now rid out] by auto
  moreover have "\<exists>e. rt_dispatch env now origin (QxAi (SubmitRequest a p tokens)) rt = (Inl e, rt)"
    for origin p tokens
    using dead(3) [of MaxQueueSize now origin p tokens] by auto
  ultimately show ?thesis unfolding locked_out_def by blast
qed

subsection \<open>After a revocation\<close>

fun rt_issues_for :: "did_identifier \<Rightarrow> 'c runtime_call \<Rightarrow> bool" where
  "rt_issues_for d (QxKiltPermissions c) \<longleftrightarrow> issues_for d c"
| "rt_issues_for d _ \<longleftrightarrow> False"

definition revoked_did :: "('o, 'c) env \<Rightarrow> account_id \<Rightarrow> did_identifier \<Rightarrow> 'c runtime \<Rightarrow> bool" where
  "revoked_did env a d rt \<longleftrightarrow>
     kilt_inv (kilt_config_of env) (rt_kilt rt) \<and> account_to_did (rt_kilt rt) a = Some d \<and>
     worker_credentials (rt_kilt rt) d = None"

lemma revoked_locked_out: "revoked_did env a d rt \<Longrightarrow> locked_out env now rt a"
  by (rule locked_out_iff_uncredentialed)
    (auto simp: revoked_did_def credentialed_def KiltPermissionsImpl_def get_worker_did_def verify_worker_credential_def)

lemma rt_dispatch_revoked:
  assumes "env_ok env" and "revoked_did env a d rt" and "\<not> rt_issues_for d c"
    and "rt_dispatch env now origin c rt = (Inr r, rt')"
  shows "revoked_did env a d rt'"
proof (cases c)
  case (QxKiltPermissions x)
  with assms(4) have k: "kilt_dispatch (env_frame env) (kilt_config_of env) now origin x (rt_kilt rt) = (Inr (), rt_kilt rt')"
    by (auto split: prod.splits)
  with assms(1-3) QxKiltPermissions show ?thesis
    by (auto simp: revoked_did_def env_ok_def intro: kilt_dispatch_inv kilt_dispatch_account_to_did kilt_dispatch_no_issue)
qed (use assms in \<open>auto simp: revoked_did_def split: prod.splits\<close>)

text \<open>Nobody else takes a request out of its queue.\<close>

lemma rt_dispatch_revoked_queue:
  assumes "revoked_did env a d rt" and "rt_dispatch env now origin c rt = (Inr r, rt')"
  shows "set (queue_of (rt_ai rt) a) \<subseteq> set (queue_of (rt_ai rt') a)"
proof (cases c)
  case (QxAi x)
  let ?kp = "KiltPermissionsImpl (kilt_config_of env) (rt_kilt rt) now"
  have dead: "\<not> credentialed ?kp a did" for did
    using assms(1) by (auto simp: revoked_did_def credentialed_def KiltPermissionsImpl_def get_worker_did_def verify_worker_credential_def)
  from QxAi assms(2) have d: "ai_dispatch (env_frame env) ?kp MaxQueueSize now origin x (rt_ai rt) = (Inr r, rt_ai rt')"
    by (auto split: prod.splits)
  show ?thesis
  proof (cases x)
    case (SubmitInference rid out)
    with d dead show ?thesis by (auto simp: ai_ok_iffs completed_by_queue_of)
  next
    case (SubmitRequest w p tokens)
    with d show ?thesis by (auto simp: ai_ok_iffs enqueued_queue_of)
  qed (use d in \<open>auto simp: ai_ok_iffs queue_of_def\<close>)
qed (use assms(2) in \<open>auto split: prod.splits\<close>)

interpretation rt_revoked: guarded_calls
  "\<lambda>(now, origin, c). rt_dispatch env now origin c"
  "\<lambda>(_, _, c). \<not> rt_issues_for d c"
  "\<lambda>rt. env_ok env \<and> revoked_did env a d rt \<and> Q \<subseteq> set (queue_of (rt_ai rt) a)"
  "\<lambda>_. True"
  for env :: "('o, 'c) env" and a d Q
  by unfold_locales (auto intro: rt_dispatch_revoked dest!: subsetD [OF rt_dispatch_revoked_queue, rotated 2])

subsection \<open>During a suspension\<close>

fun rt_suspends :: "did_identifier \<Rightarrow> 'c runtime_call \<Rightarrow> bool" where
  "rt_suspends d (QxKiltPermissions (SuspendWorker d' _)) \<longleftrightarrow> d' = d"
| "rt_suspends d _ \<longleftrightarrow> False"

definition suspended_did :: "('o, 'c) env \<Rightarrow> account_id \<Rightarrow> did_identifier \<Rightarrow> u32 \<Rightarrow> 'c runtime \<Rightarrow> bool" where
  "suspended_did env a d until rt \<longleftrightarrow>
     kilt_inv (kilt_config_of env) (rt_kilt rt) \<and>
     (\<exists>w. worker_dids (rt_kilt rt) a = Some w \<and> wd_did w = d \<and> wd_status w = Suspended until)"

lemma suspended_locked_out:
  assumes "env_ok env" and "suspended_did env a d until rt" and "no_collision (kilt_config_of env) (rt_kilt rt)"
    and "now \<le> until"
  shows "locked_out env now rt a"
proof -
  from assms(2) have inv: "kilt_inv (kilt_config_of env) (rt_kilt rt)"
    and "\<not> worker_authorised now (rt_kilt rt) a"
    using assms(4) by (auto simp: suspended_did_def worker_authorised_def split: option.splits)
  then have "\<not> credentialed (KiltPermissionsImpl (kilt_config_of env) (rt_kilt rt) now) a did" for did
    using kilt_oracle.vouch_authorised [of "kilt_config_of env" "rt_kilt rt" now a] assms(1,3)
    by (auto simp: env_ok_def)
  then show ?thesis by (rule locked_out_iff_uncredentialed)
qed

lemma kilt_dispatch_suspended:
  assumes "iter_ok cfg" and "kilt_inv cfg k" and "worker_dids k a = Some w"
    and "\<And>dur. c \<noteq> SuspendWorker (wd_did w) dur" and "kilt_dispatch fw cfg now origin c k = (Inr r, k')"
  shows "worker_dids k' a = Some w"
proof (cases c)
  case (SuspendWorker d dur)
  with assms(4) have "d \<noteq> wd_did w" by blast
  then have "fst x \<noteq> a" if "find_did d (worker_dids_iter cfg (worker_dids k)) = Some x" for x
    using find_did_sound [OF assms(1,2), of d "fst x" "snd x"] that assms(3) by auto
  with SuspendWorker assms(3,5) show ?thesis
    by (auto simp: suspend_worker_def suspend_loop_find Let_def split: sum.splits option.splits)
qed (use assms in \<open>auto simp: set_governance_did_def create_worker_did_def issue_worker_credential_def
      revoke_worker_credential_def Let_def split: sum.splits option.splits if_splits\<close>)

lemma rt_dispatch_suspended:
  assumes "env_ok env" and "suspended_did env a d until rt" and "\<not> rt_suspends d c"
    and "rt_dispatch env now origin c rt = (Inr r, rt')"
  shows "suspended_did env a d until rt'"
proof (cases c)
  case (QxKiltPermissions x)
  with assms(4) have k: "kilt_dispatch (env_frame env) (kilt_config_of env) now origin x (rt_kilt rt) = (Inr (), rt_kilt rt')"
    by (auto split: prod.splits)
  from assms(2) obtain w where w: "worker_dids (rt_kilt rt) a = Some w" "wd_did w = d" "wd_status w = Suspended until"
    and inv: "kilt_inv (kilt_config_of env) (rt_kilt rt)"
    by (auto simp: suspended_did_def)
  from assms(3) QxKiltPermissions w(2) have "x \<noteq> SuspendWorker (wd_did w) dur" for dur by auto
  with kilt_dispatch_suspended [OF _ inv w(1) _ k] kilt_dispatch_inv [OF _ inv k] assms(1) w(2,3)
  show ?thesis by (simp add: suspended_did_def env_ok_def)
qed (use assms in \<open>auto simp: suspended_did_def split: prod.splits\<close>)

interpretation rt_suspended: guarded_calls
  "\<lambda>(now, origin, c). rt_dispatch env now origin c"
  "\<lambda>(_, _, c). \<not> rt_suspends d c"
  "\<lambda>rt. env_ok env \<and> suspended_did env a d until rt"
  "\<lambda>_. True"
  for env :: "('o, 'c) env" and a d until
  by unfold_locales (auto intro: rt_dispatch_suspended)

end
