(* ===== verification/Runtime_Properties.thy ===== *)
theory Runtime_Properties
  imports Runtime "HOL-Library.List_Lexorder"
begin

text \<open>
  Properties that span the pallets: the joint invariant, who may act on the AI pallet, what
  revocation and suspension stop, the onboarding of a worker from its registration to its first
  answer, and the faucet with the runtime's constants. The witnesses run the runtime with short byte
  strings as accounts; an account's hash is the account itself, which \<open>generate_did\<close> pads to 32 bytes.
\<close>

section \<open>The instance the witnesses use\<close>

definition raw_env :: "(account_id raw_origin, account_id \<Rightarrow> u128) env" where
  "raw_env = \<lparr>env_frame = raw_frame, env_hash = (\<lambda>a. a), env_iter = key_order_iter,
     env_currency = plain_ledger EXISTENTIAL_DEPOSIT\<rparr>"

lemma raw_env_simps [simp]:
  "env_frame raw_env = raw_frame"
  "env_currency raw_env = plain_ledger EXISTENTIAL_DEPOSIT"
  "env_ok raw_env"
  "generate_did (kilt_config_of raw_env) [x] = x # replicate 31 0"
  by (simp_all add: raw_env_def env_ok_def iter_ok_def kilt_config_of_def storage_iter_key_order
      generate_did_def numeral_eq_Suc)

text \<open>The runtime before anything has happened, with nobody endowed.\<close>

definition raw_rt :: "(account_id \<Rightarrow> u128) runtime" where
  "raw_rt = rt_genesis (\<lambda>_. 0)"

lemma raw_rt_ok [simp]: "rt_inv env raw_rt" "no_collision cfg (rt_kilt raw_rt)" "worker_dids (rt_kilt raw_rt) a = None"
    "worker_credentials (rt_kilt raw_rt) d = None"
  by (simp_all add: raw_rt_def rt_inv_genesis) (simp_all add: no_collision_def rt_genesis_def kilt_genesis_def)

lemma rt_genesis_counter: "unat (next_request_id (rt_ai (rt_genesis l))) = 0"
  by (simp add: rt_genesis_def ai_genesis_def)

section \<open>Consistency\<close>

text \<open>
  C7: From genesis on, whatever calls come from whatever origins at whatever blocks, up to
  \<open>2 ^ 32 - 1\<close> of them, the storages of the three pallets stay consistent: every registered account's
  DID is the one generated from it, every worker's queue lists exactly its queued requests, and the
  faucet's counters are the claims it paid.
\<close>

theorem runtime_consistent:
  fixes env :: "('o, 'c) env"
  assumes "storage_layer layer" and "env_ok env"
    and "\<forall>(now, origin, c)\<in>set calls. rt_call_wf c" and "length calls \<le> 2 ^ 32 - 1"
    and "rt = run_calls layer (\<lambda>(now, origin, c). rt_dispatch env now origin c) calls (rt_genesis l)"
  shows "(\<forall>a w. worker_dids (rt_kilt rt) a = Some w \<longrightarrow> wd_account w = a \<and>
            wd_did w = generate_did (kilt_config_of env) a \<and> account_to_did (rt_kilt rt) a = Some (wd_did w)) \<and>
    (\<forall>a. set (queue_of (rt_ai rt) a) = pending (rt_ai rt) a \<and> length (queue_of (rt_ai rt) a) \<le> 100) \<and>
    (\<forall>a. claim_amounts a (faucet_events (rt_faucet rt)) =
            replicate (unat (claim_count_get (rt_faucet rt) a)) FaucetDripAmount \<and>
          unat (claim_count_get (rt_faucet rt) a) \<le> 5)"
proof -
  have "rt_inv env rt"
    using rt_sys.run_keeps_counted [where env = env and s = "rt_genesis l", OF assms(1) _ assms(3)]
      assms(2,4) rt_inv_genesis [of env l] unfolding assms(5) rt_genesis_counter by simp
  then have kilt: "kilt_inv (kilt_config_of env) (rt_kilt rt)" and ai: "ai_inv (unat MaxQueueSize) (rt_ai rt)"
    and fau: "faucet_inv (faucet_config_of env) (rt_faucet rt)"
    by (simp_all add: rt_inv_def)
  have "wd_account w = a \<and> wd_did w = generate_did (kilt_config_of env) a \<and>
      account_to_did (rt_kilt rt) a = Some (wd_did w)" if "worker_dids (rt_kilt rt) a = Some w" for a w
    using kilt_inv_record [OF kilt that] that by (simp add: worker_record_ok_def kilt_inv_account_to_did [OF kilt])
  moreover have "set (queue_of (rt_ai rt) a) = pending (rt_ai rt) a \<and> length (queue_of (rt_ai rt) a) \<le> 100" for a
    using ai by (simp add: ai_inv_def queues_ok_def MaxQueueSize_def)
  moreover have "claim_amounts a (faucet_events (rt_faucet rt)) =
      replicate (unat (claim_count_get (rt_faucet rt) a)) FaucetDripAmount \<and>
      unat (claim_count_get (rt_faucet rt) a) \<le> 5" for a
    using fau by (simp add: faucet_inv_def faucet_config_of_def FaucetMaxClaims_def word_le_nat_alt)
  ultimately show ?thesis by blast
qed

text \<open>Registration, a credential, a request, and a claim from an empty pot.\<close>

definition raw_calls :: "(u32 \<times> account_id raw_origin \<times> (account_id \<Rightarrow> u128) runtime_call) list" where
  "raw_calls = [(3, Signed [7], QxKiltPermissions (CreateWorkerDid [65] [])),
     (4, Root, QxKiltPermissions (IssueWorkerCredential (7 # replicate 31 0) [0] None)),
     (5, Signed [2], QxAi (SubmitRequest [7] [80] 9)),
     (6, Unsigned, QxFaucet (Claim [2]))]"

theorem runtime_consistent_witness:
  "\<exists>rt. rt = run_calls commit_or_discard (\<lambda>(now, origin, c). rt_dispatch raw_env now origin c) raw_calls
         (rt_genesis (\<lambda>_. 0)) \<and>
     (\<forall>a. set (queue_of (rt_ai rt) a) = pending (rt_ai rt) a)"
proof -
  have wf: "\<forall>(now, origin, c)\<in>set raw_calls. rt_call_wf c" and n: "length raw_calls \<le> 2 ^ 32 - 1"
    by (simp_all add: raw_calls_def)
  show ?thesis
    using runtime_consistent [where env = raw_env and l = "\<lambda>_. 0",
        OF storage_layer_commit_or_discard raw_env_simps(3) wf n refl] by blast
qed

section \<open>Who may act\<close>

text \<open>
  C1: On a consistent runtime in which no two registered accounts share a DID, the AI calls of a signed
  account succeed exactly under these conditions: a worker may set its status if it is authorised,
  that is registered, with a credential that has not expired, and not suspended; it may answer the
  requests in its own queue, and no others, under the same condition; and anybody may send a request
  to a worker that is authorised and has fewer than 100 requests waiting.
\<close>

theorem only_authorised_workers:
  assumes "env_ok env" and "rt_inv env rt" and "no_collision (kilt_config_of env) (rt_kilt rt)"
    and "ensure_signed (env_frame env) origin = Inr who"
  shows "((\<exists>rt'. rt_dispatch env now origin (QxAi (UpdateAIWorkerStatus online)) rt = (Inr Pays_No, rt')) \<longleftrightarrow>
        worker_authorised now (rt_kilt rt) who) \<and>
    ((\<exists>rt'. rt_dispatch env now origin (QxAi (SubmitInference rid out)) rt = (Inr Pays_No, rt')) \<longleftrightarrow>
        worker_authorised now (rt_kilt rt) who \<and> rid \<in> set (queue_of (rt_ai rt) who)) \<and>
    ((\<exists>rt'. rt_dispatch env now origin (QxAi (SubmitRequest worker p tokens)) rt = (Inr Pays_Yes, rt')) \<longleftrightarrow>
        worker_authorised now (rt_kilt rt) worker \<and> length (queue_of (rt_ai rt) worker) < 100)"
proof -
  let ?fw = "env_frame env" and ?cfg = "kilt_config_of env" and ?k = "rt_kilt rt" and ?s = "rt_ai rt"
  have k: "iter_ok ?cfg \<and> kilt_inv ?cfg ?k \<and> no_collision ?cfg ?k"
    using assms(1-3) by (simp add: env_ok_def rt_inv_def)
  have q: "rid \<in> set (queue_of ?s who) \<longleftrightarrow>
      (\<exists>req. inference_requests ?s rid = Some req \<and> target_worker req = who \<and> req_status req = Queued)"
    using assms(2) by (simp add: rt_inv_def ai_inv_def queues_ok_def pending_def)
  have run: "(\<exists>rt'. rt_dispatch env now origin (QxAi c) rt = (Inr pay, rt')) \<longleftrightarrow>
      (\<exists>s'. ai_dispatch ?fw (KiltPermissionsImpl ?cfg ?k now) MaxQueueSize now origin c ?s = (Inr pay, s'))" for c pay
    by (auto split: prod.splits)
  have full: "length (queue_of ?s worker) < unat MaxQueueSize \<longleftrightarrow> length (queue_of ?s worker) < 100"
    by (simp add: MaxQueueSize_def)
  show ?thesis
    unfolding run q ai_dispatch.simps default_post_info_Inr full [symmetric]
      kilt_oracle.status_update_iff [OF k assms(4)] kilt_oracle.submit_inference_iff [OF k assms(4)]
      simp_thms kilt_oracle.submit_request_iff [OF k assms(4)]
    by simp
qed

theorem only_authorised_workers_witness:
  "\<not> (\<exists>rt'. rt_dispatch raw_env 3 (Signed [7]) (QxAi (UpdateAIWorkerStatus True)) raw_rt = (Inr Pays_No, rt'))"
proof -
  have "ensure_signed (env_frame raw_env) (Signed [7]) = Inr [7]" by simp
  moreover have "\<not> worker_authorised 3 (rt_kilt raw_rt) [7]"
    by (simp add: worker_authorised_def)
  ultimately show ?thesis
    using only_authorised_workers [OF raw_env_simps(3) raw_rt_ok(1) raw_rt_ok(2)] by blast
qed

text \<open>
  C8: Every call of the runtime, whatever it returns, moves the market of jobs by a step of its rules,
  with the KILT pallet's registered, certified and unsuspended workers as the authorised ones; calls
  without a signature leave the market alone.
\<close>

theorem runtime_refines_market:
  assumes "storage_layer layer" and "env_ok env" and "rt_inv env rt"
    and "no_collision (kilt_config_of env) (rt_kilt rt)"
  shows "case ensure_signed (env_frame env) origin of
      Inr who \<Rightarrow> market_step (worker_authorised now (rt_kilt rt)) who (market_of (rt_ai rt))
                    (market_of (rt_ai (snd (layer (rt_dispatch env now origin c) rt))))
    | Inl _ \<Rightarrow> market_of (rt_ai (snd (layer (rt_dispatch env now origin c) rt))) = market_of (rt_ai rt)"
proof (cases "fst (rt_dispatch env now origin c rt)")
  case (Inl e)
  then show ?thesis using assms(1) by (auto simp: layering intro: ms_idle split: sum.splits)
next
  case (Inr r)
  let ?rt = "snd (rt_dispatch env now origin c rt)"
  from Inr have ok: "rt_dispatch env now origin c rt = (Inr r, ?rt)" by (simp add: prod_eq_iff)
  from Inr assms(1) have l: "snd (layer (rt_dispatch env now origin c) rt) = ?rt" by (simp add: layering)
  show ?thesis
  proof (cases "\<exists>x. c = QxAi x")
    case True
    then obtain x where x: "c = QxAi x" ..
    with ok have d: "ai_dispatch (env_frame env) (KiltPermissionsImpl (kilt_config_of env) (rt_kilt rt) now)
        MaxQueueSize now origin x (rt_ai rt) = (Inr r, rt_ai ?rt)"
      by (auto split: prod.splits)
    have "iter_ok (kilt_config_of env) \<and> kilt_inv (kilt_config_of env) (rt_kilt rt) \<and>
        no_collision (kilt_config_of env) (rt_kilt rt)" and "ai_inv (unat MaxQueueSize) (rt_ai rt)"
      using assms(2-4) by (simp_all add: env_ok_def rt_inv_def)
    from kilt_oracle.signed_step [OF this _ d] ai_dispatch_unsigned_idle [OF _ d] show ?thesis
      unfolding l by (simp split: sum.splits)
  next
    case False
    with ok have "rt_ai ?rt = rt_ai rt" by (cases c) (auto split: prod.splits)
    then show ?thesis unfolding l by (simp add: ms_idle split: sum.splits)
  qed
qed

theorem runtime_refines_market_witness:
  "market_of (rt_ai (snd (commit_or_discard (rt_dispatch raw_env 3 Unsigned (QxFaucet (Claim [2]))) raw_rt))) =
     (\<lambda>_. Absent)"
proof -
  from runtime_refines_market [where origin = Unsigned and now = 3 and c = "QxFaucet (Claim [2])",
      OF storage_layer_commit_or_discard raw_env_simps(3) raw_rt_ok(1) raw_rt_ok(2)]
  have "market_of (rt_ai (snd (commit_or_discard (rt_dispatch raw_env 3 Unsigned (QxFaucet (Claim [2]))) raw_rt))) =
      market_of (rt_ai raw_rt)"
    by simp
  also have "\<dots> = (\<lambda>_. Absent)" by (simp add: market_of_def fun_eq_iff raw_rt_def rt_genesis_def ai_genesis_def)
  finally show ?thesis .
qed

section \<open>Errors\<close>

text \<open>The checks of the origin and the currency raise errors of their own, none of the QX pallets'.\<close>

definition origin_error :: "('o, 'a) frame \<Rightarrow> dispatch_error \<Rightarrow> bool" where
  "origin_error fw e \<longleftrightarrow> (\<exists>x. ensure_signed fw x = Inl e \<or> ensure_root fw x = Inl e \<or> ensure_none fw x = Inl e)"

definition foreign_errors :: "('o, 'c) env \<Rightarrow> bool" where
  "foreign_errors env \<longleftrightarrow> (\<forall>e. origin_error (env_frame env) e \<longrightarrow> e \<in> range Frame_Error) \<and>
     (\<forall>a b v k l l' e. transfer (env_currency env) a b v k l = (Inl e, l') \<longrightarrow> e \<in> range Frame_Error)"

lemma origin_errorI:
  "ensure_signed fw x = Inl e \<Longrightarrow> origin_error fw e" "ensure_root fw x = Inl e \<Longrightarrow> origin_error fw e"
  "ensure_none fw x = Inl e \<Longrightarrow> origin_error fw e"
  by (auto simp: origin_error_def)

lemma kilt_errors:
  assumes "kilt_dispatch fw cfg now origin c k = (Inl e, k')"
  shows "origin_error fw e \<or> e \<in> Kilt_Error ` {WorkerDIDAlreadyExists, InvalidBoundedVec}"
proof (cases c)
  case (CreateWorkerDid name description)
  with assms show ?thesis
    by (auto simp: create_worker_did_def Let_def intro: origin_errorI split: sum.splits option.splits if_splits)
qed (use assms in \<open>auto simp: set_governance_did_def issue_worker_credential_def revoke_worker_credential_def suspend_worker_def Let_def
    intro: origin_errorI split: sum.splits option.splits\<close>)

lemma default_post_info_Inl_iff: "default_post_info rs = (Inl e, s) \<longleftrightarrow> rs = (Inl e, s)"
  by (auto simp: default_post_info_def split: prod.splits sum.splits)

lemma ai_errors:
  assumes "ai_dispatch fw kp mq now origin c s = (Inl e, s')"
  shows "origin_error fw e \<or> (\<exists>a. kp_get_worker_did kp a = Inl e) \<or> (\<exists>d. kp_verify_worker_credential kp d = Inl e) \<or>
    e \<in> AI_Error ` {AI_WorkerDIDNotFound, InvalidWorkerCredential, AIWorkerQueueFull, RequestNotFound, RequestNotAssigned,
      RequestAlreadyAssigned}"
proof (cases c)
  case (SubmitRequest w p t)
  with assms show ?thesis
    by (auto simp: default_post_info_Inl_iff submit_request_def Let_def intro: origin_errorI
        split: sum.splits option.splits if_splits)
next
  case (SubmitInference rid out)
  with assms show ?thesis
    by (auto simp: submit_inference_def Let_def intro: origin_errorI split: sum.splits option.splits if_splits)
next
  case (UpdateAIWorkerStatus online)
  with assms show ?thesis
    by (auto simp: update_ai_worker_status_def intro: origin_errorI split: sum.splits if_splits)
next
  case (AddAllowedModel i name hash)
  with assms show ?thesis
    by (auto simp: default_post_info_Inl_iff add_allowed_model_def Let_def intro: origin_errorI split: sum.splits)
qed

lemma faucet_errors:
  assumes "faucet_dispatch fw cfg now origin c sl = (Inl e, sl')"
  shows "origin_error fw e \<or> (\<exists>a b v k l l'. transfer (fc_currency cfg) a b v k l = (Inl e, l')) \<or>
    e \<in> Faucet_Error ` {ClaimTooSoon, MaxClaimsReached, FaucetEmpty}"
proof (cases c)
  case (Claim a)
  with assms show ?thesis
    by (auto simp: claim_def Let_def intro: origin_errorI split: prod.splits sum.splits option.splits if_splits)
next
  case (FundFaucet v)
  with assms show ?thesis by (auto simp: fund_faucet_def Let_def intro: origin_errorI split: prod.splits sum.splits)
qed

lemma oracle_errors:
  "kp_get_worker_did (KiltPermissionsImpl cfg k now) a = Inl e \<Longrightarrow> e = Kilt_Error AccountHasNoDID"
  "kp_verify_worker_credential (KiltPermissionsImpl cfg k now) d = Inl e \<Longrightarrow> e = Kilt_Error WorkerCredentialNotFound"
  by (auto simp: KiltPermissionsImpl_def get_worker_did_def verify_worker_credential_def split: option.splits if_splits)

lemma errors_bounded:
  assumes "foreign_errors env" and "fst (rt_dispatch env now origin c rt) = Inl e" and "e \<notin> range Frame_Error"
  shows "case c of
      QxKiltPermissions _ \<Rightarrow> e \<in> Kilt_Error ` {WorkerDIDAlreadyExists, InvalidBoundedVec}
    | QxAi _ \<Rightarrow> e \<in> Kilt_Error ` {AccountHasNoDID, WorkerCredentialNotFound} \<union>
        AI_Error ` {AI_WorkerDIDNotFound, InvalidWorkerCredential, AIWorkerQueueFull, RequestNotFound, RequestNotAssigned,
          RequestAlreadyAssigned}
    | QxFaucet _ \<Rightarrow> e \<in> Faucet_Error ` {ClaimTooSoon, MaxClaimsReached, FaucetEmpty}
    | Other_Call _ \<Rightarrow> True"
proof (cases c)
  case (QxKiltPermissions x)
  with assms(2) obtain k' where "kilt_dispatch (env_frame env) (kilt_config_of env) now origin x (rt_kilt rt) = (Inl e, k')"
    by (auto simp: default_post_info_Inl_iff split: prod.splits)
  from kilt_errors [OF this] QxKiltPermissions assms(1,3) show ?thesis by (auto simp: foreign_errors_def)
next
  case (QxAi x)
  with assms(2) obtain s' where "ai_dispatch (env_frame env) (KiltPermissionsImpl (kilt_config_of env) (rt_kilt rt) now)
      MaxQueueSize now origin x (rt_ai rt) = (Inl e, s')"
    by (auto split: prod.splits)
  from ai_errors [OF this] QxAi assms(1,3) show ?thesis by (auto simp: foreign_errors_def dest: oracle_errors)
next
  case (QxFaucet x)
  with assms(2) obtain sl where "faucet_dispatch (env_frame env) (faucet_config_of env) now origin x (rt_faucet rt, rt_ledger rt) = (Inl e, sl)"
    by (auto simp: default_post_info_Inl_iff split: prod.splits)
  from faucet_errors [OF this] QxFaucet assms(1,3) show ?thesis by (auto simp: foreign_errors_def)
qed simp

lemma raw_env_foreign: "foreign_errors raw_env"
proof -
  have "e \<in> range Frame_Error" if "origin_error (raw_frame :: (account_id raw_origin, account_id) frame) e" for e
  proof -
    from that obtain x where "ensure_signed (raw_frame :: (account_id raw_origin, account_id) frame) x = Inl e \<or>
        ensure_root raw_frame x = Inl e \<or> ensure_none raw_frame x = Inl e"
      by (auto simp: origin_error_def)
    then show ?thesis by (cases x) (auto simp: raw_frame_def)
  qed
  moreover have "e \<in> range Frame_Error" if "transfer (plain_ledger EXISTENTIAL_DEPOSIT) a b v k l = (Inl e, l')" for a b :: account_id and v k l l' e
    using that by (auto simp: plain_ledger_def split: if_splits)
  ultimately show ?thesis unfolding foreign_errors_def raw_env_simps by blast
qed

section \<open>Revocation and suspension\<close>

text \<open>
  C16: Once the governance has revoked the credential of a registered worker, then after any further
  calls of anybody, short of issuing a credential for its DID again, the worker is locked out of the
  AI pallet: its own calls fail, requests to it fail, and none of them writes anything. The requests that
  waited in its queue are stranded there: nobody can answer or withdraw them.
\<close>

theorem revocation_locks_out:
  fixes env :: "('o, 'c) env"
  assumes "storage_layer layer" and "env_ok env" and "rt_inv env rt"
    and "ensure_root (env_frame env) origin = Inr ()" and "account_to_did (rt_kilt rt) a = Some d"
    and "\<forall>(now, origin, c)\<in>set calls. \<not> rt_issues_for d c"
    and "rt' = run_calls layer (\<lambda>(now, origin, c). rt_dispatch env now origin c)
           ((t, origin, QxKiltPermissions (RevokeWorkerCredential d)) # calls) rt"
  shows "locked_out env now rt' a \<and> set (queue_of (rt_ai rt) a) \<subseteq> set (queue_of (rt_ai rt') a)"
proof -
  let ?k = "kilt_deposit (WorkerCredentialRevoked d)
      (rt_kilt rt\<lparr>worker_credentials := (worker_credentials (rt_kilt rt))(d := None)\<rparr>)"
  let ?rt = "rt\<lparr>rt_kilt := ?k\<rparr>"
  have d: "rt_dispatch env t origin (QxKiltPermissions (RevokeWorkerCredential d)) rt = (Inr Pays_Yes, ?rt)"
    using assms(4) by (simp add: revoke_worker_credential_def default_post_info_def)
  then have rt': "rt' = run_calls layer (\<lambda>(now, origin, c). rt_dispatch env now origin c) calls ?rt"
    using assms(1,7) by (simp add: layer_Inr)
  have "kilt_inv (kilt_config_of env) ?k"
    using assms(3) by (auto simp: rt_inv_def kilt_inv_def)
  then have "revoked_did env a d ?rt"
    using assms(5) by (simp add: revoked_did_def)
  with rt_revoked.run_keeps_guarded [where env = env and d = d and a = a and s = ?rt and Q = "set (queue_of (rt_ai rt) a)",
      OF assms(1) _ _ TrueI] assms(2,6)
  have "revoked_did env a d rt'" and "set (queue_of (rt_ai rt) a) \<subseteq> set (queue_of (rt_ai rt') a)" unfolding rt' by simp_all
  then show ?thesis using revoked_locked_out by blast
qed

text \<open>A runtime in which account [7] is registered and certified for good.\<close>

definition raw_certified :: "(account_id \<Rightarrow> u128) runtime" where
  "raw_certified = run_calls commit_or_discard (\<lambda>(now, origin, c). rt_dispatch raw_env now origin c)
     [(3, Signed [7], QxKiltPermissions (CreateWorkerDid [65] [])),
      (4, Root, QxKiltPermissions (IssueWorkerCredential (7 # replicate 31 0) [0] None))] raw_rt"

lemma raw_certified_kilt:
  "worker_dids (rt_kilt raw_certified) = [[7] \<mapsto> \<lparr>wd_did = 7 # replicate 31 0, wd_account = [7],
      wd_metadata = \<lparr>wm_name = [65], wm_description = [], wm_registered_at = 3\<rparr>, wd_status = Active\<rparr>]"
  "account_to_did (rt_kilt raw_certified) = [[7] \<mapsto> 7 # replicate 31 0]"
  "worker_credentials (rt_kilt raw_certified) = [7 # replicate 31 0 \<mapsto> \<lparr>cr_issuer = replicate 32 0,
      cr_subject = 7 # replicate 31 0, cr_models = [0], cr_issued_at = 4, cr_expires_at = None\<rparr>]"
  by (simp_all add: raw_certified_def commit_or_discard_def create_worker_did_def issue_worker_credential_def
      bounded_try_from_def default_post_info_def raw_rt_def rt_genesis_def kilt_genesis_def Let_def)

lemma raw_certified_inv: "rt_inv raw_env raw_certified"
proof -
  let ?calls = "[(3 :: u32, Signed [7 :: u8], QxKiltPermissions (CreateWorkerDid [65] [])),
      (4, Root, QxKiltPermissions (IssueWorkerCredential (7 # replicate 31 0) [0] None))]
      :: (u32 \<times> account_id raw_origin \<times> (account_id \<Rightarrow> u128) runtime_call) list"
  have "\<forall>(now, origin, c)\<in>set ?calls. rt_call_wf c" by simp
  from rt_sys.run_keeps_counted [where env = raw_env and s = raw_rt, OF storage_layer_commit_or_discard _ this]
  show ?thesis
    unfolding raw_certified_def [symmetric] by (simp add: raw_rt_def rt_genesis_counter rt_inv_genesis)
qed

theorem revocation_locks_out_witness:
  "locked_out raw_env 9 (run_calls commit_or_discard (\<lambda>(now, origin, c). rt_dispatch raw_env now origin c)
     [(5, Root, QxKiltPermissions (RevokeWorkerCredential (7 # replicate 31 0))),
      (6, Signed [7], QxKiltPermissions (CreateWorkerDid [66] []))] raw_certified) [7]"
proof -
  have "ensure_root (env_frame raw_env) Root = Inr ()"
    and "account_to_did (rt_kilt raw_certified) [7] = Some (7 # replicate 31 0)"
    by (simp_all add: raw_certified_kilt)
  then show ?thesis
    by (rule revocation_locks_out [OF storage_layer_commit_or_discard raw_env_simps(3) raw_certified_inv _ _ _ refl, THEN conjunct1]) simp
qed

text \<open>
  C17: Once the governance has suspended a registered worker at block \<open>t\<close>, for the given number of
  blocks or else for a day of 14400 blocks, the worker is locked out of the AI pallet up to and
  including block \<open>t\<close> plus that number, whatever anybody calls in between, a new credential
  included; only another suspension of the same DID can change this.
\<close>

theorem suspension_locks_out:
  fixes env :: "('o, 'c) env"
  assumes "storage_layer layer" and "env_ok env" and "rt_inv env rt"
    and "no_collision (kilt_config_of env) (rt_kilt rt)"
    and "ensure_root (env_frame env) origin = Inr ()" and "worker_dids (rt_kilt rt) a = Some w"
    and "\<forall>(now, origin, c)\<in>set calls. \<not> rt_suspends (wd_did w) c"
    and "rt' = run_calls layer (\<lambda>(now, origin, c). rt_dispatch env now origin c)
           ((t, origin, QxKiltPermissions (SuspendWorker (wd_did w) duration)) # calls) rt"
    and "no_collision (kilt_config_of env) (rt_kilt rt')"
    and "unat now \<le> min (unat t + (case duration of None \<Rightarrow> 14400 | Some n \<Rightarrow> unat n)) (2 ^ 32 - 1)"
  shows "locked_out env now rt' a"
proof -
  let ?until = "saturating_add t (case duration of None \<Rightarrow> worker_suspension_period (kilt_config_of env) | Some n \<Rightarrow> n)"
  let ?k = "kilt_deposit (WorkerSuspended (wd_did w) ?until)
      (rt_kilt rt\<lparr>worker_dids := (worker_dids (rt_kilt rt))(a \<mapsto> w\<lparr>wd_status := Suspended ?until\<rparr>)\<rparr>)"
  let ?rt = "rt\<lparr>rt_kilt := ?k\<rparr>"
  from assms(2,3) have k: "iter_ok (kilt_config_of env)" "kilt_inv (kilt_config_of env) (rt_kilt rt)"
    by (simp_all add: env_ok_def rt_inv_def)
  have s: "suspend_worker (env_frame env) (kilt_config_of env) t origin (wd_did w) duration (rt_kilt rt) = (Inr (), ?k)"
    using assms(5) suspend_dids [OF k assms(4,6)] by (simp add: suspend_worker_def Let_def)
  then have "kilt_inv (kilt_config_of env) ?k"
    using kilt_dispatch_inv [OF k, of "env_frame env" t origin "SuspendWorker (wd_did w) duration"] by simp
  then have "suspended_did env a (wd_did w) ?until ?rt" by (simp add: suspended_did_def)
  moreover have "rt' = run_calls layer (\<lambda>(now, origin, c). rt_dispatch env now origin c) calls ?rt"
    using assms(1,8) s by (simp add: layer_Inr default_post_info_def)
  ultimately have "suspended_did env a (wd_did w) ?until rt'"
    using rt_suspended.run_keeps_guarded [where env = env and s = ?rt, OF assms(1) _ _ TrueI] assms(2,7) by blast
  moreover have "now \<le> ?until"
    using assms(10) by (simp add: word_le_nat_alt saturation kilt_config_of_def DAYS_def HOURS_def MINUTES_def
        MILLI_SECS_PER_BLOCK_def split: option.splits)
  ultimately show ?thesis using suspended_locked_out [OF assms(2) _ assms(9)] by blast
qed

theorem suspension_locks_out_witness:
  "locked_out raw_env 14405 (run_calls commit_or_discard (\<lambda>(now, origin, c). rt_dispatch raw_env now origin c)
     [(5, Root, QxKiltPermissions (SuspendWorker (7 # replicate 31 0) None))] raw_certified) [7]"
proof -
  let ?rt = "run_calls commit_or_discard (\<lambda>(now, origin, c). rt_dispatch raw_env now origin c)
     [(5, Root, QxKiltPermissions (SuspendWorker (7 # replicate 31 0) None))] raw_certified"
  have nc: "no_collision (kilt_config_of raw_env) (rt_kilt raw_certified)"
    by (simp add: no_collision_def raw_certified_kilt)
  have w: "worker_dids (rt_kilt raw_certified) [7] = Some \<lparr>wd_did = 7 # replicate 31 0, wd_account = [7],
      wd_metadata = \<lparr>wm_name = [65], wm_description = [], wm_registered_at = 3\<rparr>, wd_status = Active\<rparr>"
    by (simp add: raw_certified_kilt)
  have "dom (worker_dids (rt_kilt ?rt)) = {[7]}"
    by (simp add: commit_or_discard_def default_post_info_def suspend_worker_def suspend_loop_find Let_def
        raw_certified_kilt raw_env_def kilt_config_of_def key_order_iter_def)
  then have "no_collision (kilt_config_of raw_env) (rt_kilt ?rt)" by (simp add: no_collision_def)
  with suspension_locks_out [where calls = "[]" and duration = None and t = 5 and now = 14405,
      OF storage_layer_commit_or_discard raw_env_simps(3) raw_certified_inv nc _ w]
  show ?thesis by simp
qed

end
