(* ===== verification/Loop_Cost.thy ===== *)
theory Loop_Cost
  imports Runtime_Properties
begin

text \<open>
  The two loops over \<open>WorkerDIDs\<close> and the weight of the calls that run them. How much a call reads is measured
  on the runtime's calls themselves: if other entries behind the first \<open>m\<close> that the storage hands out would give
  another outcome, then the call cannot know its outcome after \<open>m\<close> entries, and has to read on. In the code the
  loop of \<open>suspend_worker\<close> writes into the map it iterates over, but leaves the loop right after.
\<close>

section \<open>Outcomes that need the whole iteration\<close>

text \<open>The environment whose storage hands out the first \<open>m\<close> entries as before, and then \<open>ys\<close>.\<close>

definition after_prefix :: "('o, 'c) env \<Rightarrow> nat \<Rightarrow> (account_id \<times> account_id worker_did) list \<Rightarrow> ('o, 'c) env" where
  "after_prefix env m ys = env\<lparr>env_iter := (\<lambda>dids. take m (env_iter env dids) @ ys)\<rparr>"

definition undecided_after :: "nat \<Rightarrow> ('o, 'c) env \<Rightarrow> (('o, 'c) env \<Rightarrow> 'r) \<Rightarrow> bool" where
  "undecided_after m env outcome \<longleftrightarrow> (\<exists>ys. outcome (after_prefix env m ys) \<noteq> outcome env)"

lemma after_prefix_simps [simp]:
  "env_frame (after_prefix env m ys) = env_frame env"
  "worker_dids_iter (kilt_config_of (after_prefix env m ys)) = (\<lambda>dids. take m (env_iter env dids) @ ys)"
  by (simp_all add: after_prefix_def kilt_config_of_def)

lemma find_did_append: "find_did d (xs @ ys) = (case find_did d xs of None \<Rightarrow> find_did d ys | Some e \<Rightarrow> Some e)"
  by (induction xs) auto

text \<open>Suspending a DID that nobody has registered.\<close>

lemma suspend_undecided:
  assumes "ensure_root (env_frame env) root = Inr ()" and "worker_dids (rt_kilt rt) a = Some w"
    and "\<forall>e\<in>set (env_iter env (worker_dids (rt_kilt rt))). wd_did (snd e) \<noteq> d" and "wd_did w \<noteq> d"
  shows "undecided_after m env (\<lambda>env. worker_dids (rt_kilt (snd (rt_dispatch env now root (QxKiltPermissions (SuspendWorker d dur)) rt))))"
proof -
  let ?it = "env_iter env (worker_dids (rt_kilt rt))" and ?w = "w\<lparr>wd_did := d\<rparr>"
  have none: "find_did d xs = None" if "set xs \<subseteq> set ?it" for xs
    using that assms(3) unfolding find_None_iff by blast
  have t: "set (take m ?it) \<subseteq> set ?it" by (rule set_take_subset)
  let ?D = "\<lambda>env. worker_dids (rt_kilt (snd (rt_dispatch env now root (QxKiltPermissions (SuspendWorker d dur)) rt)))"
  have D: "?D env = worker_dids (rt_kilt rt)"
    using assms(1) none [of ?it]
    by (simp add: suspend_worker_def suspend_loop_find Let_def kilt_config_of_def default_post_info_def split: option.splits)
  have "?D (after_prefix env m [(a, ?w)]) a = Some (?w\<lparr>wd_status := Suspended (saturating_add now
      (case dur of None \<Rightarrow> worker_suspension_period (kilt_config_of (after_prefix env m [(a, ?w)])) | Some n \<Rightarrow> n))\<rparr>)"
    using assms(1) none [OF t]
    by (simp add: suspend_worker_def suspend_loop_find find_did_append Let_def default_post_info_def)
  with D assms(2,4) have "?D (after_prefix env m [(a, ?w)]) a \<noteq> ?D env a" by (cases w) auto
  then show ?thesis unfolding undecided_after_def by (intro exI [of _ "[(a, ?w)]"]) metis
qed

text \<open>Checking the credential of the worker that the storage hands out last.\<close>

lemma verify_blocked:
  assumes "get_worker_did (rt_kilt rt) a = Inr d" and "worker_credentials (rt_kilt rt) d = Some c"
    and "\<forall>e\<in>set (take m (env_iter env (worker_dids (rt_kilt rt)))). wd_did (snd e) \<noteq> d" and "wd_did w = d"
  shows "\<not> credentialed (KiltPermissionsImpl (kilt_config_of (after_prefix env m [(a, w\<lparr>wd_status := Suspended (- 1)\<rparr>)])) (rt_kilt rt) now) a did"
proof -
  have "find_did d (take m (env_iter env (worker_dids (rt_kilt rt)))) = None" using assms(3) by (auto simp: find_None_iff)
  with assms show ?thesis
    by (auto simp: credentialed_def KiltPermissionsImpl_def verify_unfold verify_loop_find find_did_append)
qed

lemma check_undecided:
  assumes "\<And>did. \<not> credentialed (KiltPermissionsImpl (kilt_config_of (after_prefix env m ys)) (rt_kilt rt) now) a did"
    and "ensure_signed (env_frame env) origin = Inr a"
    and "fst (rt_dispatch env now origin (QxAi (UpdateAIWorkerStatus online)) rt) = Inr u"
    and "fst (rt_dispatch env now other (QxAi (SubmitRequest a p tokens)) rt) = Inr v"
  shows "undecided_after m env (\<lambda>env. fst (rt_dispatch env now origin (QxAi (UpdateAIWorkerStatus online)) rt))"
    and "undecided_after m env (\<lambda>env. fst (rt_dispatch env now other (QxAi (SubmitRequest a p tokens)) rt))"
proof -
  have "locked_out (after_prefix env m ys) now rt a" by (rule locked_out_iff_uncredentialed) (rule assms(1))
  with assms(2) obtain e f where
    "fst (rt_dispatch (after_prefix env m ys) now origin (QxAi (UpdateAIWorkerStatus online)) rt) = Inl e"
    "fst (rt_dispatch (after_prefix env m ys) now other (QxAi (SubmitRequest a p tokens)) rt) = Inl f"
    unfolding locked_out_def after_prefix_simps by (metis fst_conv)
  with assms(3,4) show
    "undecided_after m env (\<lambda>env. fst (rt_dispatch env now origin (QxAi (UpdateAIWorkerStatus online)) rt))"
    "undecided_after m env (\<lambda>env. fst (rt_dispatch env now other (QxAi (SubmitRequest a p tokens)) rt))"
    unfolding undecided_after_def by (metis Inl_Inr_False)+
qed

section \<open>Registering many accounts\<close>

definition registrations :: "(account_id \<Rightarrow> 'o) \<Rightarrow> u32 \<Rightarrow> u8 list \<Rightarrow> u8 list \<Rightarrow> account_id list
    \<Rightarrow> (u32 \<times> 'o \<times> 'c runtime_call) list" where
  "registrations by_account t name description xs =
     map (\<lambda>a. (t, by_account a, QxKiltPermissions (CreateWorkerDid name description))) xs"

text \<open>A runtime in which the accounts of \<open>S\<close> have registered and nothing else has happened.\<close>

definition only_registered :: "('o, 'c) env \<Rightarrow> account_id set \<Rightarrow> 'c runtime \<Rightarrow> bool" where
  "only_registered env S rt \<longleftrightarrow> kilt_inv (kilt_config_of env) (rt_kilt rt) \<and> rt_ai rt = ai_genesis \<and>
     dom (worker_dids (rt_kilt rt)) = S \<and> (\<forall>a w. worker_dids (rt_kilt rt) a = Some w \<longrightarrow> wd_status w = Active)"

lemma only_registered_Cons:
  assumes "storage_layer layer" and "env_ok env" and "ensure_signed (env_frame env) origin = Inr a"
    and "length name \<le> 128" and "length description \<le> 512" and "only_registered env S rt" and "a \<notin> S"
  shows "only_registered env (insert a S)
    (snd (layer (rt_dispatch env t origin (QxKiltPermissions (CreateWorkerDid name description))) rt))"
proof -
  let ?d = "rt_dispatch env t origin (QxKiltPermissions (CreateWorkerDid name description)) rt"
  obtain r where ok: "?d = (Inr r, snd ?d)" and rt: "rt_ai (snd ?d) = rt_ai rt"
    "dom (worker_dids (rt_kilt (snd ?d))) = insert a (dom (worker_dids (rt_kilt rt)))"
    "\<forall>b w. worker_dids (rt_kilt (snd ?d)) b = Some w \<longrightarrow> worker_dids (rt_kilt rt) b = Some w \<or> wd_status w = Active"
    using assms(3-7) by (auto simp: create_worker_did_def bounded_try_from_def only_registered_def default_post_info_def Let_def)
  from assms(6) have "kilt_inv (kilt_config_of env) (rt_kilt (snd ?d))"
    using rt_dispatch_kilt_inv [OF assms(2) _ ok] by (simp add: only_registered_def)
  with rt assms(6) have "only_registered env (insert a S) (snd ?d)" unfolding only_registered_def by metis
  moreover have "snd (layer (rt_dispatch env t origin (QxKiltPermissions (CreateWorkerDid name description))) rt) = snd ?d"
    using layer_Inr [OF assms(1)] ok by (metis fst_conv)
  ultimately show ?thesis by simp
qed

lemma only_registered_run:
  assumes "storage_layer layer" and "env_ok env" and "\<And>a. ensure_signed (env_frame env) (by_account a) = Inr a"
    and "length name \<le> 128" and "length description \<le> 512"
  shows "only_registered env S rt \<Longrightarrow> distinct xs \<Longrightarrow> S \<inter> set xs = {} \<Longrightarrow>
    only_registered env (S \<union> set xs) (run_calls layer (\<lambda>(now, origin, c). rt_dispatch env now origin c)
      (registrations by_account t name description xs) rt)"
proof (induction xs arbitrary: S rt)
  case (Cons a xs)
  from only_registered_Cons [OF assms(1,2,3) assms(4,5) Cons.prems(1), of a t] Cons.prems(2,3)
    Cons.IH [of "insert a S" "snd (layer (rt_dispatch env t (by_account a) (QxKiltPermissions (CreateWorkerDid name description))) rt)"]
  show ?case by (simp add: registrations_def del: rt_dispatch.simps)
qed (simp add: registrations_def)

section \<open>A worker that is certified right after\<close>

lemma only_registered_certified:
  assumes "storage_layer layer" and "env_ok env" and "ensure_root (env_frame env) root = Inr ()"
    and "only_registered env S rt" and "inj_on (generate_did (kilt_config_of env)) S" and "a \<in> S"
    and "rt1 = snd (layer (rt_dispatch env t root
      (QxKiltPermissions (IssueWorkerCredential (generate_did (kilt_config_of env) a) [] None))) rt)"
  shows "rt_ai rt1 = ai_genesis" and "worker_dids (rt_kilt rt1) = worker_dids (rt_kilt rt)"
    and "kilt_inv (kilt_config_of env) (rt_kilt rt1)" and "no_collision (kilt_config_of env) (rt_kilt rt1)"
    and "get_worker_did (rt_kilt rt1) a = Inr (generate_did (kilt_config_of env) a)"
    and "\<exists>c. worker_credentials (rt_kilt rt1) (generate_did (kilt_config_of env) a) = Some c"
    and "worker_authorised now (rt_kilt rt1) a"
proof -
  let ?cfg = "kilt_config_of env"
  let ?d = "rt_dispatch env t root (QxKiltPermissions (IssueWorkerCredential (generate_did ?cfg a) [] None)) rt"
  obtain r c where ok: "?d = (Inr r, snd ?d)" and rt: "rt_ai (snd ?d) = rt_ai rt" "worker_dids (rt_kilt (snd ?d)) = worker_dids (rt_kilt rt)"
    and c: "worker_credentials (rt_kilt (snd ?d)) (generate_did ?cfg a) = Some c" "cr_expires_at c = None"
    using assms(3) by (auto simp: issue_worker_credential_def bounded_try_from_def default_post_info_def Let_def)
  have rt1: "rt1 = snd ?d" unfolding assms(7) using layer_Inr [OF assms(1)] ok by (metis fst_conv)
  show ai: "rt_ai rt1 = ai_genesis" and dids: "worker_dids (rt_kilt rt1) = worker_dids (rt_kilt rt)"
    and inv: "kilt_inv ?cfg (rt_kilt rt1)" and "no_collision ?cfg (rt_kilt rt1)"
    and "\<exists>c. worker_credentials (rt_kilt rt1) (generate_did ?cfg a) = Some c"
    using assms(4,5) rt c(1) rt_dispatch_kilt_inv [OF assms(2) _ ok] unfolding rt1 only_registered_def no_collision_def by auto
  from assms(4,6) obtain w where w: "worker_dids (rt_kilt rt1) a = Some w" "wd_status w = Active"
    unfolding dids only_registered_def by blast
  with kilt_inv_did [OF inv] kilt_inv_account_to_did [OF inv, of a] c
  show "get_worker_did (rt_kilt rt1) a = Inr (generate_did ?cfg a)" and "worker_authorised now (rt_kilt rt1) a"
    unfolding rt1 by (simp_all add: get_worker_did_def worker_authorised_def credential_live_def status_permits_def)
qed

lemma certified_calls_succeed:
  assumes "env_ok env" and "kilt_inv (kilt_config_of env) (rt_kilt rt)" and "no_collision (kilt_config_of env) (rt_kilt rt)"
    and "worker_authorised now (rt_kilt rt) a" and "rt_ai rt = ai_genesis"
    and "ensure_signed (env_frame env) origin = Inr a" and "ensure_signed (env_frame env) other = Inr b"
  shows "fst (rt_dispatch env now origin (QxAi (UpdateAIWorkerStatus online)) rt) = Inr Pays_No"
    and "fst (rt_dispatch env now other (QxAi (SubmitRequest a p tokens)) rt) = Inr Pays_Yes"
proof -
  from assms(1-3) have k: "iter_ok (kilt_config_of env) \<and> kilt_inv (kilt_config_of env) (rt_kilt rt) \<and>
      no_collision (kilt_config_of env) (rt_kilt rt)"
    by (simp add: env_ok_def)
  have "length (queue_of (rt_ai rt) a) < unat MaxQueueSize"
    unfolding assms(5) by (simp add: queue_of_def ai_genesis_def MaxQueueSize_def)
  with kilt_oracle.status_update_iff [OF k assms(6), of now online "rt_ai rt"] assms(4)
    kilt_oracle.submit_request_iff [OF k assms(7), of now MaxQueueSize a p tokens "rt_ai rt"]
  show "fst (rt_dispatch env now origin (QxAi (UpdateAIWorkerStatus online)) rt) = Inr Pays_No"
    and "fst (rt_dispatch env now other (QxAi (SubmitRequest a p tokens)) rt) = Inr Pays_Yes"
    by (auto simp: default_post_info_def)
qed

section \<open>What the storage hands out\<close>

lemma whole_iteration:
  assumes "env_ok env" and "kilt_inv (kilt_config_of env) (rt_kilt rt)" and "dom (worker_dids (rt_kilt rt)) = set xs" and "distinct xs"
  shows "length (env_iter env (worker_dids (rt_kilt rt))) = length xs"
    and "distinct (map fst (env_iter env (worker_dids (rt_kilt rt))))"
proof -
  have it: "storage_iter (env_iter env)" using assms(1) by (simp add: env_ok_def iter_ok_def kilt_config_of_def)
  note fin = kilt_inv_finite [OF assms(2)]
  show d: "distinct (map fst (env_iter env (worker_dids (rt_kilt rt))))" by (rule storage_iter_distinct [OF it fin])
  have "set (map fst (env_iter env (worker_dids (rt_kilt rt)))) = set xs"
    using storage_iter_map_of [OF it fin] assms(3) by (metis dom_map_of_conv_image_fst list.set_map)
  with d assms(4) show "length (env_iter env (worker_dids (rt_kilt rt))) = length xs" by (metis distinct_card length_map)
qed

lemma iterated_record:
  assumes "env_ok env" and "kilt_inv (kilt_config_of env) (rt_kilt rt)" and "dom (worker_dids (rt_kilt rt)) = S"
    and "(a, w) \<in> set (env_iter env (worker_dids (rt_kilt rt)))"
  shows "a \<in> S" and "wd_did w = generate_did (kilt_config_of env) a"
proof -
  have it: "storage_iter (env_iter env)" using assms(1) by (simp add: env_ok_def iter_ok_def kilt_config_of_def)
  from assms(4) have "worker_dids (rt_kilt rt) a = Some w" by (simp add: storage_iter_mem [OF it kilt_inv_finite [OF assms(2)]])
  with kilt_inv_did [OF assms(2)] assms(3) show "a \<in> S" and "wd_did w = generate_did (kilt_config_of env) a" by auto
qed

lemma suspend_unregistered:
  assumes "env_ok env" and "ensure_root (env_frame env) root = Inr ()" and "kilt_inv (kilt_config_of env) (rt_kilt rt)"
    and "dom (worker_dids (rt_kilt rt)) = set xs" and "xs \<noteq> []" and "d \<notin> generate_did (kilt_config_of env) ` set xs"
  shows "undecided_after m env (\<lambda>env. worker_dids (rt_kilt (snd (rt_dispatch env now root (QxKiltPermissions (SuspendWorker d dur)) rt))))"
proof -
  from assms(4,5) obtain w where w: "worker_dids (rt_kilt rt) (hd xs) = Some w" by (metis domD list.set_sel(1))
  moreover from w assms(4) have "hd xs \<in> set xs" by auto
  ultimately have "wd_did w \<noteq> d" using kilt_inv_did [OF assms(3) w] assms(6) by auto
  moreover have "\<forall>e\<in>set (env_iter env (worker_dids (rt_kilt rt))). wd_did (snd e) \<noteq> d"
    using iterated_record [OF assms(1,3,4)] assms(6) by (metis imageI prod.collapse)
  ultimately show ?thesis by (rule suspend_undecided [OF assms(2) w, rotated])
qed

lemma last_of_iteration:
  assumes "env_ok env" and "kilt_inv (kilt_config_of env) (rt_kilt rt)" and "dom (worker_dids (rt_kilt rt)) = set xs" and "distinct xs"
    and "inj_on (generate_did (kilt_config_of env)) (set xs)"
    and "env_iter env (worker_dids (rt_kilt rt)) \<noteq> []" and "last (env_iter env (worker_dids (rt_kilt rt))) = (a, w)"
  shows "a \<in> set xs" and "wd_did w = generate_did (kilt_config_of env) a"
    and "m < length xs \<Longrightarrow> \<forall>e\<in>set (take m (env_iter env (worker_dids (rt_kilt rt)))). wd_did (snd e) \<noteq> generate_did (kilt_config_of env) a"
proof -
  let ?it = "env_iter env (worker_dids (rt_kilt rt))" and ?g = "generate_did (kilt_config_of env)"
  note rec = iterated_record [OF assms(1-3)]
  have aw: "(a, w) \<in> set ?it" using assms(6,7) last_in_set by fastforce
  show a: "a \<in> set xs" and "wd_did w = ?g a" by (rule rec [OF aw])+
  have split: "?it = butlast ?it @ [(a, w)]" using assms(6,7) by (metis append_butlast_last_id)
  then have "distinct (map fst (butlast ?it @ [(a, w)]))" using whole_iteration(2) [OF assms(1-4)] by simp
  then have new: "a \<notin> fst ` set (butlast ?it)" by simp
  show "\<forall>e\<in>set (take m ?it). wd_did (snd e) \<noteq> ?g a" if "m < length xs"
  proof
    fix e assume "e \<in> set (take m ?it)"
    moreover have "take m ?it = take m (butlast ?it)"
      using that whole_iteration(1) [OF assms(1-4)] by (simp add: take_butlast)
    ultimately have e: "e \<in> set (butlast ?it)" by (metis in_set_takeD)
    then have "(fst e, snd e) \<in> set ?it" by (simp add: in_set_butlastD)
    from rec [OF this] have "fst e \<in> set xs" and "wd_did (snd e) = ?g (fst e)" .
    moreover from e new have "fst e \<noteq> a" by auto
    ultimately show "wd_did (snd e) \<noteq> ?g a" using assms(5) a by (metis inj_onD)
  qed
qed

text \<open>
  C26: The loops over the workers outgrow the weight of the calls that run them. Let any accounts register, and
  nothing else happen on the chain. Then the storage hands out one entry for each of them; suspending a DID that none
  of them has has an outcome that is still open after any smaller number of entries; and once the governance certifies
  the worker that happens to come last, so are the outcomes of its own status update and of a request sent to it, both of which succeed
  in the end. All these calls declare the same constant weight.
\<close>

theorem loops_outgrow_weight:
  fixes env :: "('o, 'c) env"
  assumes "storage_layer layer" and "env_ok env" and "\<And>a. ensure_signed (env_frame env) (by_account a) = Inr a"
    and "ensure_root (env_frame env) root = Inr ()" and "length name \<le> 128" and "length description \<le> 512"
    and "distinct xs" and "xs \<noteq> []" and "inj_on (generate_did (kilt_config_of env)) (set xs)"
    and "d \<notin> generate_did (kilt_config_of env) ` set xs"
    and "rt = run_calls layer (\<lambda>(now, origin, c). rt_dispatch env now origin c)
        (registrations by_account t name description xs) (rt_genesis l)"
  shows "length (env_iter env (worker_dids (rt_kilt rt))) = length xs \<and>
    (\<forall>m<length xs. undecided_after m env (\<lambda>env. worker_dids (rt_kilt (snd
        (rt_dispatch env now root (QxKiltPermissions (SuspendWorker d dur)) rt))))) \<and>
    (\<exists>a\<in>set xs. \<exists>rt1. rt1 = snd (layer (rt_dispatch env t root
          (QxKiltPermissions (IssueWorkerCredential (generate_did (kilt_config_of env) a) [] None))) rt) \<and>
        fst (rt_dispatch env now (by_account a) (QxAi (UpdateAIWorkerStatus online)) rt1) = Inr Pays_No \<and>
        fst (rt_dispatch env now (by_account b) (QxAi (SubmitRequest a p tokens)) rt1) = Inr Pays_Yes \<and>
        (\<forall>m<length xs.
           undecided_after m env (\<lambda>env. fst (rt_dispatch env now (by_account a) (QxAi (UpdateAIWorkerStatus online)) rt1)) \<and>
           undecided_after m env (\<lambda>env. fst (rt_dispatch env now (by_account b) (QxAi (SubmitRequest a p tokens)) rt1)))) \<and>
    di_ref_time (kilt_dispatch_info (SuspendWorker d dur)) = 10000 \<and>
    di_ref_time (ai_dispatch_info (UpdateAIWorkerStatus online :: account_id ai_call)) = 10000 \<and>
    di_ref_time (ai_dispatch_info (SubmitRequest b p tokens)) = 10000"
proof -
  let ?cfg = "kilt_config_of env" and ?it = "env_iter env (worker_dids (rt_kilt rt))"
  have "only_registered env {} (rt_genesis l)"
    by (simp add: only_registered_def rt_genesis_def kilt_inv_genesis) (simp add: kilt_genesis_def)
  from only_registered_run [OF assms(1-3,5,6) this assms(7)] have reg: "only_registered env (set xs) rt"
    unfolding assms(11) by simp
  then have inv: "kilt_inv ?cfg (rt_kilt rt)" and dom: "dom (worker_dids (rt_kilt rt)) = set xs"
    by (simp_all add: only_registered_def)
  note it = whole_iteration [OF assms(2) inv dom assms(7)]
  have open_suspend: "undecided_after m env (\<lambda>env. worker_dids (rt_kilt (snd
      (rt_dispatch env now root (QxKiltPermissions (SuspendWorker d dur)) rt))))" for m
    by (rule suspend_unregistered [OF assms(2,4) inv dom assms(8,10)])
  obtain a w where last: "last ?it = (a, w)" by fastforce
  from it(1) assms(8) have ne: "?it \<noteq> []" by auto
  from last_of_iteration [OF assms(2) inv dom assms(7,9) ne last] have a: "a \<in> set xs" and w: "wd_did w = generate_did ?cfg a"
    and early: "\<And>m. m < length xs \<Longrightarrow> \<forall>e\<in>set (take m ?it). wd_did (snd e) \<noteq> generate_did ?cfg a" by blast+
  define rt1 where "rt1 = snd (layer (rt_dispatch env t root
      (QxKiltPermissions (IssueWorkerCredential (generate_did ?cfg a) [] None))) rt)"
  note cert = only_registered_certified [OF assms(1,2,4) reg assms(9) a rt1_def]
  note ok = certified_calls_succeed [OF assms(2) cert(3,4,7,1) assms(3) assms(3)]
  from cert(6) obtain c where c: "worker_credentials (rt_kilt rt1) (generate_did ?cfg a) = Some c" ..
  have blocked: "\<not> credentialed (KiltPermissionsImpl (kilt_config_of (after_prefix env m [(a, w\<lparr>wd_status := Suspended (- 1)\<rparr>)])) (rt_kilt rt1) now) a did"
    if "m < length xs" for m did
    by (rule verify_blocked [OF cert(5) c _ w]) (use early [of m] that it(1) cert(2) in simp)
  note undecided = check_undecided [OF blocked assms(3) ok(1) ok(2)]
  show ?thesis
    by (intro conjI bexI [OF _ a] exI [of _ rt1] allI impI it(1) open_suspend rt1_def ok undecided) (simp_all add: weight_only_def)
qed

theorem loops_outgrow_weight_witness:
  "\<exists>rt. length (env_iter raw_env (worker_dids (rt_kilt rt))) = 2 \<and>
     undecided_after 1 raw_env (\<lambda>env. worker_dids (rt_kilt (snd
        (rt_dispatch env 9 Root (QxKiltPermissions (SuspendWorker [] None)) rt)))) \<and>
     (\<exists>a rt1. fst (rt_dispatch raw_env 9 (Signed a) (QxAi (UpdateAIWorkerStatus True)) rt1) = Inr Pays_No \<and>
        undecided_after 1 raw_env (\<lambda>env. fst (rt_dispatch env 9 (Signed a) (QxAi (UpdateAIWorkerStatus True)) rt1)) \<and>
        undecided_after 1 raw_env (\<lambda>env. fst (rt_dispatch env 9 (Signed [2]) (QxAi (SubmitRequest a [80] 9)) rt1)))"
proof -
  let ?rt = "run_calls commit_or_discard (\<lambda>(now, origin, c). rt_dispatch raw_env now origin c)
    (registrations Signed 1 [65] [] [[7], [8]]) (rt_genesis (\<lambda>_. 0))"
  have s: "ensure_signed (env_frame raw_env) (Signed a) = Inr a" for a by simp
  have r: "ensure_root (env_frame raw_env) Root = Inr ()" by simp
  have inj: "inj_on (generate_did (kilt_config_of raw_env)) (set [[7], [8]])" by (simp add: inj_on_def)
  have d: "[] \<notin> generate_did (kilt_config_of raw_env) ` set [[7], [8]]" by simp
  note cost = loops_outgrow_weight [OF storage_layer_commit_or_discard raw_env_simps(3) s r _ _ _ _ inj d refl,
      where name = "[65]" and description = "[]" and now = 9 and dur = None and t = 1 and l = "\<lambda>_. 0"
        and online = True and b = "[2]" and p = "[80]" and tokens = 9]
  have "length (env_iter raw_env (worker_dids (rt_kilt ?rt))) = length [[7 :: u8], [8]]" by (rule cost [THEN conjunct1]) simp_all
  moreover have "\<forall>m<length [[7 :: u8], [8]]. undecided_after m raw_env (\<lambda>env. worker_dids (rt_kilt (snd
      (rt_dispatch env 9 Root (QxKiltPermissions (SuspendWorker [] None)) ?rt))))"
    by (rule cost [THEN conjunct2, THEN conjunct1]) simp_all
  moreover have "\<exists>a rt1. fst (rt_dispatch raw_env 9 (Signed a) (QxAi (UpdateAIWorkerStatus True)) rt1) = Inr Pays_No \<and>
      (\<forall>m<length [[7 :: u8], [8]].
        undecided_after m raw_env (\<lambda>env. fst (rt_dispatch env 9 (Signed a) (QxAi (UpdateAIWorkerStatus True)) rt1)) \<and>
        undecided_after m raw_env (\<lambda>env. fst (rt_dispatch env 9 (Signed [2]) (QxAi (SubmitRequest a [80] 9)) rt1)))"
    using cost [THEN conjunct2, THEN conjunct2, THEN conjunct1] by (simp del: rt_dispatch.simps) blast
  ultimately show ?thesis by (intro exI [of _ ?rt] conjI) (simp_all del: rt_dispatch.simps, blast+)
qed

end
