(* ===== verification/Storage_Types.thy ===== *)
theory Storage_Types
  imports Runtime_Properties
begin

text \<open>
  The types of the storage. The model keeps Rust's fixed arrays and bounded vectors as lists, so their
  lengths are predicates here, one per struct and per pallet, with the bounds of the source. The calls'
  arguments are typed by the decoder before a call runs (\<open>rt_call_ty\<close>), except the two vectors of
  \<open>create_worker_did\<close> and the models of \<open>issue_worker_credential\<close>, which the code
  converts itself. The theorem is the soundness of these types: typed calls leave typed storage.
\<close>

section \<open>The structs\<close>

abbreviation did_ty :: "u8 list \<Rightarrow> bool" where "did_ty d \<equiv> length d = 32"

definition worker_did_ty :: "'a worker_did \<Rightarrow> bool" where
  "worker_did_ty w \<longleftrightarrow> did_ty (wd_did w) \<and>
     length (wm_name (wd_metadata w)) \<le> 128 \<and> length (wm_description (wd_metadata w)) \<le> 512"

definition credential_ty :: "ai_worker_credential \<Rightarrow> bool" where
  "credential_ty c \<longleftrightarrow> did_ty (cr_issuer c) \<and> did_ty (cr_subject c) \<and> length (cr_models c) \<le> 100"

definition allowed_model_ty :: "allowed_model \<Rightarrow> bool" where
  "allowed_model_ty m \<longleftrightarrow> length (model_name m) \<le> 128 \<and> length (model_hash m) \<le> 64"

definition request_ty :: "'a inference_request \<Rightarrow> bool" where
  "request_ty q \<longleftrightarrow> length (prompt q) \<le> 2048"

definition result_ty :: "'a inference_result \<Rightarrow> bool" where
  "result_ty x \<longleftrightarrow> did_ty (res_worker_did x) \<and> length (res_output x) \<le> 4096"

lemmas struct_types = worker_did_ty_def credential_ty_def allowed_model_ty_def request_ty_def result_ty_def

section \<open>The storage items\<close>

definition kilt_ty :: "'a kilt \<Rightarrow> bool" where
  "kilt_ty k \<longleftrightarrow> (\<forall>w\<in>ran (worker_dids k). worker_did_ty w) \<and>
     (\<forall>d c. worker_credentials k d = Some c \<longrightarrow> did_ty d \<and> credential_ty c) \<and>
     (\<forall>d\<in>ran (account_to_did k). did_ty d) \<and> did_ty (governance_did k)"

definition ai_ty :: "nat \<Rightarrow> 'a ai \<Rightarrow> bool" where
  "ai_ty mq s \<longleftrightarrow> (\<forall>m\<in>ran (allowed_models s). allowed_model_ty m) \<and>
     (\<forall>q\<in>ran (inference_requests s). request_ty q) \<and> (\<forall>x\<in>ran (inference_results s). result_ty x) \<and>
     (\<forall>q\<in>ran (ai_worker_queues s). length q \<le> mq)"

definition rt_ty :: "'c runtime \<Rightarrow> bool" where
  "rt_ty rt \<longleftrightarrow> kilt_ty (rt_kilt rt) \<and> ai_ty (unat MaxQueueSize) (rt_ai rt)"

text \<open>The decoded arguments of the calls.\<close>

fun kilt_call_ty :: "kilt_call \<Rightarrow> bool" where
  "kilt_call_ty (SetGovernanceDid d) \<longleftrightarrow> did_ty d"
| "kilt_call_ty (CreateWorkerDid _ _) \<longleftrightarrow> True"
| "kilt_call_ty (IssueWorkerCredential d _ _) \<longleftrightarrow> did_ty d"
| "kilt_call_ty (RevokeWorkerCredential d) \<longleftrightarrow> did_ty d"
| "kilt_call_ty (SuspendWorker d _) \<longleftrightarrow> did_ty d"

fun rt_call_ty :: "'c runtime_call \<Rightarrow> bool" where
  "rt_call_ty (QxKiltPermissions c) \<longleftrightarrow> kilt_call_ty c"
| "rt_call_ty (QxAi c) \<longleftrightarrow> ai_call_wf c"
| "rt_call_ty _ \<longleftrightarrow> True"

lemma kilt_ty_deposit [simp]: "kilt_ty (kilt_deposit e k) = kilt_ty k"
  by (simp add: kilt_ty_def)

lemma ai_ty_deposit [simp]: "ai_ty mq (ai_deposit e s) = ai_ty mq s"
  by (simp add: ai_ty_def ai_deposit_def)

lemma ran_updD: "x \<in> ran (m(a \<mapsto> y)) \<Longrightarrow> x = y \<or> x \<in> ran m"
  by (auto simp: ran_def split: if_splits)

lemma rt_ty_genesis: "rt_ty (rt_genesis l)"
  by (simp add: rt_ty_def rt_genesis_def kilt_ty_def ai_ty_def kilt_genesis_def ai_genesis_def)

section \<open>Calls keep the types\<close>

lemma suspend_loop_ty:
  assumes "\<forall>(a, w)\<in>set xs. worker_did_ty w" and "\<forall>w\<in>ran m. worker_did_ty w"
  shows "\<forall>w\<in>ran (suspend_loop d until xs m). worker_did_ty w"
  using assms
  by (induction d until xs m rule: suspend_loop.induct) (auto simp: worker_did_ty_def dest!: ran_updD)

lemma kilt_dispatch_ty:
  assumes "iter_ok cfg" and "kilt_inv cfg k" and "kilt_ty k" and "kilt_call_ty c"
    and "kilt_dispatch fw cfg now origin c k = (Inr r, k')"
  shows "kilt_ty k'"
proof (cases c)
  case (SetGovernanceDid d)
  with assms show ?thesis by (auto simp: set_governance_did_def kilt_ty_def split: sum.splits)
next
  case (CreateWorkerDid name description)
  with assms show ?thesis
    by (auto simp: create_worker_did_def kilt_ty_def worker_did_ty_def Let_def split: sum.splits option.splits if_splits
        dest!: ran_updD)
next
  case (IssueWorkerCredential d models validity)
  with assms show ?thesis
    by (auto simp: issue_worker_credential_def kilt_ty_def credential_ty_def Let_def split: sum.splits option.splits if_splits)
next
  case (RevokeWorkerCredential d)
  with assms show ?thesis by (auto simp: revoke_worker_credential_def kilt_ty_def split: sum.splits if_splits)
next
  case (SuspendWorker d dur)
  have "\<forall>(a, w)\<in>set (worker_dids_iter cfg (worker_dids k)). worker_did_ty w"
    using iter_mem [OF assms(1,2)] assms(3) by (auto simp: kilt_ty_def ran_def)
  from suspend_loop_ty [OF this] SuspendWorker assms(3,5) show ?thesis
    by (auto simp: suspend_worker_def kilt_ty_def Let_def split: sum.splits)
qed

lemma ai_ty_enqueued:
  assumes "ai_ty mq s" and "length p \<le> 2048" and "length (queue_of s w) < mq"
  shows "ai_ty mq (enqueued who w p t now s)"
  using assms unfolding ai_ty_def enqueued_def request_ty_def queue_of_def
  by (auto dest!: ran_updD split: option.splits)

lemma ai_ty_completed_by:
  assumes "ai_ty mq s" and "did_ty did" and "length out \<le> 4096" and "inference_requests s rid = Some q"
  shows "ai_ty mq (completed_by who did rid q out now s)"
proof -
  have "request_ty (q\<lparr>req_status := Completed\<rparr>)" using assms(1,4) by (auto simp: ai_ty_def request_ty_def ran_def)
  moreover have "length (filter P xs) \<le> mq" if "xs \<in> ran (ai_worker_queues s)" for P xs
    using assms(1) that by (auto simp: ai_ty_def intro: order_trans [OF length_filter_le])
  ultimately show ?thesis
    using assms(1-3) unfolding ai_ty_def completed_by_def result_ty_def
    by (auto dest!: ran_updD split: option.splits simp: ranI)
qed

lemma ai_dispatch_ty:
  assumes "ai_ty (unat mq) s" and "ai_call_wf c" and "\<And>a d. kp_get_worker_did kp a = Inr d \<Longrightarrow> did_ty d"
    and "ai_dispatch fw kp mq now origin c s = (Inr r, s')"
  shows "ai_ty (unat mq) s'"
proof (cases c)
  case (AddAllowedModel i name hash)
  with assms show ?thesis
    by (auto simp: add_allowed_model_def ai_ty_def allowed_model_ty_def ai_deposit_def Let_def split: sum.splits dest!: ran_updD)
next
  case (UpdateAIWorkerStatus online)
  with assms show ?thesis by (auto simp: ai_ok_iffs ai_ty_def ai_deposit_def)
qed (use assms in \<open>auto simp: ai_ok_iffs credentialed_def ai_ty_enqueued ai_ty_completed_by\<close>)

lemma rt_dispatch_ty:
  assumes "env_ok env" and "kilt_inv (kilt_config_of env) (rt_kilt rt)" and "rt_ty rt" and "rt_call_ty c"
    and "rt_dispatch env now origin c rt = (Inr r, rt')"
  shows "rt_ty rt'"
proof (cases c)
  case (QxKiltPermissions x)
  with assms show ?thesis by (auto simp: rt_ty_def env_ok_def split: prod.splits intro: kilt_dispatch_ty)
next
  case (QxAi x)
  let ?kp = "KiltPermissionsImpl (kilt_config_of env) (rt_kilt rt) now"
  have did: "did_ty d" if "kp_get_worker_did ?kp a = Inr d" for a d
    using assms(3) that by (auto simp: KiltPermissionsImpl_def get_worker_did_def rt_ty_def kilt_ty_def ran_def split: option.splits)
  from QxAi assms(5) have d:
    "ai_dispatch (env_frame env) ?kp MaxQueueSize now origin x (rt_ai rt) = (Inr r, rt_ai rt')" and "rt_kilt rt' = rt_kilt rt"
    by (auto split: prod.splits)
  moreover from QxAi assms(3,4) have "ai_ty (unat MaxQueueSize) (rt_ai rt)" and "ai_call_wf x" by (simp_all add: rt_ty_def)
  then have "ai_ty (unat MaxQueueSize) (rt_ai rt')" using did d by (rule ai_dispatch_ty)
  ultimately show ?thesis using assms(3) by (simp add: rt_ty_def)
qed (use assms in \<open>auto simp: rt_ty_def split: prod.splits\<close>)

interpretation rt_typed: guarded_calls
  "\<lambda>(now, origin, c). rt_dispatch env now origin c"
  "\<lambda>(_, _, c). rt_call_ty c"
  "\<lambda>rt. env_ok env \<and> kilt_inv (kilt_config_of env) (rt_kilt rt) \<and> rt_ty rt"
  "\<lambda>_. True"
  for env :: "('o, 'c) env"
  by unfold_locales (auto intro: rt_dispatch_ty rt_dispatch_kilt_inv)

text \<open>
  C25: The storage is well typed: after any calls with well-typed arguments, in any order and from
  anybody, every DID in the KILT pallet and in the results has 32 bytes, names, descriptions, model
  lists, prompts, outputs and model hashes are within the bounds of their vectors, and no queue holds
  more than \<open>MaxQueueSize\<close> requests.
\<close>

theorem storage_well_typed:
  fixes env :: "('o, 'c) env"
  assumes "storage_layer layer" and "env_ok env" and "\<forall>(now, origin, c)\<in>set calls. rt_call_ty c"
    and "rt = run_calls layer (\<lambda>(now, origin, c). rt_dispatch env now origin c) calls (rt_genesis l)"
  shows "rt_ty rt"
proof -
  have "kilt_inv (kilt_config_of env) (rt_kilt (rt_genesis l))" by (simp add: rt_genesis_def kilt_inv_genesis)
  with rt_typed.run_keeps_guarded [where env = env and s = "rt_genesis l", OF assms(1) _ assms(3) TrueI]
  have "rt_ty (run_calls layer (\<lambda>(now, origin, c). rt_dispatch env now origin c) calls (rt_genesis l))"
    using assms(2) rt_ty_genesis [of l] by blast
  then show ?thesis unfolding assms(4) .
qed

theorem storage_well_typed_witness:
  "rt_ty (run_calls commit_or_discard (\<lambda>(now, origin, c). rt_dispatch raw_env now origin c)
     [(3, Signed [7], QxKiltPermissions (CreateWorkerDid [65] (replicate 600 0))),
      (3, Signed [7], QxKiltPermissions (CreateWorkerDid [65] [])),
      (4, Root, QxKiltPermissions (IssueWorkerCredential (7 # replicate 31 0) [0] None)),
      (5, Signed [2], QxAi (SubmitRequest [7] (replicate 2048 80) 9))] (rt_genesis (\<lambda>_. 0)))"
  by (rule storage_well_typed [where env = raw_env, OF storage_layer_commit_or_discard raw_env_simps(3) _ refl]) simp

end
