(* ===== verification/Chain_Run.thy ===== *)
theory Chain_Run
  imports Runtime
begin

text \<open>
  The chain over time: blocks of growing number, in each of which extrinsics are applied in their
  storage layers. \<open>chain_run\<close> relates the trace of the extrinsics applied so far (block, origin,
  call, success) to the number of the current block and the storage. The block author may include any extrinsic,
  so every theorem about \<open>chain_run\<close> holds whatever FRAME's executive lets through. The main tool is
  \<open>acquired\<close>: what holds now and did not hold at genesis was brought about by one successful
  extrinsic of the trace.
\<close>

section \<open>Runs of the chain\<close>

text \<open>Block 0 is the genesis block, which has no extrinsics.\<close>

record ('o, 'c) extrinsic =
  xt_block :: u32
  xt_origin :: 'o
  xt_call :: "'c runtime_call"
  xt_ok :: bool

inductive chain_run ::
  "(('c runtime, dispatch_error, pays) body \<Rightarrow> ('c runtime, dispatch_error, pays) body) \<Rightarrow>
   ('o, 'c) env \<Rightarrow> 'c \<Rightarrow> ('o, 'c) extrinsic list \<Rightarrow> u32 \<Rightarrow> 'c runtime \<Rightarrow> bool"
  for layer env l0 where
  cr_genesis: "chain_run layer env l0 [] 0 (rt_genesis l0)"
| cr_apply: "chain_run layer env l0 tr now rt \<Longrightarrow> now \<noteq> 0 \<Longrightarrow> rt_call_wf c \<Longrightarrow>
    chain_run layer env l0 (tr @ [\<lparr>xt_block = now, xt_origin = origin, xt_call = c,
        xt_ok = (\<not> isl (fst (rt_dispatch env now origin c rt)))\<rparr>]) now
      (snd (layer (rt_dispatch env now origin c) rt))"
| cr_block: "chain_run layer env l0 tr now rt \<Longrightarrow> now \<noteq> - 1 \<Longrightarrow> chain_run layer env l0 tr (now + 1) rt"

text \<open>What a successful extrinsic of the trace did, and the run that led to it.\<close>

definition applied ::
  "(('c runtime, dispatch_error, pays) body \<Rightarrow> ('c runtime, dispatch_error, pays) body) \<Rightarrow>
   ('o, 'c) env \<Rightarrow> 'c \<Rightarrow> ('o, 'c) extrinsic list \<Rightarrow> ('o, 'c) extrinsic \<Rightarrow> 'c runtime \<Rightarrow> 'c runtime \<Rightarrow> bool" where
  "applied layer env l0 pre e rt0 rt1 \<longleftrightarrow>
     chain_run layer env l0 pre (xt_block e) rt0 \<and> rt_call_wf (xt_call e) \<and> xt_ok e \<and>
     (\<exists>r. rt_dispatch env (xt_block e) (xt_origin e) (xt_call e) rt0 = (Inr r, rt1))"

text \<open>
  The last extrinsic that brought a property about: since then every successful extrinsic went from a storage
  with the property to another one with it.
\<close>

definition kept_by ::
  "(('c runtime, dispatch_error, pays) body \<Rightarrow> ('c runtime, dispatch_error, pays) body) \<Rightarrow>
   ('o, 'c) env \<Rightarrow> 'c \<Rightarrow> ('c runtime \<Rightarrow> bool) \<Rightarrow> ('o, 'c) extrinsic \<Rightarrow> bool" where
  "kept_by layer env l0 P x \<longleftrightarrow> (xt_ok x \<longrightarrow> (\<exists>pre ra rb. applied layer env l0 pre x ra rb \<and> P ra \<and> P rb))"

lemma acquired_last:
  assumes "storage_layer layer" and "chain_run layer env l0 tr now rt"
    and "P rt" and "\<not> P (rt_genesis l0)"
  shows "\<exists>pre e post rt0 rt1. tr = pre @ e # post \<and> applied layer env l0 pre e rt0 rt1 \<and> \<not> P rt0 \<and> P rt1 \<and>
    xt_block e \<le> now \<and> (\<forall>x\<in>set post. kept_by layer env l0 P x)"
  using assms(2,3)
proof induction
  case cr_genesis
  with assms(4) show ?case by blast
next
  case (cr_apply tr now rt c origin)
  let ?e = "\<lparr>xt_block = now, xt_origin = origin, xt_call = c,
      xt_ok = (\<not> isl (fst (rt_dispatch env now origin c rt)))\<rparr>"
  let ?rt = "snd (rt_dispatch env now origin c rt)"
  have ran: "applied layer env l0 tr ?e rt ?rt \<and> P ?rt" if "xt_ok ?e"
  proof -
    from that obtain r where r: "fst (rt_dispatch env now origin c rt) = Inr r"
      by (cases "fst (rt_dispatch env now origin c rt)") simp_all
    then have "rt_dispatch env now origin c rt = (Inr r, ?rt)" by (simp add: prod_eq_iff)
    with cr_apply.hyps r cr_apply.prems assms(1) show ?thesis by (auto simp: applied_def layering)
  qed
  show ?case
  proof (cases "P rt")
    case True
    with ran have "kept_by layer env l0 P ?e" unfolding kept_by_def by blast
    moreover from True cr_apply.IH obtain pre e post rt0 rt1 where "tr = pre @ e # post" and
      "applied layer env l0 pre e rt0 rt1 \<and> \<not> P rt0 \<and> P rt1 \<and> xt_block e \<le> now" and "\<forall>x\<in>set post. kept_by layer env l0 P x"
      by blast
    ultimately show ?thesis
      by (intro exI [of _ pre] exI [of _ e] exI [of _ "post @ [?e]"] exI [of _ rt0] exI [of _ rt1]) simp
  next
    case False
    have ok: "xt_ok ?e"
    proof (rule ccontr)
      assume "\<not> xt_ok ?e"
      then obtain x where "fst (rt_dispatch env now origin c rt) = Inl x"
        by (cases "fst (rt_dispatch env now origin c rt)") simp_all
      with False cr_apply.prems assms(1) show False by (simp add: layering)
    qed
    with ran False show ?thesis
      by (intro exI [of _ tr] exI [of _ ?e] exI [of _ "[]"] exI [of _ rt] exI [of _ ?rt]) simp
  qed
next
  case (cr_block tr now rt)
  moreover from cr_block.hyps have "now \<le> now + 1" by (simp add: le_succ)
  ultimately show ?case by (blast intro: order_trans)
qed

lemma acquired:
  assumes "storage_layer layer" and "chain_run layer env l0 tr now rt"
    and "P rt" and "\<not> P (rt_genesis l0)"
  obtains pre e post rt0 rt1 where "tr = pre @ e # post" and "applied layer env l0 pre e rt0 rt1"
    and "\<not> P rt0" and "P rt1" and "xt_block e \<le> now"
  using acquired_last [OF assms] by blast

section \<open>Invariants along a run\<close>

lemma chain_run_step_inv:
  assumes "storage_layer layer" and "chain_run layer env l0 tr now rt"
    and "I (rt_genesis l0)"
    and "\<And>now origin c rt r rt'. I rt \<Longrightarrow> rt_call_wf c \<Longrightarrow> rt_dispatch env now origin c rt = (Inr r, rt') \<Longrightarrow> I rt'"
  shows "I rt"
proof (rule ccontr)
  assume "\<not> I rt"
  with acquired [OF assms(1,2), of "\<lambda>rt. \<not> I rt"] assms(3) obtain pre e post rt0 rt1 where
    "applied layer env l0 pre e rt0 rt1" and "\<not> \<not> I rt0" and "\<not> I rt1" by blast
  with assms(4) show False unfolding applied_def by blast
qed

lemma chain_run_kilt_inv:
  assumes "storage_layer layer" and "env_ok env" and "chain_run layer env l0 tr now rt"
  shows "kilt_inv (kilt_config_of env) (rt_kilt rt)"
  by (rule chain_run_step_inv [OF assms(1,3)])
    (auto simp: rt_genesis_def kilt_inv_genesis intro: rt_dispatch_kilt_inv [OF assms(2)])

lemma chain_run_inv:
  assumes "storage_layer layer" and "env_ok env" and "chain_run layer env l0 tr now rt" and "length tr \<le> 2 ^ 32 - 1"
  shows "rt_inv env rt \<and> unat (next_request_id (rt_ai rt)) \<le> length tr"
  using assms(3,4)
proof induction
  case cr_genesis
  show ?case by (simp add: rt_inv_genesis) (simp add: rt_genesis_def ai_genesis_def)
next
  case (cr_apply tr now rt c origin)
  then have inv: "env_ok env \<and> rt_inv env rt" and n: "unat (next_request_id (rt_ai rt)) \<le> length tr"
    and g: "next_request_id (rt_ai rt) \<noteq> - 1"
    using assms(2) by (auto simp: unat_max_word)
  from rt_sys.layered_keeps [where env = env and c = "(now, origin, c)", OF assms(1) inv] cr_apply.hyps g
    rt_sys.layered_used [where env = env and c = "(now, origin, c)", OF assms(1) inv] n
  show ?case by auto
qed

lemma chain_run_block:
  assumes "chain_run layer env l0 tr now rt" and "e \<in> set tr"
  shows "xt_block e \<le> now"
  using assms
proof induction
  case (cr_block tr now rt)
  moreover from cr_block.hyps have "now \<le> now + 1" by (simp add: le_succ)
  ultimately show ?case by (blast intro: order_trans)
qed auto

lemma chain_run_after_genesis:
  assumes "chain_run layer env l0 tr now rt" and "e \<in> set tr"
  shows "xt_block e \<noteq> 0"
  using assms by induction auto

section \<open>Who did it\<close>

text \<open>A stored result was submitted by its worker, with the credential check passed at that moment.\<close>

lemma result_acquired:
  assumes "rt_dispatch env now origin c rt0 = (Inr r, rt1)"
    and "inference_results (rt_ai rt0) j \<noteq> Some x" and "inference_results (rt_ai rt1) j = Some x"
  shows "c = QxAi (SubmitInference (res_request_id x) (res_output x)) \<and>
    ensure_signed (env_frame env) origin = Inr (res_worker x) \<and> submitted_at x = now \<and>
    get_worker_did (rt_kilt rt0) (res_worker x) = Inr (res_worker_did x) \<and>
    verify_worker_credential (kilt_config_of env) now (rt_kilt rt0) (res_worker_did x) = Inr True \<and>
    (\<exists>q. inference_requests (rt_ai rt0) (res_request_id x) = Some q \<and> target_worker q = res_worker x \<and>
       req_status q = Queued)"
proof (cases c)
  case (QxAi a)
  with assms show ?thesis
    by (cases a)
      (auto simp: ai_ok_iffs enqueued_def completed_by_results credentialed_def KiltPermissionsImpl_def
        split: prod.splits if_splits)
qed (use assms in \<open>auto split: prod.splits\<close>)

text \<open>A stored request was submitted by its customer, to a worker that passed the check at that moment.\<close>

definition requested :: "'a ai \<Rightarrow> u32 \<Rightarrow> 'a inference_request \<Rightarrow> bool" where
  "requested s i q \<longleftrightarrow> (\<exists>st. inference_requests s i = Some (q\<lparr>req_status := st\<rparr>))"

lemma requested_self: "inference_requests s i = Some q \<Longrightarrow> requested s i q"
  unfolding requested_def by (rule exI [of _ "req_status q"]) simp

lemma requested_completed_by:
  assumes "inference_requests s rid = Some r"
  shows "requested (completed_by who did rid r out now s) i q \<longleftrightarrow> requested s i q"
proof -
  have "(\<exists>st. r\<lparr>req_status := Completed\<rparr> = q\<lparr>req_status := st\<rparr>) \<longleftrightarrow> (\<exists>st. r = q\<lparr>req_status := st\<rparr>)"
    by (cases r; cases q) auto
  with assms show ?thesis by (simp add: requested_def completed_by_results)
qed

lemma request_acquired:
  assumes "rt_dispatch env now origin c rt0 = (Inr r, rt1)"
    and "\<not> requested (rt_ai rt0) i q" and "requested (rt_ai rt1) i q"
  shows "c = QxAi (SubmitRequest (target_worker q) (prompt q) (max_tokens q)) \<and>
    ensure_signed (env_frame env) origin = Inr (customer q) \<and> created_at q = now \<and>
    (\<exists>did. get_worker_did (rt_kilt rt0) (target_worker q) = Inr did \<and>
       verify_worker_credential (kilt_config_of env) now (rt_kilt rt0) did = Inr True)"
proof (cases c)
  case (QxAi a)
  have same: "requested (ai_deposit e s) i q = requested s i q"
      "requested (s\<lparr>ai_worker_status := st\<rparr>) i q = requested s i q" "requested (s\<lparr>allowed_models := m\<rparr>) i q = requested s i q"
    for e s st m by (simp_all add: requested_def)
  show ?thesis
  proof (cases a)
    case (SubmitRequest w p t)
    with assms QxAi show ?thesis
      by (cases q) (auto simp: ai_ok_iffs same requested_def enqueued_def credentialed_def KiltPermissionsImpl_def
          split: prod.splits if_splits)
  qed (use assms QxAi in \<open>auto simp: ai_ok_iffs same requested_completed_by split: prod.splits\<close>)
qed (use assms in \<open>auto split: prod.splits\<close>)

lemma request_acquired_number:
  assumes "rt_dispatch env now origin c rt0 = (Inr r, rt1)"
    and "\<not> requested (rt_ai rt0) i q" and "requested (rt_ai rt1) i q"
  shows "i = next_request_id (rt_ai rt0)"
proof -
  from request_acquired [OF assms] have "c = QxAi (SubmitRequest (target_worker q) (prompt q) (max_tokens q))" by blast
  with assms show ?thesis
    by (auto simp: ai_ok_iffs requested_def enqueued_def split: prod.splits if_splits)
qed

text \<open>A stored credential was issued by the governance; a registered account registered itself.\<close>

lemma credential_acquired:
  assumes "rt_dispatch env now origin c rt0 = (Inr r, rt1)"
    and "worker_credentials (rt_kilt rt0) d \<noteq> Some cr" and "worker_credentials (rt_kilt rt1) d = Some cr"
  shows "ensure_root (env_frame env) origin = Inr () \<and> cr_issued_at cr = now \<and>
    (\<exists>validity. c = QxKiltPermissions (IssueWorkerCredential d (cr_models cr) validity) \<and>
       cr_expires_at cr = map_option (saturating_add now) validity)"
proof (cases c)
  case (QxKiltPermissions k)
  with assms show ?thesis
    by (cases k) (auto simp: set_governance_did_def create_worker_did_def issue_worker_credential_def
        revoke_worker_credential_def suspend_worker_def Let_def split: prod.splits sum.splits option.splits if_splits)
qed (use assms in \<open>auto split: prod.splits\<close>)

lemma registration_acquired:
  assumes "rt_dispatch env now origin c rt0 = (Inr r, rt1)"
    and "account_to_did (rt_kilt rt0) a \<noteq> Some d" and "account_to_did (rt_kilt rt1) a = Some d"
  shows "ensure_signed (env_frame env) origin = Inr a \<and>
    (\<exists>name desc. c = QxKiltPermissions (CreateWorkerDid name desc)) \<and> d = generate_did (kilt_config_of env) a"
proof (cases c)
  case (QxKiltPermissions k)
  with assms show ?thesis
    by (cases k) (auto simp: set_governance_did_def create_worker_did_def issue_worker_credential_def
        revoke_worker_credential_def suspend_worker_def Let_def split: prod.splits sum.splits option.splits if_splits)
qed (use assms in \<open>auto split: prod.splits\<close>)

text \<open>The extrinsic of a run behind what it left in the storage.\<close>

lemma genesis_empty [simp]:
  "\<not> requested (rt_ai (rt_genesis l0)) i q" "inference_results (rt_ai (rt_genesis l0)) j = None"
  "worker_credentials (rt_kilt (rt_genesis l0)) d = None" "account_to_did (rt_kilt (rt_genesis l0)) a = None"
  by (simp_all add: requested_def rt_genesis_def ai_genesis_def kilt_genesis_def)

lemma revoke_removes:
  "rt_dispatch env now origin (QxKiltPermissions (RevokeWorkerCredential d)) rt = (Inr r, rt') \<Longrightarrow>
     worker_credentials (rt_kilt rt') d = None"
  by (auto simp: revoke_worker_credential_def split: prod.splits sum.splits)

lemma credential_origin:
  assumes "storage_layer layer" and "chain_run layer env l0 tr now rt" and "worker_credentials (rt_kilt rt) d = Some cr"
  obtains p1 e p2 validity where "tr = p1 @ e # p2" and "xt_ok e" and "ensure_root (env_frame env) (xt_origin e) = Inr ()"
    and "xt_call e = QxKiltPermissions (IssueWorkerCredential d (cr_models cr) validity)"
    and "cr_expires_at cr = map_option (saturating_add (xt_block e)) validity"
    and "\<forall>x\<in>set p2. xt_ok x \<longrightarrow> xt_call x \<noteq> QxKiltPermissions (RevokeWorkerCredential d)"
proof -
  let ?P = "\<lambda>rt. worker_credentials (rt_kilt rt) d = Some cr"
  from acquired_last [OF assms(1,2), of ?P] assms(3)
  obtain p1 e p2 rt0 rt1 where e: "tr = p1 @ e # p2" "applied layer env l0 p1 e rt0 rt1"
    and new: "\<not> ?P rt0" "?P rt1" and kept: "\<forall>x\<in>set p2. kept_by layer env l0 ?P x"
    by (simp only: genesis_empty) blast
  from e(2) obtain r where d: "rt_dispatch env (xt_block e) (xt_origin e) (xt_call e) rt0 = (Inr r, rt1)" and "xt_ok e"
    by (auto simp: applied_def)
  moreover have "xt_call x \<noteq> QxKiltPermissions (RevokeWorkerCredential d)" if "x \<in> set p2" "xt_ok x" for x
  proof
    assume "xt_call x = QxKiltPermissions (RevokeWorkerCredential d)"
    with kept that obtain ra rb r where "?P rb"
      and "rt_dispatch env (xt_block x) (xt_origin x) (QxKiltPermissions (RevokeWorkerCredential d)) ra = (Inr r, rb)"
      unfolding kept_by_def applied_def by metis
    with revoke_removes show False by fastforce
  qed
  ultimately show ?thesis using credential_acquired [OF d new] that [OF e(1)] by auto
qed

lemma registration_origin:
  assumes "storage_layer layer" and "chain_run layer env l0 tr now rt" and "account_to_did (rt_kilt rt) a = Some d"
  obtains e name desc where "e \<in> set tr" and "xt_ok e" and "xt_call e = QxKiltPermissions (CreateWorkerDid name desc)"
    and "ensure_signed (env_frame env) (xt_origin e) = Inr a" and "d = generate_did (kilt_config_of env) a"
proof -
  obtain pre e post rt0 rt1 where e: "tr = pre @ e # post" "applied layer env l0 pre e rt0 rt1"
    and new: "account_to_did (rt_kilt rt0) a \<noteq> Some d" "account_to_did (rt_kilt rt1) a = Some d"
    by (rule acquired [OF assms(1,2), where P = "\<lambda>rt. account_to_did (rt_kilt rt) a = Some d"])
      (use assms(3) in simp_all)
  from e(2) obtain r where d: "rt_dispatch env (xt_block e) (xt_origin e) (xt_call e) rt0 = (Inr r, rt1)" and "xt_ok e"
    by (auto simp: applied_def)
  with e(1) registration_acquired [OF d new] that [of e] show ?thesis by auto
qed

lemma result_origin:
  assumes "storage_layer layer" and "chain_run layer env l0 tr now rt" and "inference_results (rt_ai rt) j = Some x"
  obtains pre e post rt0 rt1 r where "tr = pre @ e # post" and "xt_ok e" and "chain_run layer env l0 pre (xt_block e) rt0"
    and "rt_dispatch env (xt_block e) (xt_origin e) (xt_call e) rt0 = (Inr r, rt1)"
    and "inference_results (rt_ai rt0) j \<noteq> Some x" and "inference_results (rt_ai rt1) j = Some x"
proof -
  obtain pre e post rt0 rt1 where e: "tr = pre @ e # post" "applied layer env l0 pre e rt0 rt1"
    and new: "inference_results (rt_ai rt0) j \<noteq> Some x" "inference_results (rt_ai rt1) j = Some x"
    by (rule acquired [OF assms(1,2), where P = "\<lambda>rt. inference_results (rt_ai rt) j = Some x"])
      (use assms(3) in simp_all)
  from e(2) obtain r where "chain_run layer env l0 pre (xt_block e) rt0" and "xt_ok e"
    and "rt_dispatch env (xt_block e) (xt_origin e) (xt_call e) rt0 = (Inr r, rt1)"
    by (auto simp: applied_def)
  from that [OF e(1) this(2,1,3) new] show ?thesis .
qed

section \<open>Times\<close>

text \<open>No record is younger than the current block, and no answer is older than its request.\<close>

definition ai_times :: "u32 \<Rightarrow> 'a ai \<Rightarrow> bool" where
  "ai_times now s \<longleftrightarrow>
     (\<forall>i q. inference_requests s i = Some q \<longrightarrow> created_at q \<le> now) \<and>
     (\<forall>j x. inference_results s j = Some x \<longrightarrow> submitted_at x \<le> now \<and>
        (\<exists>q. inference_requests s (res_request_id x) = Some q \<and> created_at q \<le> submitted_at x))"

definition kilt_times :: "u32 \<Rightarrow> 'a kilt \<Rightarrow> bool" where
  "kilt_times now k \<longleftrightarrow>
     (\<forall>a w. worker_dids k a = Some w \<longrightarrow> wm_registered_at (wd_metadata w) \<le> now) \<and>
     (\<forall>d c. worker_credentials k d = Some c \<longrightarrow> cr_issued_at c \<le> now)"

definition faucet_times :: "u32 \<Rightarrow> 'a faucet \<Rightarrow> bool" where
  "faucet_times now f \<longleftrightarrow> (\<forall>a b. last_claim f a = Some b \<longrightarrow> b \<le> now)"

lemmas times_defs = ai_times_def kilt_times_def faucet_times_def

lemma times_later:
  assumes "now \<le> now'"
  shows "ai_times now s \<Longrightarrow> ai_times now' s" and "kilt_times now k \<Longrightarrow> kilt_times now' k"
    and "faucet_times now f \<Longrightarrow> faucet_times now' f"
  using assms order_trans unfolding times_defs by blast+

lemma ai_times_same [simp]:
  "ai_times now (ai_deposit e s) = ai_times now s"
  "ai_times now (s\<lparr>ai_worker_status := st\<rparr>) = ai_times now s"
  "ai_times now (s\<lparr>allowed_models := m\<rparr>) = ai_times now s"
  by (simp_all add: ai_times_def)

lemma ai_times_enqueued:
  assumes "requests_ok s" and "ai_times now s"
  shows "ai_times now (enqueued who w p t now s)"
proof -
  have "res_request_id x \<noteq> next_request_id s" if "inference_results s j = Some x" for j x
    using assms(2) that requests_ok_fresh [OF assms(1)] by (force simp: ai_times_def)
  with assms(2) show ?thesis by (auto simp: ai_times_def enqueued_def)
qed

lemma ai_times_completed_by:
  assumes "ai_times now s" and "inference_requests s rid = Some q"
  shows "ai_times now (completed_by who did rid q out now s)"
  using assms unfolding ai_times_def completed_by_results by (fastforce split: if_splits)

lemma ai_dispatch_times:
  assumes "requests_ok s" and "ai_times now s" and "ai_dispatch fw kp mq now origin c s = (Inr r, s')"
  shows "ai_times now s'"
  using assms by (cases c) (auto simp: ai_ok_iffs ai_times_enqueued ai_times_completed_by)

lemma suspend_loop_times:
  assumes "\<forall>a w. m a = Some w \<longrightarrow> wm_registered_at (wd_metadata w) \<le> now"
    and "\<forall>(a, w)\<in>set xs. wm_registered_at (wd_metadata w) \<le> now"
    and "suspend_loop d until xs m a = Some w"
  shows "wm_registered_at (wd_metadata w) \<le> now"
  using assms by (induction d until xs m rule: suspend_loop.induct) (auto split: if_splits)

lemma kilt_dispatch_times:
  assumes "iter_ok cfg" and "kilt_inv cfg k" and "kilt_times now k" and "kilt_dispatch fw cfg now origin c k = (Inr r, k')"
  shows "kilt_times now k'"
proof -
  have "\<forall>(a, w)\<in>set (worker_dids_iter cfg (worker_dids k)). wm_registered_at (wd_metadata w) \<le> now"
    using iter_mem [OF assms(1,2)] assms(3) by (auto simp: kilt_times_def)
  then have "wm_registered_at (wd_metadata w) \<le> now"
    if "suspend_loop d until (worker_dids_iter cfg (worker_dids k)) (worker_dids k) a = Some w" for d until a w
    using suspend_loop_times [OF _ _ that] assms(3) by (simp add: kilt_times_def)
  with assms(3,4) show ?thesis
    by (cases c) (auto simp: kilt_times_def set_governance_did_def create_worker_did_def issue_worker_credential_def
      revoke_worker_credential_def suspend_worker_def Let_def split: sum.splits option.splits if_splits)
qed

lemma faucet_dispatch_times:
  assumes "faucet_times now (fst sl)" and "faucet_dispatch fw cfg now origin c sl = (Inr r, sl')"
  shows "faucet_times now (fst sl')"
  using assms by (cases sl; cases sl'; cases c) (auto simp: faucet_ok_iffs faucet_times_def)

definition rt_times :: "u32 \<Rightarrow> 'c runtime \<Rightarrow> bool" where
  "rt_times now rt \<longleftrightarrow> ai_times now (rt_ai rt) \<and> kilt_times now (rt_kilt rt) \<and> faucet_times now (rt_faucet rt)"

lemma rt_dispatch_times:
  assumes "env_ok env" and "rt_inv env rt" and "rt_times now rt" and "rt_dispatch env now origin c rt = (Inr r, rt')"
  shows "rt_times now rt'"
proof (cases c)
  case (QxKiltPermissions x)
  with assms show ?thesis
    by (auto simp: rt_times_def rt_inv_def env_ok_def split: prod.splits intro: kilt_dispatch_times)
next
  case (QxAi x)
  with assms show ?thesis
    by (auto simp: rt_times_def rt_inv_def ai_inv_def split: prod.splits intro: ai_dispatch_times)
next
  case (QxFaucet x)
  with assms faucet_dispatch_times [of now "(rt_faucet rt, rt_ledger rt)"] show ?thesis
    by (fastforce simp: rt_times_def split: prod.splits)
qed (use assms in \<open>auto simp: rt_times_def split: prod.splits\<close>)

lemma chain_run_times:
  assumes "storage_layer layer" and "env_ok env" and "chain_run layer env l0 tr now rt" and "length tr \<le> 2 ^ 32 - 1"
  shows "rt_times now rt"
  using assms(3,4)
proof induction
  case cr_genesis
  show ?case
    by (simp add: rt_times_def times_defs rt_genesis_def kilt_genesis_def ai_genesis_def faucet_genesis_def)
next
  case (cr_apply tr now rt c origin)
  then have t: "rt_times now rt" and inv: "rt_inv env rt"
    using chain_run_inv [OF assms(1,2)] by auto
  show ?case
  proof (cases "fst (rt_dispatch env now origin c rt)")
    case (Inl e)
    with t assms(1) show ?thesis by (simp add: layering)
  next
    case (Inr r)
    then have "rt_dispatch env now origin c rt = (Inr r, snd (rt_dispatch env now origin c rt))" by (simp add: prod_eq_iff)
    with rt_dispatch_times [OF assms(2) inv t] have "rt_times now (snd (rt_dispatch env now origin c rt))" by blast
    with Inr assms(1) show ?thesis by (simp add: layering)
  qed
next
  case (cr_block tr now rt)
  moreover from cr_block.hyps have "now \<le> now + 1" by (simp add: le_succ)
  ultimately show ?case unfolding rt_times_def by (blast intro: times_later)
qed

section \<open>The faucet's part of a run\<close>

text \<open>The successful claims of a trace.\<close>

definition claims_of :: "('o, 'c) extrinsic list \<Rightarrow> (u32 \<times> account_id) list" where
  "claims_of tr = List.map_filter (\<lambda>e. case xt_call e of
      QxFaucet (Claim a) \<Rightarrow> if xt_ok e then Some (xt_block e, a) else None | _ \<Rightarrow> None) tr"

lemma claims_of_simps [simp]:
  "claims_of [] = []"
  "claims_of (tr @ [e]) = claims_of tr @ (case xt_call e of
      QxFaucet (Claim a) \<Rightarrow> if xt_ok e then [(xt_block e, a)] else [] | _ \<Rightarrow> [])"
  by (simp_all add: claims_of_def map_filter_def split: runtime_call.splits faucet_call.splits)

text \<open>
  Seen from the faucet, a run of the chain is a run of the faucet: its own calls, and changes of the
  ledger by others.
\<close>

lemma chain_run_faucet:
  assumes "storage_layer layer" and "chain_run layer env l0 tr now rt"
  shows "faucet_run commit_or_discard (env_frame env) (faucet_config_of env) (claims_of tr) now (rt_faucet rt) (rt_ledger rt)"
  using assms(2)
proof induction
  case cr_genesis
  show ?case by (simp add: rt_genesis_def) (rule fr_start)
next
  case (cr_apply tr now rt c origin)
  let ?run = "faucet_run commit_or_discard (env_frame env) (faucet_config_of env)"
  let ?rt = "snd (layer (rt_dispatch env now origin c) rt)" and ?d = "rt_dispatch env now origin c rt"
  note ok = layer_eq_Inr [OF storage_layer_commit_or_discard]
  show ?case
  proof (cases "fst ?d")
    case (Inl x)
    with cr_apply.IH assms(1) show ?thesis by (simp add: layering split: runtime_call.splits faucet_call.splits)
  next
    case (Inr r)
    with assms(1) have l: "?rt = snd ?d" by (simp add: layering)
    show ?thesis
    proof (cases c)
      case (QxFaucet f)
      obtain s' l' where d: "faucet_dispatch (env_frame env) (faucet_config_of env) now origin f (rt_faucet rt, rt_ledger rt) =
          (Inr (), (s', l'))" and rt': "snd ?d = rt\<lparr>rt_faucet := s', rt_ledger := l'\<rparr>"
        using Inr QxFaucet by (auto simp: default_post_info_def split: prod.splits sum.splits)
      show ?thesis
      proof (cases f)
        case (Claim a)
        from fr_claim [OF cr_apply.IH, of origin a s' l'] d Claim Inr QxFaucet l rt' show ?thesis by (simp add: ok)
      next
        case (FundFaucet v)
        from fr_fund [OF cr_apply.IH, of origin v s' l'] d FundFaucet QxFaucet l rt' show ?thesis by (simp add: ok)
      qed
    next
      case (Other_Call f)
      have "rt_faucet (snd ?d) = rt_faucet rt" using Other_Call by (simp split: prod.splits)
      with fr_others [OF cr_apply.IH] Other_Call l show ?thesis by simp
    qed (use cr_apply.IH l in \<open>simp_all split: prod.splits\<close>)
  qed
next
  case (cr_block tr now rt)
  moreover from cr_block.hyps have "now \<le> now + 1" by (simp add: le_succ)
  ultimately show ?case by (blast intro: fr_block)
qed

text \<open>With the runtime's constants: at most 50 QX for an account, in claims at least a day of blocks apart.\<close>

theorem runtime_faucet_limits:
  assumes "storage_layer layer" and "faucet_run layer fw (faucet_config_of env) tr now s l" and "now < - 1"
  shows "sum_list (map unat (claim_amounts a (faucet_events s))) \<le> 50 * 10 ^ 12 \<and>
    (\<forall>i j. i < j \<and> j < length tr \<and> snd (tr ! i) = snd (tr ! j) \<longrightarrow>
       unat (fst (tr ! i)) + unat DAYS \<le> unat (fst (tr ! j)))"
proof -
  let ?n = "unat (claim_count_get s a)"
  note inv = faucet_run_inv [OF assms(1,2), unfolded run_inv_def]
  then have "claim_amounts a (faucet_events s) = replicate ?n FaucetDripAmount" and "?n \<le> 5"
    by (auto simp: faucet_inv_def word_le_nat_alt)
  then have "sum_list (map unat (claim_amounts a (faucet_events s))) \<le> 50 * 10 ^ 12"
    by (simp add: sum_list_replicate)
  moreover have "unat (fst (tr ! i)) + unat DAYS \<le> unat (fst (tr ! j))"
    if ij: "i < j" "j < length tr" "snd (tr ! i) = snd (tr ! j)" for i j
  proof -
    from ij(2) have "tr ! j \<in> set tr" by simp
    with inv have "fst (tr ! j) \<le> now" by fastforce
    with assms(3) have "unat (fst (tr ! j)) < 2 ^ 32 - 1" by (simp add: word_less_nat_alt word_le_nat_alt unat_max_word)
    moreover have "saturating_add (fst (tr ! i)) FaucetClaimCooldown \<le> fst (tr ! j)"
      using inv ij by (simp add: spaced_def sorted_wrt_iff_nth_less split_beta)
    ultimately show ?thesis by (simp add: word_le_nat_alt saturation)
  qed
  ultimately show ?thesis by blast
qed

section \<open>The faucet's pot during a run\<close>

text \<open>The calls of other pallets never take anything from the pot, for which nobody holds a key.\<close>

definition pot_untouched :: "('o, 'c) env \<Rightarrow> ('o, 'c) extrinsic list \<Rightarrow> bool" where
  "pot_untouched env tr \<longleftrightarrow>
     (\<forall>e\<in>set tr. \<forall>f. xt_call e = Other_Call f \<longrightarrow>
        (\<forall>l. faucet_balance (faucet_config_of env) l \<le> faucet_balance (faucet_config_of env) (snd (f l))))"

lemma pot_after_call:
  assumes "currency_laws (env_currency env) ed" and "rt_dispatch env now origin c rt = (Inr r, rt')"
    and "\<And>f l. c = Other_Call f \<Longrightarrow> faucet_balance (faucet_config_of env) l \<le> faucet_balance (faucet_config_of env) (snd (f l))"
  shows "unat (faucet_balance (faucet_config_of env) (rt_ledger rt)) \<le>
    unat (faucet_balance (faucet_config_of env) (rt_ledger rt')) +
      (case c of QxFaucet (Claim _) \<Rightarrow> unat FaucetDripAmount | _ \<Rightarrow> 0)"
proof (cases c)
  case (QxFaucet f)
  with assms(2) have f: "faucet_dispatch (env_frame env) (faucet_config_of env) now origin f (rt_faucet rt, rt_ledger rt) =
      (Inr (), (rt_faucet rt', rt_ledger rt'))"
    by (auto split: prod.splits)
  show ?thesis
  proof (cases f)
    case (Claim a)
    with f have t: "transfer (env_currency env) FaucetPotAccount a FaucetDripAmount KeepAlive (rt_ledger rt) = (Inr (), rt_ledger rt')"
      by (simp add: claim_ok_iff)
    with transfer_moves(1) [OF assms(1) t] transfer_frame [OF assms(1) t, of FaucetPotAccount] QxFaucet Claim show ?thesis
      by (cases "a = FaucetPotAccount") (auto simp: faucet_balance_def)
  next
    case (FundFaucet v)
    with f obtain who where t: "transfer (env_currency env) who FaucetPotAccount v KeepAlive (rt_ledger rt) = (Inr (), rt_ledger rt')"
      by (auto simp: fund_faucet_ok_iff)
    with transfer_moves(2) [OF assms(1) t] transfer_frame [OF assms(1) t, of FaucetPotAccount] QxFaucet FundFaucet show ?thesis
      by (cases "who = FaucetPotAccount") (auto simp: faucet_balance_def)
  qed
next
  case (Other_Call f)
  with assms(2,3) have "faucet_balance (faucet_config_of env) (rt_ledger rt) \<le> faucet_balance (faucet_config_of env) (rt_ledger rt')"
    by (auto split: prod.splits) (metis snd_conv)
  with Other_Call show ?thesis by (simp add: word_le_nat_alt)
qed (use assms(2) in \<open>auto split: prod.splits\<close>)

lemma chain_run_pot:
  assumes "storage_layer layer" and "currency_laws (env_currency env) ed"
    and "chain_run layer env l0 tr now rt" and "pot_untouched env tr"
  shows "unat (faucet_balance (faucet_config_of env) l0) \<le>
    unat (faucet_balance (faucet_config_of env) (rt_ledger rt)) + length (claims_of tr) * unat FaucetDripAmount"
  using assms(3,4)
proof induction
  case cr_genesis
  show ?case by (simp add: rt_genesis_def)
next
  case (cr_apply tr now rt c origin)
  let ?d = "rt_dispatch env now origin c rt"
  from cr_apply.prems have IH: "unat (faucet_balance (faucet_config_of env) l0) \<le>
      unat (faucet_balance (faucet_config_of env) (rt_ledger rt)) + length (claims_of tr) * unat FaucetDripAmount"
    and other: "\<And>f l. c = Other_Call f \<Longrightarrow> faucet_balance (faucet_config_of env) l \<le> faucet_balance (faucet_config_of env) (snd (f l))"
    using cr_apply.IH by (auto simp: pot_untouched_def)
  show ?case
  proof (cases "fst ?d")
    case (Inl e)
    with IH assms(1) show ?thesis by (simp add: layering split: runtime_call.splits faucet_call.splits)
  next
    case (Inr r)
    then have d: "?d = (Inr r, snd ?d)" by (simp add: prod_eq_iff)
    from Inr assms(1) have l: "snd (layer (rt_dispatch env now origin c) rt) = snd ?d" by (simp add: layering)
    have "unat (faucet_balance (faucet_config_of env) (rt_ledger rt)) \<le>
        unat (faucet_balance (faucet_config_of env) (rt_ledger (snd ?d))) +
          (case c of QxFaucet (Claim _) \<Rightarrow> unat FaucetDripAmount | _ \<Rightarrow> 0)"
      by (rule pot_after_call [OF assms(2) d]) (rule other)
    then show ?thesis unfolding l using IH Inr
      by (auto split: runtime_call.splits faucet_call.splits)
  qed
qed simp

end
