(* ===== verification/Chain_Run_Properties.thy ===== *)
theory Chain_Run_Properties
  imports Chain_Run Runtime_Properties
begin

text \<open>
  Properties of the chain over time: where the answers come from, the order of the recorded times, and
  what the faucet gives out on a chain where everything else happens as well. The witnesses run the
  runtime from the empty genesis.
\<close>

section \<open>Runs for the witnesses\<close>

lemma chain_run_later:
  assumes "chain_run layer env l0 tr now rt" and "now \<le> now'"
  shows "chain_run layer env l0 tr now' rt"
proof -
  have "chain_run layer env l0 tr (now + of_nat n) rt" if "unat now + n < 2 ^ 32" for n
    using that
  proof (induction n)
    case 0
    with assms(1) show ?case by simp
  next
    case (Suc n)
    then have "unat (now + of_nat n) = unat now + n" by (simp add: unat_word_ariths unat_of_nat)
    with Suc.prems have "now + of_nat n \<noteq> - 1" by (auto simp: unat_max_word)
    with cr_block [OF Suc.IH] Suc.prems show ?case by (simp add: ac_simps)
  qed
  from this [of "unat now' - unat now"] assms(2) show ?thesis
    using unsigned_less [of now'] by (simp add: word_le_nat_alt of_nat_diff)
qed

text \<open>The calls of a history, in blocks that do not decrease.\<close>

lemma chain_run_calls:
  assumes "chain_run layer env l0 tr now rt" and "sorted (now # map fst cs)" and "\<forall>(t, origin, c)\<in>set cs. t \<noteq> 0 \<and> rt_call_wf c"
  shows "\<exists>tr'. chain_run layer env l0 tr' (last (now # map fst cs))
      (run_calls layer (\<lambda>(t, origin, c). rt_dispatch env t origin c) cs rt) \<and> length tr' = length tr + length cs"
  using assms
proof (induction cs arbitrary: tr rt now)
  case (Cons x cs)
  then obtain t origin c where x: "x = (t, origin, c)" and wf: "t \<noteq> 0" "rt_call_wf c" and "now \<le> t" by auto
  from cr_apply [OF chain_run_later [OF Cons.prems(1) this(4)] wf, of origin] Cons.IH Cons.prems(2,3)
  show ?case unfolding x by fastforce
qed auto

text \<open>In block 1, account [7] registers, is certified, and answers a request of account [2].\<close>

definition raw_history :: "(u32 \<times> account_id raw_origin \<times> (account_id \<Rightarrow> u128) runtime_call) list" where
  "raw_history = [(1, Signed [7], QxKiltPermissions (CreateWorkerDid [65] [])),
     (1, Root, QxKiltPermissions (IssueWorkerCredential (7 # replicate 31 0) [0] (Some 100))),
     (1, Signed [2], QxAi (SubmitRequest [7] [80] 9)),
     (1, Signed [7], QxAi (SubmitInference 0 [81]))]"

definition raw_answered :: "(account_id \<Rightarrow> u128) runtime" where
  "raw_answered = run_calls commit_or_discard (\<lambda>(t, origin, c). rt_dispatch raw_env t origin c) raw_history raw_rt"

lemma raw_run: "\<exists>tr. chain_run commit_or_discard raw_env (\<lambda>_. 0) tr 1 raw_answered \<and> length tr = 4"
proof -
  have "chain_run commit_or_discard raw_env (\<lambda>_. 0) [] 1 raw_rt"
    using cr_block [OF cr_genesis, of commit_or_discard raw_env "\<lambda>_. 0"] by (simp add: raw_rt_def)
  moreover have "sorted (1 # map fst raw_history)" and "\<forall>(t, origin, c)\<in>set raw_history. t \<noteq> 0 \<and> rt_call_wf c"
    and "length raw_history = 4" and "last (1 # map fst raw_history) = 1"
    by (simp_all add: raw_history_def)
  ultimately show ?thesis using chain_run_calls [of commit_or_discard raw_env "\<lambda>_. 0" "[]" 1 raw_rt raw_history]
    by (auto simp: raw_answered_def)
qed

lemmas raw_history_defs = raw_answered_def raw_history_def commit_or_discard_def create_worker_did_def
  issue_worker_credential_def submit_request_def submit_inference_def bounded_try_from_def bounded_try_push_def
  default_post_info_def KiltPermissionsImpl_def get_worker_did_def verify_unfold verify_loop_find credential_live_def
  raw_rt_def rt_genesis_def kilt_genesis_def ai_genesis_def Let_def key_order_iter_def kilt_config_of_def raw_env_def
  saturating_add_def generate_did_def MaxQueueSize_def

lemma raw_answered_result: "map_option res_worker (inference_results (rt_ai raw_answered) 0) = Some [7]"
  by (simp add: raw_history_defs)

lemma raw_answered_workers: "dom (worker_dids (rt_kilt raw_answered)) = {[7]}"
  by (simp add: raw_history_defs)

section \<open>Times\<close>

text \<open>
  The recorded times are consistent on every run of the chain with fewer than \<open>2 ^ 32\<close>
  extrinsics: no request, result, registration, credential or claim is dated after the current block,
  and every stored result belongs to a stored request that is not younger than the result.
\<close>

theorem chain_times_consistent:
  assumes "storage_layer layer" and "env_ok env" and "chain_run layer env l0 tr now rt" and "length tr \<le> 2 ^ 32 - 1"
  shows "(\<forall>i q. inference_requests (rt_ai rt) i = Some q \<longrightarrow> created_at q \<le> now) \<and>
    (\<forall>j x. inference_results (rt_ai rt) j = Some x \<longrightarrow> submitted_at x \<le> now \<and>
       (\<exists>q. inference_requests (rt_ai rt) (res_request_id x) = Some q \<and> created_at q \<le> submitted_at x)) \<and>
    (\<forall>a w. worker_dids (rt_kilt rt) a = Some w \<longrightarrow> wm_registered_at (wd_metadata w) \<le> now) \<and>
    (\<forall>d c. worker_credentials (rt_kilt rt) d = Some c \<longrightarrow> cr_issued_at c \<le> now) \<and>
    (\<forall>a b. last_claim (rt_faucet rt) a = Some b \<longrightarrow> b \<le> now)"
  using chain_run_times [OF assms] unfolding rt_times_def times_defs by blast

theorem chain_times_consistent_witness:
  "\<exists>x q. inference_results (rt_ai raw_answered) 0 = Some x \<and>
     inference_requests (rt_ai raw_answered) (res_request_id x) = Some q \<and> created_at q \<le> submitted_at x"
proof -
  obtain tr where run: "chain_run commit_or_discard raw_env (\<lambda>_. 0) tr 1 raw_answered" and n: "length tr \<le> 2 ^ 32 - 1"
    using raw_run by fastforce
  obtain x where "inference_results (rt_ai raw_answered) 0 = Some x" using raw_answered_result by auto
  with chain_times_consistent [OF storage_layer_commit_or_discard raw_env_simps(3) run n] show ?thesis by blast
qed

section \<open>Money\<close>

text \<open>
  C10: On every run of the chain, whatever calls the blocks hold besides: the drips the faucet's events
  record for an account are exactly one per successful claim in the trace, at most five, so at most 50
  QX of \<open>10 ^ 12\<close> units; \<open>remaining_claims\<close> is what is left of the five; and two successful claims of one account are at least a day of blocks
  apart, as long as block numbers are below their maximum.
\<close>

theorem chain_faucet_limits:
  assumes "storage_layer layer" and "chain_run layer env l0 tr now rt" and "now < - 1"
  shows "claim_amounts a (faucet_events (rt_faucet rt)) =
      replicate (count_list (map snd (claims_of tr)) a) FaucetDripAmount \<and>
    count_list (map snd (claims_of tr)) a \<le> 5 \<and>
    sum_list (map unat (claim_amounts a (faucet_events (rt_faucet rt)))) \<le> 50 * 10 ^ 12 \<and>
    unat (remaining_claims (faucet_config_of env) a (rt_faucet rt)) = 5 - count_list (map snd (claims_of tr)) a \<and>
    (\<forall>i j. i < j \<and> j < length (claims_of tr) \<and> snd (claims_of tr ! i) = snd (claims_of tr ! j) \<longrightarrow>
       unat (fst (claims_of tr ! i)) + unat DAYS \<le> unat (fst (claims_of tr ! j)))"
proof -
  note run = chain_run_faucet [OF assms(1,2)]
  have "run_inv (faucet_config_of env) (claims_of tr) now (rt_faucet rt)"
    by (rule faucet_run_inv [OF storage_layer_commit_or_discard run])
  then have "claim_amounts a (faucet_events (rt_faucet rt)) = replicate (count_list (map snd (claims_of tr)) a) FaucetDripAmount"
    and "count_list (map snd (claims_of tr)) a \<le> 5"
    and "unat (remaining_claims (faucet_config_of env) a (rt_faucet rt)) = 5 - count_list (map snd (claims_of tr)) a"
    unfolding run_inv_def faucet_inv_def by (auto simp: word_le_nat_alt remaining_claims_def unat_saturating_sub)
  with runtime_faucet_limits [OF storage_layer_commit_or_discard run assms(3)] show ?thesis by blast
qed

text \<open>A ledger that holds only the faucet's pot, and a block with one claim on it.\<close>

definition pot_ledger :: "account_id \<Rightarrow> u128" where
  "pot_ledger a = (if a = FaucetPotAccount then 1000000000000000000 else 0)"

lemma pot_claim:
  obtains l where "rt_dispatch raw_env 1 Unsigned (QxFaucet (Claim [2])) (rt_genesis pot_ledger) =
    (Inr Pays_Yes, (rt_genesis pot_ledger)\<lparr>rt_faucet := claimed_by (faucet_config_of raw_env) 1 [2] faucet_genesis, rt_ledger := l\<rparr>)"
proof -
  have "[2] \<noteq> FaucetPotAccount" by (simp add: FaucetPotAccount_def)
  then have "\<exists>l. transfer (plain_ledger EXISTENTIAL_DEPOSIT) FaucetPotAccount [2] FaucetDripAmount KeepAlive pot_ledger = (Inr (), l)"
    by (simp add: plain_ledger_def pot_ledger_def EXISTENTIAL_DEPOSIT_def FaucetDripAmount_def)
  then obtain l where "faucet_dispatch raw_frame (faucet_config_of raw_env) 1 Unsigned (Claim [2]) (faucet_genesis, pot_ledger) =
      (Inr (), (claimed_by (faucet_config_of raw_env) 1 [2] faucet_genesis, l))"
    by (auto simp: claim_ok_iff can_claim_iff rested_def faucet_genesis_def claim_count_get_def FaucetMaxClaims_def
        plain_ledger_def pot_ledger_def FaucetDripAmount_def)
  then have "rt_dispatch raw_env 1 Unsigned (QxFaucet (Claim [2])) (rt_genesis pot_ledger) =
      (Inr Pays_Yes, (rt_genesis pot_ledger)\<lparr>rt_faucet := claimed_by (faucet_config_of raw_env) 1 [2] faucet_genesis, rt_ledger := l\<rparr>)"
    by (simp add: rt_genesis_def default_post_info_def)
  then show ?thesis by (rule that)
qed

theorem chain_faucet_limits_witness:
  "\<exists>tr rt. chain_run commit_or_discard raw_env pot_ledger tr 1 rt \<and> claims_of tr = [(1, [2])] \<and>
     claim_amounts [2] (faucet_events (rt_faucet rt)) = [FaucetDripAmount]"
proof -
  obtain l where d: "rt_dispatch raw_env 1 Unsigned (QxFaucet (Claim [2])) (rt_genesis pot_ledger) =
    (Inr Pays_Yes, (rt_genesis pot_ledger)\<lparr>rt_faucet := claimed_by (faucet_config_of raw_env) 1 [2] faucet_genesis, rt_ledger := l\<rparr>)"
    by (rule pot_claim)
  have "rt_call_wf (QxFaucet (Claim [2]))" by simp
  moreover have "chain_run commit_or_discard raw_env pot_ledger [] 1 (rt_genesis pot_ledger)"
    using cr_block [OF cr_genesis, of commit_or_discard raw_env pot_ledger] by simp
  moreover have "(1 :: u32) \<noteq> 0" by simp
  ultimately obtain tr rt where
    run: "chain_run commit_or_discard raw_env pot_ledger tr 1 rt" and c: "claims_of tr = [(1, [2])]"
    using cr_apply [of commit_or_discard raw_env pot_ledger "[]" 1 "rt_genesis pot_ledger" "QxFaucet (Claim [2])" Unsigned]
    unfolding d by (auto simp: claims_of_def map_filter_def simp del: rt_dispatch.simps)
  have "(1 :: u32) < - 1" by (simp add: word_less_nat_alt unat_max_word)
  from chain_faucet_limits [OF storage_layer_commit_or_discard run this, of "[2]"] run c show ?thesis by auto
qed

text \<open>
  C13: The calls of the three pallets never create or destroy money, and take none from anybody but
  their own funders: over any finite set of accounts that contains the faucet's pot, the claimant
  and the signer, the sum of the balances is the same after the call; and an account whose balance
  went down is the pot, by one drip of a claim, or the signer of \<open>fund_faucet\<close>, by the amount
  it named.
\<close>

theorem qx_calls_conserve_money:
  fixes env :: "('o, 'c) env"
  defines "bal \<equiv> \<lambda>rt. free_balance (env_currency env) (rt_ledger rt)"
  assumes "storage_layer layer" and "currency_laws (env_currency env) ed" and "\<And>f. c \<noteq> Other_Call f"
    and "finite A" and "FaucetPotAccount \<in> A" and "\<And>a. c = QxFaucet (Claim a) \<Longrightarrow> a \<in> A"
    and "\<And>a. ensure_signed (env_frame env) origin = Inr a \<Longrightarrow> a \<in> A"
    and "rt' = snd (layer (rt_dispatch env now origin c) rt)"
  shows "(\<Sum>a\<in>A. unat (bal rt' a)) = (\<Sum>a\<in>A. unat (bal rt a)) \<and>
    (\<forall>x. bal rt' x < bal rt x \<longrightarrow>
       (x = FaucetPotAccount \<and> (\<exists>a. c = QxFaucet (Claim a)) \<and> unat (bal rt x) = unat (bal rt' x) + unat FaucetDripAmount) \<or>
       (\<exists>v. c = QxFaucet (FundFaucet v) \<and> ensure_signed (env_frame env) origin = Inr x \<and>
          unat (bal rt x) = unat (bal rt' x) + unat v))"
proof (cases "fst (rt_dispatch env now origin c rt)")
  case (Inl e)
  with assms(2,9) have "rt' = rt" by (simp add: layering)
  then show ?thesis by simp
next
  case (Inr r)
  with assms(2,9) have d: "rt_dispatch env now origin c rt = (Inr r, rt')" by (simp add: layering prod_eq_iff)
  show ?thesis
  proof (cases c)
    case (QxFaucet f)
    with d have f: "faucet_dispatch (env_frame env) (faucet_config_of env) now origin f (rt_faucet rt, rt_ledger rt) =
        (Inr (), (rt_faucet rt', rt_ledger rt'))"
      by (auto split: prod.splits)
    show ?thesis
    proof (cases f)
      case (Claim a)
      with f have "transfer (env_currency env) FaucetPotAccount a FaucetDripAmount KeepAlive (rt_ledger rt) = (Inr (), rt_ledger rt')"
        by (simp add: claim_ok_iff)
      from transfer_conserves [OF assms(3) this assms(5,6)] transfer_lowers [OF assms(3) this] Claim QxFaucet assms(7)
      show ?thesis unfolding bal_def by blast
    next
      case (FundFaucet v)
      with f obtain who where who: "ensure_signed (env_frame env) origin = Inr who"
        and "transfer (env_currency env) who FaucetPotAccount v KeepAlive (rt_ledger rt) = (Inr (), rt_ledger rt')"
        by (auto simp: fund_faucet_ok_iff)
      from transfer_conserves [OF assms(3) this(2) assms(5) assms(8) [OF who] assms(6)] transfer_lowers [OF assms(3) this(2)]
        FundFaucet QxFaucet who
      show ?thesis unfolding bal_def by blast
    qed
  qed (use d assms(4) in \<open>auto simp: bal_def split: prod.splits\<close>)
qed

theorem qx_calls_conserve_money_witness:
  "\<exists>rt'. rt' = snd (commit_or_discard (rt_dispatch raw_env 1 Unsigned (QxFaucet (Claim [2]))) (rt_genesis pot_ledger)) \<and>
     claim_count_get (rt_faucet rt') [2] = 1 \<and>
     (\<Sum>a\<in>{FaucetPotAccount, [2]}. unat (free_balance (env_currency raw_env) (rt_ledger rt') a)) = 1000000000000000000"
proof -
  let ?rt = "snd (commit_or_discard (rt_dispatch raw_env 1 Unsigned (QxFaucet (Claim [2]))) (rt_genesis pot_ledger))"
  have ne: "FaucetPotAccount \<noteq> [2]" by (simp add: FaucetPotAccount_def)
  have laws: "currency_laws (env_currency raw_env) EXISTENTIAL_DEPOSIT" by (simp add: plain_ledger_laws)
  have "(\<Sum>a\<in>{FaucetPotAccount, [2]}. unat (free_balance (env_currency raw_env) (rt_ledger ?rt) a)) =
      (\<Sum>a\<in>{FaucetPotAccount, [2]}. unat (free_balance (env_currency raw_env) (rt_ledger (rt_genesis pot_ledger)) a))"
    by (rule qx_calls_conserve_money [where c = "QxFaucet (Claim [2])" and origin = Unsigned and now = 1,
        OF storage_layer_commit_or_discard laws _ _ _ _ _ refl, THEN conjunct1]) simp_all
  also have "\<dots> = 1000000000000000000" using ne by (simp add: rt_genesis_def plain_ledger_def pot_ledger_def)
  finally have s: "(\<Sum>a\<in>{FaucetPotAccount, [2]}. unat (free_balance (env_currency raw_env) (rt_ledger ?rt) a)) = 1000000000000000000" .
  have "claim_count_get (rt_faucet ?rt) [2] = 1"
  proof (rule pot_claim)
    have "claim_count_get faucet_genesis [2 :: u8] = 0" by (simp add: faucet_genesis_def claim_count_get_def)
    then show ?thesis
      if "rt_dispatch raw_env 1 Unsigned (QxFaucet (Claim [2])) (rt_genesis pot_ledger) = (Inr Pays_Yes, (rt_genesis pot_ledger)
        \<lparr>rt_faucet := claimed_by (faucet_config_of raw_env) 1 [2] faucet_genesis, rt_ledger := l\<rparr>)" for l
      using that by (simp add: commit_or_discard_def saturating_add_def del: rt_dispatch.simps)
  qed
  with s show ?thesis by blast
qed

end
