(* ===== verification/Visible_Errors.thy ===== *)
theory Visible_Errors
  imports Chain_Run_Properties
begin

text \<open>
  Which errors the callers of the QX pallets can see: for each pallet the set of the errors that a call raises
  on some run of the chain. \<open>errors_bounded\<close> bounds the sets from above; a run for each member shows that
  the bounds are exact.
\<close>

section \<open>Errors on runs of the chain\<close>

text \<open>The errors of the calls in \<open>C\<close>, apart from those of the origin check and the currency.\<close>

definition visible_errors ::
  "(('c runtime, dispatch_error, pays) body \<Rightarrow> ('c runtime, dispatch_error, pays) body) \<Rightarrow>
   ('o, 'c) env \<Rightarrow> 'c runtime_call set \<Rightarrow> dispatch_error set" where
  "visible_errors layer env C = {e. e \<notin> range Frame_Error \<and>
     (\<exists>l0 tr now rt origin. \<exists>c\<in>C. chain_run layer env l0 tr now rt \<and> now \<noteq> 0 \<and> rt_call_wf c \<and>
        fst (rt_dispatch env now origin c rt) = Inl e)}"

lemma visible_errors_bounded:
  assumes "foreign_errors env"
  shows "visible_errors layer env (range QxKiltPermissions) \<subseteq> Kilt_Error ` {WorkerDIDAlreadyExists, InvalidBoundedVec}"
    and "visible_errors layer env (range QxAi) \<subseteq> Kilt_Error ` {AccountHasNoDID, WorkerCredentialNotFound} \<union>
      AI_Error ` {AI_WorkerDIDNotFound, InvalidWorkerCredential, AIWorkerQueueFull, RequestNotFound, RequestNotAssigned,
        RequestAlreadyAssigned}"
    and "visible_errors layer env (range QxFaucet) \<subseteq> Faucet_Error ` {ClaimTooSoon, MaxClaimsReached, FaucetEmpty}"
  unfolding visible_errors_def using errors_bounded [OF assms] by fastforce+

section \<open>A run for each error\<close>

abbreviation raw_calls_from :: "(u32 \<times> account_id raw_origin \<times> (account_id \<Rightarrow> u128) runtime_call) list \<Rightarrow>
    (account_id \<Rightarrow> u128) runtime \<Rightarrow> (account_id \<Rightarrow> u128) runtime" where
  "raw_calls_from \<equiv> run_calls commit_or_discard (\<lambda>(t, origin, c). rt_dispatch raw_env t origin c)"

lemma visibleI:
  assumes "fst (rt_dispatch raw_env now origin c (raw_calls_from cs (rt_genesis l))) = Inl e"
    and "c \<in> C" and "e \<notin> range Frame_Error" and "sorted (1 # map fst cs @ [now])" and "rt_call_wf c"
    and "\<forall>(t, origin, c)\<in>set cs. rt_call_wf c"
  shows "e \<in> visible_errors commit_or_discard raw_env C"
proof -
  have pos: "t \<noteq> 0" if "1 \<le> t" for t :: u32 using that by (auto simp: word_le_nat_alt)
  have g: "chain_run commit_or_discard raw_env l [] 1 (rt_genesis l)"
    using cr_block [OF cr_genesis, of commit_or_discard raw_env l] by simp
  have s: "sorted (1 # map fst cs)" "1 \<le> now" "\<forall>t\<in>set (1 # map fst cs). t \<le> now" using assms(4) by (auto simp: sorted_append)
  then have le: "last (1 # map fst cs) \<le> now" using last_in_set [of "1 # map fst cs"] by blast
  have "\<forall>(t, origin, c)\<in>set cs. t \<noteq> 0 \<and> rt_call_wf c" using assms(6) s(1) pos by fastforce
  with s(1) obtain tr where "chain_run commit_or_discard raw_env l tr (last (1 # map fst cs)) (raw_calls_from cs (rt_genesis l))"
    using chain_run_calls [OF g] by blast
  from chain_run_later [OF this le] assms(1-3,5) pos [OF s(2)] show ?thesis
    unfolding visible_errors_def by blast
qed

text \<open>Account [7] registers and is certified for 100 blocks.\<close>

abbreviation raw_did :: "u8 \<Rightarrow> did_identifier" where "raw_did x \<equiv> x # replicate 31 0"

abbreviation certify :: "u8 \<Rightarrow> (u32 \<times> account_id raw_origin \<times> (account_id \<Rightarrow> u128) runtime_call) list" where
  "certify x \<equiv> [(1, Signed [x], QxKiltPermissions (CreateWorkerDid [65] [])),
     (1, Root, QxKiltPermissions (IssueWorkerCredential (raw_did x) [0] (Some 100)))]"

lemmas call_defs = raw_history_defs update_ai_worker_status_def

lemma not_frame [simp]: "Kilt_Error x \<notin> range Frame_Error" "AI_Error y \<notin> range Frame_Error" "Faucet_Error z \<notin> range Frame_Error"
  by auto

lemma kilt_errors_visible:
  "Kilt_Error WorkerDIDAlreadyExists \<in> visible_errors commit_or_discard raw_env (range QxKiltPermissions)"
  "Kilt_Error InvalidBoundedVec \<in> visible_errors commit_or_discard raw_env (range QxKiltPermissions)"
proof -
  show "Kilt_Error WorkerDIDAlreadyExists \<in> visible_errors commit_or_discard raw_env (range QxKiltPermissions)"
    by (rule visibleI [where l = "\<lambda>_. 0" and now = 1 and origin = "Signed [7]" and c = "QxKiltPermissions (CreateWorkerDid [66] [])"
        and cs = "certify 7"]; simp add: call_defs)
  show "Kilt_Error InvalidBoundedVec \<in> visible_errors commit_or_discard raw_env (range QxKiltPermissions)"
    by (rule visibleI [where l = "\<lambda>_. 0" and now = 1 and origin = "Signed [7]" and cs = "[]"
        and c = "QxKiltPermissions (CreateWorkerDid (replicate 129 65) [])"]; simp add: call_defs)
qed

text \<open>The errors that the AI pallet passes on, and its own before the queue and the request are looked at.\<close>

lemma ai_credential_errors_visible:
  "Kilt_Error AccountHasNoDID \<in> visible_errors commit_or_discard raw_env (range QxAi)"
  "Kilt_Error WorkerCredentialNotFound \<in> visible_errors commit_or_discard raw_env (range QxAi)"
  "AI_Error AI_WorkerDIDNotFound \<in> visible_errors commit_or_discard raw_env (range QxAi)"
  "AI_Error InvalidWorkerCredential \<in> visible_errors commit_or_discard raw_env (range QxAi)"
proof -
  let ?V = "visible_errors commit_or_discard raw_env (range QxAi)"
  show "Kilt_Error AccountHasNoDID \<in> ?V"
    by (rule visibleI [where l = "\<lambda>_. 0" and now = 1 and origin = "Signed [7]" and c = "QxAi (UpdateAIWorkerStatus True)"
        and cs = "[]"]; simp add: call_defs)
  show "Kilt_Error WorkerCredentialNotFound \<in> ?V"
    by (rule visibleI [where l = "\<lambda>_. 0" and now = 1 and origin = "Signed [7]" and c = "QxAi (UpdateAIWorkerStatus True)"
        and cs = "[(1, Signed [7], QxKiltPermissions (CreateWorkerDid [65] []))]"]; simp add: call_defs)
  show "AI_Error AI_WorkerDIDNotFound \<in> ?V"
    by (rule visibleI [where l = "\<lambda>_. 0" and now = 1 and origin = "Signed [2]" and c = "QxAi (SubmitRequest [7] [80] 9)"
        and cs = "[]"]; simp add: call_defs)
  show "AI_Error InvalidWorkerCredential \<in> ?V"
    by (rule visibleI [where l = "\<lambda>_. 0" and now = 102 and origin = "Signed [7]" and c = "QxAi (UpdateAIWorkerStatus True)"
        and cs = "certify 7"]; simp add: call_defs)
qed

text \<open>An unknown request, somebody else's, and one that has been answered.\<close>

lemma ai_request_errors_visible:
  "AI_Error RequestNotFound \<in> visible_errors commit_or_discard raw_env (range QxAi)"
  "AI_Error RequestNotAssigned \<in> visible_errors commit_or_discard raw_env (range QxAi)"
  "AI_Error RequestAlreadyAssigned \<in> visible_errors commit_or_discard raw_env (range QxAi)"
proof -
  let ?V = "visible_errors commit_or_discard raw_env (range QxAi)"
  show "AI_Error RequestNotFound \<in> ?V"
    by (rule visibleI [where l = "\<lambda>_. 0" and now = 1 and origin = "Signed [7]" and c = "QxAi (SubmitInference 0 [81])"
        and cs = "certify 7"]; simp add: call_defs)
  show "AI_Error RequestNotAssigned \<in> ?V"
    by (rule visibleI [where l = "\<lambda>_. 0" and now = 1 and origin = "Signed [8]" and c = "QxAi (SubmitInference 0 [81])"
        and cs = "certify 7 @ certify 8 @ [(1, Signed [2], QxAi (SubmitRequest [7] [80] 9))]"]; simp add: call_defs)
  show "AI_Error RequestAlreadyAssigned \<in> ?V"
    by (rule visibleI [where l = "\<lambda>_. 0" and now = 1 and origin = "Signed [7]" and c = "QxAi (SubmitInference 0 [82])"
        and cs = raw_history]; simp add: call_defs)
qed

text \<open>A worker with \<open>k\<close> requests in its queue.\<close>

abbreviation raw_request :: "u32 \<times> account_id raw_origin \<times> (account_id \<Rightarrow> u128) runtime_call" where
  "raw_request \<equiv> (1, Signed [2], QxAi (SubmitRequest [7] [80] 9))"

lemma raw_requests:
  assumes "credentialed (KiltPermissionsImpl (kilt_config_of raw_env) (rt_kilt rt) 1) [7] did" and "queue_of (rt_ai rt) [7] = []"
    and "k \<le> 100"
  shows "rt_kilt (raw_calls_from (replicate k raw_request) rt) = rt_kilt rt \<and>
    length (queue_of (rt_ai (raw_calls_from (replicate k raw_request) rt)) [7]) = k"
  using assms(3)
proof (induction k)
  case 0
  with assms(2) show ?case by simp
next
  case (Suc k)
  let ?rt = "raw_calls_from (replicate k raw_request) rt"
  let ?kp = "KiltPermissionsImpl (kilt_config_of raw_env) (rt_kilt ?rt) 1"
  from Suc have k: "rt_kilt ?rt = rt_kilt rt" and n: "length (queue_of (rt_ai ?rt) [7]) = k" by simp_all
  from k assms(1) n Suc.prems obtain s where ok: "submit_request raw_frame ?kp MaxQueueSize 1 (Signed [2]) [7] [80] 9 (rt_ai ?rt) = (Inr (), s)"
    and q: "length (queue_of s [7]) = Suc k"
    by (fastforce simp: submit_request_ok_iff enqueued_queue_of MaxQueueSize_def)
  have "raw_calls_from (replicate (Suc k) raw_request) rt = ?rt\<lparr>rt_ai := s\<rparr>"
    unfolding replicate_Suc replicate_append_same [symmetric] run_calls_append
    using ok by (simp add: commit_or_discard_def default_post_info_def)
  with k q show ?case by simp
qed

lemma ai_queue_error_visible:
  "AI_Error AIWorkerQueueFull \<in> visible_errors commit_or_discard raw_env (range QxAi)"
proof -
  let ?rt = "raw_calls_from (certify 7) (rt_genesis (\<lambda>_. 0))" and ?cs = "certify 7 @ replicate 100 raw_request"
  let ?rt' = "raw_calls_from ?cs (rt_genesis (\<lambda>_. 0))"
  have cred: "credentialed (KiltPermissionsImpl (kilt_config_of raw_env) (rt_kilt ?rt) 1) [7] (raw_did 7)"
    by (simp add: call_defs credentialed_def)
  have "queue_of (rt_ai ?rt) [7] = []" by (simp add: call_defs queue_of_def)
  from raw_requests [OF cred this, of 100] have k: "rt_kilt ?rt' = rt_kilt ?rt" and n: "length (queue_of (rt_ai ?rt') [7]) = 100"
    unfolding run_calls_append by simp_all
  have "fst (submit_request raw_frame (KiltPermissionsImpl (kilt_config_of raw_env) (rt_kilt ?rt') 1) MaxQueueSize 1 (Signed [2]) [7] [80] 9
      (rt_ai ?rt')) = Inl (AI_Error AIWorkerQueueFull)"
    using cred n unfolding k
    by (auto simp: submit_request_def credentialed_def queue_of_def bounded_try_push_def MaxQueueSize_def Let_def
        split: option.splits)
  then have "fst (rt_dispatch raw_env 1 (Signed [2]) (QxAi (SubmitRequest [7] [80] 9)) ?rt') = Inl (AI_Error AIWorkerQueueFull)"
    by (auto simp: default_post_info_def split: prod.splits)
  then show ?thesis by (rule visibleI) (simp_all add: sorted_append)
qed

text \<open>An account that has claimed \<open>k\<close> times, every 20000 blocks, from a full pot.\<close>

lemma raw_claims:
  defines "cfg \<equiv> faucet_config_of raw_env"
  assumes "k \<le> 5"
  shows "\<exists>s l. raw_calls_from (map (\<lambda>i. (of_nat (20000 * i + 1), Unsigned, QxFaucet (Claim [2]))) [0..<k]) (rt_genesis pot_ledger) =
      (rt_genesis pot_ledger)\<lparr>rt_faucet := s, rt_ledger := l\<rparr> \<and>
    unat (claim_count_get s [2]) = k \<and> rested cfg (of_nat (20000 * k + 1)) [2] s \<and>
    unat (l FaucetPotAccount) + k * 10 ^ 13 = 10 ^ 18 \<and> unat (l [2]) = k * 10 ^ 13"
  using assms(2)
proof (induction k)
  case 0
  have "[2] \<noteq> FaucetPotAccount" by (simp add: FaucetPotAccount_def)
  then show ?case
    by (intro exI [of _ faucet_genesis] exI [of _ pot_ledger])
      (simp add: rt_genesis_def rested_def faucet_genesis_def claim_count_get_def pot_ledger_def)
next
  case (Suc k)
  let ?now = "of_nat (20000 * k + 1) :: u32" and ?next = "of_nat (20000 * Suc k + 1) :: u32"
    and ?c = "\<lambda>i. (of_nat (20000 * i + 1) :: u32, Unsigned, QxFaucet (Claim [2]))"
  from Suc obtain s l where run: "raw_calls_from (map ?c [0..<k]) (rt_genesis pot_ledger) = (rt_genesis pot_ledger)\<lparr>rt_faucet := s, rt_ledger := l\<rparr>"
    and c: "unat (claim_count_get s [2]) = k" and r: "rested cfg ?now [2] s"
    and p: "unat (l FaucetPotAccount) + k * 10 ^ 13 = 10 ^ 18" and b: "unat (l [2]) = k * 10 ^ 13"
    by (metis Suc_leD)
  have m: "claim_count_get s [2] < fc_max_claims_per_account cfg"
    using c Suc.prems by (simp add: word_less_nat_alt cfg_def)
  have "EXISTENTIAL_DEPOSIT \<le> fc_drip_amount cfg" by (simp add: EXISTENTIAL_DEPOSIT_def FaucetDripAmount_def cfg_def)
  moreover have "spendable (fc_currency cfg) EXISTENTIAL_DEPOSIT (fc_faucet_pot cfg) l"
    by (simp add: plain_ledger_spendable cfg_def)
  moreover have "unat (fc_drip_amount cfg) + unat EXISTENTIAL_DEPOSIT \<le> unat (faucet_balance cfg l)"
    and "unat (free_balance (fc_currency cfg) l [2]) + unat (fc_drip_amount cfg) < 2 ^ 128"
    using p b Suc.prems by (simp_all add: cfg_def faucet_balance_def) (simp_all add: plain_ledger_def)
  ultimately obtain l' where ok: "claim raw_frame cfg ?now Unsigned [2] (s, l) = (Inr (), (claimed_by cfg ?now [2] s, l'))"
    and t: "transfer (fc_currency cfg) (fc_faucet_pot cfg) [2] (fc_drip_amount cfg) KeepAlive l = (Inr (), l')"
    using claim_succeeds [where cfg = cfg and fw = raw_frame, OF _ raw_frame_simps(6) _ r m] by blast
  have ne: "FaucetPotAccount \<noteq> [2]" by (simp add: FaucetPotAccount_def)
  have cur: "free_balance (fc_currency cfg) x y = x y" for x y by (simp add: cfg_def plain_ledger_def)
  have "currency_laws (fc_currency cfg) EXISTENTIAL_DEPOSIT" by (simp add: plain_ledger_laws cfg_def)
  from transfer_moves [OF this t] ne p b have "unat (l' FaucetPotAccount) + Suc k * 10 ^ 13 = 10 ^ 18" and "unat (l' [2]) = Suc k * 10 ^ 13"
    by (simp_all add: cur) (simp_all add: cfg_def)
  moreover have "raw_calls_from (map ?c [0..<Suc k]) (rt_genesis pot_ledger) =
      (rt_genesis pot_ledger)\<lparr>rt_faucet := claimed_by cfg ?now [2] s, rt_ledger := l'\<rparr>"
    using ok run by (simp add: run_calls_append cfg_def commit_or_discard_def default_post_info_def)
  moreover have "unat (claim_count_get (claimed_by cfg ?now [2] s) [2]) = Suc k" using claim_count_incr [OF m] c by simp
  moreover have "rested cfg ?next [2] (claimed_by cfg ?now [2] s)"
  proof -
    from Suc.prems have "unat ?now = 20000 * k + 1" and "unat ?next = 20000 * Suc k + 1"
      by (intro unat_of_nat_small; simp)+
    then show ?thesis
      unfolding rested_def word_le_nat_alt claimed_by_simps unat_saturating_add by (simp add: cfg_def)
  qed
  ultimately show ?case by blast
qed

lemma faucet_errors_visible:
  "Faucet_Error ClaimTooSoon \<in> visible_errors commit_or_discard raw_env (range QxFaucet)"
  "Faucet_Error MaxClaimsReached \<in> visible_errors commit_or_discard raw_env (range QxFaucet)"
  "Faucet_Error FaucetEmpty \<in> visible_errors commit_or_discard raw_env (range QxFaucet)"
proof -
  let ?V = "visible_errors commit_or_discard raw_env (range QxFaucet)"
  have ne: "[2] \<noteq> FaucetPotAccount" "FaucetPotAccount \<noteq> [2]" by (simp_all add: FaucetPotAccount_def)
  note faucet_defs = claim_def faucet_genesis_def rt_genesis_def commit_or_discard_def default_post_info_def claim_count_get_def
    faucet_balance_def FaucetMaxClaims_def FaucetDripAmount_def FaucetClaimCooldown_def plain_ledger_def pot_ledger_def
    saturating_add_def EXISTENTIAL_DEPOSIT_def Let_def
  show "Faucet_Error FaucetEmpty \<in> ?V"
    by (rule visibleI [where l = "\<lambda>_. 0" and now = 1 and origin = Unsigned and c = "QxFaucet (Claim [2])" and cs = "[]"];
      simp add: faucet_defs)
  show "Faucet_Error ClaimTooSoon \<in> ?V"
    by (rule visibleI [where l = pot_ledger and now = 2 and origin = Unsigned and c = "QxFaucet (Claim [2])"
        and cs = "[(1, Unsigned, QxFaucet (Claim [2]))]"]; simp add: faucet_defs ne)
  let ?cs = "map (\<lambda>i. (of_nat (20000 * i + 1), Unsigned, QxFaucet (Claim [2]))) [0..<5]"
  obtain f l where run: "raw_calls_from ?cs (rt_genesis pot_ledger) = (rt_genesis pot_ledger)\<lparr>rt_faucet := f, rt_ledger := l\<rparr>"
    and n: "unat (claim_count_get f [2]) = 5" and r: "rested (faucet_config_of raw_env) (of_nat (20000 * 5 + 1)) [2] f"
    using raw_claims [of 5] by auto
  have "\<not> claim_count_get f [2] < FaucetMaxClaims" by (simp add: word_less_nat_alt n)
  with r have "fst (rt_dispatch raw_env 100001 Unsigned (QxFaucet (Claim [2])) (raw_calls_from ?cs (rt_genesis pot_ledger))) =
      Inl (Faucet_Error MaxClaimsReached)"
    unfolding run by (auto simp: claim_def rested_def Let_def default_post_info_def not_le split: option.splits)
  then show "Faucet_Error MaxClaimsReached \<in> ?V"
    by (rule visibleI) (simp_all add: upt_conv_Cons)
qed

section \<open>Exactly these\<close>

lemmas ai_errors_visible = ai_credential_errors_visible ai_request_errors_visible ai_queue_error_visible

text \<open>
  C40: The errors that a caller of the QX pallets can see, besides those of the origin check and the currency.
  On runs of the chain the KILT pallet's own calls raise two of its twelve errors; through the AI pallet two more
  come out, for a caller without a DID and for one whose DID has no credential; the AI pallet raises six of its
  eight, and the faucet its three. No call ever raises another one, and each of these is raised on some run,
  already in the plain instance of the environment. So an unknown DID, an expired, suspended
  or revoked credential and a missing governance DID never show as the errors of these names.
\<close>

theorem errors_raised:
  assumes "foreign_errors env"
  defines "kilt \<equiv> Kilt_Error ` {WorkerDIDAlreadyExists, InvalidBoundedVec}"
    and "ai \<equiv> Kilt_Error ` {AccountHasNoDID, WorkerCredentialNotFound} \<union>
      AI_Error ` {AI_WorkerDIDNotFound, InvalidWorkerCredential, AIWorkerQueueFull, RequestNotFound, RequestNotAssigned,
        RequestAlreadyAssigned}"
    and "faucet \<equiv> Faucet_Error ` {ClaimTooSoon, MaxClaimsReached, FaucetEmpty}"
  shows "visible_errors layer env (range QxKiltPermissions) \<subseteq> kilt \<and> visible_errors layer env (range QxAi) \<subseteq> ai \<and>
    visible_errors layer env (range QxFaucet) \<subseteq> faucet \<and>
    visible_errors commit_or_discard raw_env (range QxKiltPermissions) = kilt \<and>
    visible_errors commit_or_discard raw_env (range QxAi) = ai \<and>
    visible_errors commit_or_discard raw_env (range QxFaucet) = faucet"
proof -
  note raw = visible_errors_bounded [OF raw_env_foreign, of commit_or_discard, folded kilt_def ai_def faucet_def]
  have "kilt \<subseteq> visible_errors commit_or_discard raw_env (range QxKiltPermissions)"
    unfolding kilt_def using kilt_errors_visible by simp
  moreover have "ai \<subseteq> visible_errors commit_or_discard raw_env (range QxAi)"
    unfolding ai_def using ai_errors_visible by simp
  moreover have "faucet \<subseteq> visible_errors commit_or_discard raw_env (range QxFaucet)"
    unfolding faucet_def using faucet_errors_visible by simp
  ultimately show ?thesis
    using raw visible_errors_bounded [OF assms(1), of layer, folded kilt_def ai_def faucet_def] by blast
qed

theorem errors_raised_witness:
  "Faucet_Error MaxClaimsReached \<in> visible_errors commit_or_discard raw_env (range QxFaucet) \<and>
     AI_Error AIWorkerNotFound \<notin> visible_errors commit_or_discard raw_env (range QxAi)"
proof -
  note all = errors_raised [OF raw_env_foreign, of commit_or_discard]
  then have a: "visible_errors commit_or_discard raw_env (range QxAi) = Kilt_Error ` {AccountHasNoDID, WorkerCredentialNotFound} \<union>
      AI_Error ` {AI_WorkerDIDNotFound, InvalidWorkerCredential, AIWorkerQueueFull, RequestNotFound, RequestNotAssigned,
        RequestAlreadyAssigned}"
    and f: "visible_errors commit_or_discard raw_env (range QxFaucet) = Faucet_Error ` {ClaimTooSoon, MaxClaimsReached, FaucetEmpty}"
    by blast+
  show ?thesis unfolding a f by simp
qed

end
