(* ===== verification/Onboarding.thy ===== *)
theory Onboarding
  imports Runtime_Properties
begin

text \<open>
  The path of a new worker through the pallets: it registers, the governance issues a credential, a
  customer sends it a request, it answers. The lemmas follow the path step by step, the property runs
  it as a whole.
\<close>

section \<open>Steps of the runtime\<close>

lemma rt_create:
  assumes "ensure_signed (env_frame env) origin = Inr a" and "worker_dids (rt_kilt rt) a = None"
    and "length name \<le> 128" and "length desc \<le> 512"
  obtains k w where
    "rt_dispatch env now origin (QxKiltPermissions (CreateWorkerDid name desc)) rt = (Inr Pays_Yes, rt\<lparr>rt_kilt := k\<rparr>)"
    "worker_dids k = (worker_dids (rt_kilt rt))(a \<mapsto> w)" "wd_did w = generate_did (kilt_config_of env) a"
    "wd_status w = Active"
  using assms by (simp add: create_worker_did_def default_post_info_def bounded_try_from_def Let_def domIff)

lemma rt_issue:
  assumes "ensure_root (env_frame env) origin = Inr ()" and "length models \<le> 100"
  obtains k c where
    "rt_dispatch env now origin (QxKiltPermissions (IssueWorkerCredential d models (Some period))) rt =
       (Inr Pays_Yes, rt\<lparr>rt_kilt := k\<rparr>)"
    "worker_dids k = worker_dids (rt_kilt rt)" "worker_credentials k d = Some c"
    "cr_expires_at c = Some (saturating_add now period)"
  using assms by (simp add: issue_worker_credential_def default_post_info_def bounded_try_from_def Let_def)

lemma layered_step:
  assumes "storage_layer layer" and "env_ok env" and "rt_inv env rt" and "next_request_id (rt_ai rt) \<noteq> - 1"
    and "rt_call_wf c" and "rt_dispatch env now origin c rt = (Inr r, rt')"
  shows "run_calls layer (\<lambda>(now, origin, c). rt_dispatch env now origin c) ((now, origin, c) # cs) rt =
      run_calls layer (\<lambda>(now, origin, c). rt_dispatch env now origin c) cs rt'"
    and "rt_inv env rt'"
  using assms by (simp_all add: layer_Inr rt_dispatch_inv)

text \<open>An authorised worker with room in its queue can be sent a request and can answer it.\<close>

lemma authorised_worker_serves:
  assumes "storage_layer layer" and "env_ok env" and "rt_inv env rt"
    and "no_collision (kilt_config_of env) (rt_kilt rt)" and "next_request_id (rt_ai rt) \<noteq> - 1"
    and o: "ensure_signed (env_frame env) oc = Inr c" "ensure_signed (env_frame env) ow = Inr a"
    and auth: "worker_authorised t (rt_kilt rt) a" "worker_authorised t' (rt_kilt rt) a"
    and "length (queue_of (rt_ai rt) a) < 100" and "length p \<le> 2048" and "length out \<le> 4096"
    and rt': "rt' = run_calls layer (\<lambda>(now, origin, c). rt_dispatch env now origin c)
      [(t, oc, QxAi (SubmitRequest a p tokens)), (t', ow, QxAi (SubmitInference (next_request_id (rt_ai rt)) out))] rt"
  shows "(\<exists>x. get_inference_result (rt_ai rt') (next_inference_id (rt_ai rt)) = Some x \<and>
      res_request_id x = next_request_id (rt_ai rt) \<and> res_worker x = a \<and> res_output x = out \<and> submitted_at x = t') \<and>
    market_of (rt_ai rt') (next_request_id (rt_ai rt)) = Answered c a \<and>
    queue_of (rt_ai rt') a = queue_of (rt_ai rt) a \<and> rt_kilt rt' = rt_kilt rt \<and> rt_ledger rt' = rt_ledger rt"
proof -
  let ?s = "rt_ai rt" and ?kp = "KiltPermissionsImpl (kilt_config_of env) (rt_kilt rt)"
  from assms(2-4) have k: "iter_ok (kilt_config_of env) \<and> kilt_inv (kilt_config_of env) (rt_kilt rt) \<and>
      no_collision (kilt_config_of env) (rt_kilt rt)" and req: "requests_ok ?s"
    and que: "queues_ok (unat MaxQueueSize) ?s"
    by (simp_all add: env_ok_def rt_inv_def ai_inv_def)
  obtain did did' where d: "credentialed (?kp t) a did" "credentialed (?kp t') a did'"
    using auth kilt_oracle.vouch_authorised [OF k] by blast
  let ?s1 = "ai_deposit (RequestAssigned (next_request_id ?s) a) (ai_deposit (RequestSubmitted (next_request_id ?s) c a)
      (enqueued c a p tokens t ?s))"
  let ?q = "\<lparr>customer = c, target_worker = a, prompt = p, max_tokens = tokens, req_status = Queued, created_at = t\<rparr>"
  let ?s2 = "ai_deposit (RequestCompleted (next_request_id ?s) (next_inference_id ?s1))
      (ai_deposit (InferenceSubmitted (next_inference_id ?s1) (next_request_id ?s) a did')
        (completed_by a did' (next_request_id ?s) ?q out t' ?s1))"
  have "submit_request (env_frame env) (?kp t) MaxQueueSize t oc a p tokens ?s = (Inr (), ?s1)"
    unfolding submit_request_ok_iff using o(1) d(1) assms(10) by (auto simp: MaxQueueSize_def)
  then have one: "rt_dispatch env t oc (QxAi (SubmitRequest a p tokens)) rt = (Inr Pays_Yes, rt\<lparr>rt_ai := ?s1\<rparr>)"
    by (simp add: default_post_info_def)
  have q1: "inference_requests ?s1 (next_request_id ?s) = Some ?q" by (simp add: enqueued_def)
  have "submit_inference (env_frame env) (?kp t') t' ow (next_request_id ?s) out ?s1 = (Inr Pays_No, ?s2)"
    unfolding submit_inference_ok_iff using o(2) d(2) q1 by (intro exI conjI) (assumption | simp)+
  then have two: "rt_dispatch env t' ow (QxAi (SubmitInference (next_request_id ?s) out)) (rt\<lparr>rt_ai := ?s1\<rparr>) =
      (Inr Pays_No, rt\<lparr>rt_ai := ?s2\<rparr>)"
    by simp
  have rt2: "rt' = rt\<lparr>rt_ai := ?s2\<rparr>"
    unfolding rt' using one two assms(1) by (simp add: layer_Inr)
  have "next_request_id ?s \<notin> set (queue_of ?s a)"
    using que pending_below [OF req] by (auto simp: queues_ok_def)
  then have "filter (\<lambda>i. i \<noteq> next_request_id ?s) (queue_of ?s a @ [next_request_id ?s]) = queue_of ?s a"
    by (auto simp: filter_id_conv)
  then have "queue_of ?s2 a = queue_of ?s a"
    by (simp add: completed_by_queue_of enqueued_queue_of del: filter_append)
  moreover have "inference_results ?s2 (next_inference_id ?s) = Some \<lparr>res_request_id = next_request_id ?s,
      res_worker = a, res_worker_did = did', res_output = out, res_status = Inference_Completed, submitted_at = t'\<rparr>"
    by (simp add: completed_by_results enqueued_def)
  moreover have "market_of ?s2 (next_request_id ?s) = Answered c a"
    by (simp add: market_of_completed_by q1 del: ai_deposit_simps)
  ultimately show ?thesis unfolding rt2 by (simp add: get_inference_result_def)
qed

section \<open>From registration to the first answer\<close>

text \<open>
  C9: The path of a new worker works end to end: an account that is not registered registers, the
  governance issues a credential for the DID generated for it, a customer sends it a request and it
  answers, both within the validity of the credential. Then the answer is stored, with the worker and
  the block, the job is answered, the worker's queue is as before, and no balance has changed.
\<close>

theorem onboarding_end_to_end:
  fixes env :: "('o, 'c) env"
  assumes "storage_layer layer" and "env_ok env" and "rt_inv env rt" and "next_request_id (rt_ai rt) \<noteq> - 1"
    and "ensure_signed (env_frame env) ow = Inr a" and "ensure_root (env_frame env) og = Inr ()"
    and "ensure_signed (env_frame env) oc = Inr c"
    and "worker_dids (rt_kilt rt) a = None"
    and "inj_on (generate_did (kilt_config_of env)) (insert a (dom (worker_dids (rt_kilt rt))))"
    and "length name \<le> 128" and "length desc \<le> 512" and "length models \<le> 100"
    and "length p \<le> 2048" and "length out \<le> 4096" and "length (queue_of (rt_ai rt) a) < 100"
    and "max (unat t3) (unat t4) \<le> min (unat t2 + unat period) (2 ^ 32 - 1)"
    and "rt' = run_calls layer (\<lambda>(now, origin, c). rt_dispatch env now origin c)
      [(t1, ow, QxKiltPermissions (CreateWorkerDid name desc)),
       (t2, og, QxKiltPermissions (IssueWorkerCredential (generate_did (kilt_config_of env) a) models (Some period))),
       (t3, oc, QxAi (SubmitRequest a p tokens)),
       (t4, ow, QxAi (SubmitInference (next_request_id (rt_ai rt)) out))] rt"
  shows "(\<exists>x. get_inference_result (rt_ai rt') (next_inference_id (rt_ai rt)) = Some x \<and>
      res_request_id x = next_request_id (rt_ai rt) \<and> res_worker x = a \<and> res_output x = out \<and> submitted_at x = t4) \<and>
    market_of (rt_ai rt') (next_request_id (rt_ai rt)) = Answered c a \<and>
    queue_of (rt_ai rt') a = queue_of (rt_ai rt) a \<and> rt_ledger rt' = rt_ledger rt"
proof -
  let ?d = "generate_did (kilt_config_of env) a"
  obtain k w where
    one: "rt_dispatch env t1 ow (QxKiltPermissions (CreateWorkerDid name desc)) rt = (Inr Pays_Yes, rt\<lparr>rt_kilt := k\<rparr>)"
    and w: "worker_dids k = (worker_dids (rt_kilt rt))(a \<mapsto> w)" "wd_did w = ?d" "wd_status w = Active"
    using rt_create [OF assms(5,8,10,11)] .
  obtain k2 cr where
    two: "rt_dispatch env t2 og (QxKiltPermissions (IssueWorkerCredential ?d models (Some period))) (rt\<lparr>rt_kilt := k\<rparr>) =
      (Inr Pays_Yes, rt\<lparr>rt_kilt := k\<rparr>\<lparr>rt_kilt := k2\<rparr>)"
    and k2: "worker_dids k2 = worker_dids (rt_kilt (rt\<lparr>rt_kilt := k\<rparr>))" "worker_credentials k2 ?d = Some cr"
      "cr_expires_at cr = Some (saturating_add t2 period)"
    using rt_issue [OF assms(6,12)] .
  note step1 = layered_step [OF assms(1-4) _ one]
  have "next_request_id (rt_ai (rt\<lparr>rt_kilt := k\<rparr>)) \<noteq> - 1" using assms(4) by simp
  note step2 = layered_step [OF assms(1,2) step1(2) this _ two]
  have auth: "worker_authorised t k2 a" if "unat t \<le> min (unat t2 + unat period) (2 ^ 32 - 1)" for t
    using that w k2 by (simp add: worker_authorised_def credential_live_def word_le_nat_alt saturation)
  from k2(1) w(1) have "dom (worker_dids k2) = insert a (dom (worker_dids (rt_kilt rt)))" by simp
  with assms(9) have "no_collision (kilt_config_of env) k2" by (simp add: no_collision_def)
  moreover have "rt' = run_calls layer (\<lambda>(now, origin, c). rt_dispatch env now origin c)
      [(t3, oc, QxAi (SubmitRequest a p tokens)),
       (t4, ow, QxAi (SubmitInference (next_request_id (rt_ai rt)) out))] (rt\<lparr>rt_kilt := k\<rparr>\<lparr>rt_kilt := k2\<rparr>)"
    unfolding assms(17) using step1(1) step2(1) by (simp del: run_calls.simps)
  ultimately show ?thesis
    using authorised_worker_serves [where rt = "rt\<lparr>rt_kilt := k\<rparr>\<lparr>rt_kilt := k2\<rparr>" and env = env and t = t3 and t' = t4
        and rt' = rt' and p = p and out = out and tokens = tokens, OF assms(1,2) _ _ _ assms(7,5)]
      step2(2) auth [of t3] auth [of t4] assms(4,13-16) by simp
qed

theorem onboarding_end_to_end_witness:
  "\<exists>x. get_inference_result (rt_ai (run_calls commit_or_discard (\<lambda>(now, origin, c). rt_dispatch raw_env now origin c)
      [(3, Signed [7], QxKiltPermissions (CreateWorkerDid [65] [])),
       (4, Root, QxKiltPermissions (IssueWorkerCredential (generate_did (kilt_config_of raw_env) [7]) [0] (Some 100))),
       (5, Signed [2], QxAi (SubmitRequest [7] [80] 9)),
       (6, Signed [7], QxAi (SubmitInference (next_request_id (rt_ai raw_rt)) [81]))] raw_rt))
      (next_inference_id (rt_ai raw_rt)) = Some x \<and> res_worker x = [7] \<and> res_output x = [81]"
proof -
  have fresh: "next_request_id (rt_ai raw_rt) \<noteq> - 1" and empty: "length (queue_of (rt_ai raw_rt) [7]) < 100"
    by (simp_all add: raw_rt_def rt_genesis_def ai_genesis_def queue_of_def)
  have inj: "inj_on (generate_did (kilt_config_of raw_env)) (insert [7] (dom (worker_dids (rt_kilt raw_rt))))"
    by (simp add: dom_def)
  have time: "max (unat (5 :: u32)) (unat (6 :: u32)) \<le> min (unat (4 :: u32) + unat (100 :: u32)) (2 ^ 32 - 1)"
    by simp
  have origins: "ensure_signed (env_frame raw_env) (Signed [7]) = Inr [7]" "ensure_root (env_frame raw_env) Root = Inr ()"
      "ensure_signed (env_frame raw_env) (Signed [2]) = Inr [2]"
    by simp_all
  from onboarding_end_to_end [OF storage_layer_commit_or_discard raw_env_simps(3) raw_rt_ok(1) fresh origins
      raw_rt_ok(3) inj _ _ _ _ _ empty time refl, of "[65]" "[]" "[0]" "[80]" "[81]" 3 9]
  show ?thesis by auto
qed

end
