(* ===== verification/Event_Replay.thy ===== *)
theory Event_Replay
  imports Chain_Run_Properties
begin

text \<open>
  What an observer knows who sees only the events. A view of each pallet is folded over its event log,
  with one equation per event; the theorem says that the view is the storage, so that an indexer, or a
  worker that waits for its requests, needs nothing but the events. From the view it can also tell
  who may act.
\<close>

section \<open>Folding the events\<close>

record 'a kilt_view =
  kv_did :: "'a \<rightharpoonup> did_identifier"
  kv_status :: "'a \<rightharpoonup> credential_status"
  kv_expiry :: "did_identifier \<rightharpoonup> u32 option"
  kv_governance :: did_identifier

fun kilt_observe :: "'a kilt_view \<Rightarrow> 'a kilt_event \<Rightarrow> 'a kilt_view" where
  "kilt_observe v (WorkerDIDCreated a d) =
     v\<lparr>kv_did := (kv_did v)(a \<mapsto> d), kv_status := (kv_status v)(a \<mapsto> Active)\<rparr>"
| "kilt_observe v (WorkerCredentialIssued d expires) = v\<lparr>kv_expiry := (kv_expiry v)(d \<mapsto> expires)\<rparr>"
| "kilt_observe v (WorkerCredentialRevoked d) = v\<lparr>kv_expiry := (kv_expiry v)(d := None)\<rparr>"
| "kilt_observe v (WorkerSuspended d until) =
     v\<lparr>kv_status := (\<lambda>a. if kv_did v a = Some d then Some (Suspended until) else kv_status v a)\<rparr>"
| "kilt_observe v (GovernanceDIDSet d) = v\<lparr>kv_governance := d\<rparr>"

definition kilt_observed :: "'a kilt_event list \<Rightarrow> 'a kilt_view" where
  "kilt_observed es = foldl kilt_observe
     \<lparr>kv_did = Map.empty, kv_status = Map.empty, kv_expiry = Map.empty, kv_governance = replicate 32 0\<rparr> es"

record 'a ai_view =
  av_customer :: "u32 \<rightharpoonup> 'a"
  av_worker :: "u32 \<rightharpoonup> 'a"
  av_status :: "u32 \<rightharpoonup> request_status"
  av_queue :: "'a \<Rightarrow> u32 list"
  av_answers :: "u32 \<rightharpoonup> u32 \<times> 'a \<times> did_identifier"
  av_online :: "'a \<rightharpoonup> bool"
  av_models :: "u32 \<rightharpoonup> u8 list"

fun ai_observe :: "'a ai_view \<Rightarrow> 'a ai_event \<Rightarrow> 'a ai_view" where
  "ai_observe v (RequestSubmitted i who worker) =
     v\<lparr>av_customer := (av_customer v)(i \<mapsto> who), av_worker := (av_worker v)(i \<mapsto> worker),
       av_status := (av_status v)(i \<mapsto> Queued), av_queue := (av_queue v)(worker := av_queue v worker @ [i])\<rparr>"
| "ai_observe v (RequestAssigned i worker) = v"
| "ai_observe v (InferenceSubmitted j i worker did) =
     v\<lparr>av_answers := (av_answers v)(j \<mapsto> (i, worker, did)), av_status := (av_status v)(i \<mapsto> Completed),
       av_queue := (av_queue v)(worker := filter (\<lambda>x. x \<noteq> i) (av_queue v worker))\<rparr>"
| "ai_observe v (RequestCompleted i j) = v"
| "ai_observe v (AIWorkerStatusUpdated worker online) = v\<lparr>av_online := (av_online v)(worker \<mapsto> online)\<rparr>"
| "ai_observe v (ModelAdded m name) = v\<lparr>av_models := (av_models v)(m \<mapsto> name)\<rparr>"

definition ai_observed :: "'a ai_event list \<Rightarrow> 'a ai_view" where
  "ai_observed es = foldl ai_observe
     \<lparr>av_customer = Map.empty, av_worker = Map.empty, av_status = Map.empty, av_queue = (\<lambda>_. []),
      av_answers = Map.empty, av_online = Map.empty, av_models = Map.empty\<rparr> es"

lemma observed_append [simp]:
  "kilt_observed (es @ es') = foldl kilt_observe (kilt_observed es) es'"
  "ai_observed (fs @ fs') = foldl ai_observe (ai_observed fs) fs'"
  by (simp_all add: kilt_observed_def ai_observed_def)

section \<open>The same of the storage\<close>

definition kilt_view_of :: "'a kilt \<Rightarrow> 'a kilt_view" where
  "kilt_view_of k = \<lparr>kv_did = account_to_did k, kv_status = map_option wd_status \<circ> worker_dids k,
     kv_expiry = map_option cr_expires_at \<circ> worker_credentials k, kv_governance = governance_did k\<rparr>"

definition ai_view_of :: "'a ai \<Rightarrow> 'a ai_view" where
  "ai_view_of s = \<lparr>av_customer = map_option customer \<circ> inference_requests s,
     av_worker = map_option target_worker \<circ> inference_requests s,
     av_status = map_option req_status \<circ> inference_requests s, av_queue = queue_of s,
     av_answers = map_option (\<lambda>x. (res_request_id x, res_worker x, res_worker_did x)) \<circ> inference_results s,
     av_online = ai_worker_status s, av_models = map_option model_name \<circ> allowed_models s\<rparr>"

lemma ai_view_deposit [simp]: "ai_view_of (ai_deposit e s) = ai_view_of s"
  by (simp add: ai_view_of_def)

lemma kilt_view_deposit [simp]: "kilt_view_of (kilt_deposit e k) = kilt_view_of k"
  by (simp add: kilt_view_of_def)

section \<open>Each call shows what it does\<close>

lemma map_option_upd:
  "map_option f \<circ> m(x \<mapsto> y) = (map_option f \<circ> m)(x \<mapsto> f y)"
  "map_option f \<circ> m(x := None) = (map_option f \<circ> m)(x := None)"
  by auto

lemma ai_view_enqueued:
  "ai_view_of (enqueued who w p t now s) = ai_observe (ai_view_of s) (RequestSubmitted (next_request_id s) who w)"
  by (auto simp: ai_view_of_def enqueued_def queue_of_def fun_eq_iff)

lemma ai_view_completed_by:
  assumes "inference_requests s rid = Some q"
  shows "ai_view_of (completed_by who did rid q out now s) =
    ai_observe (ai_view_of s) (InferenceSubmitted (next_inference_id s) rid who did)"
  using assms
  by (auto simp: ai_view_of_def queue_of_def completed_by_def fun_eq_iff split: option.splits)

lemma ai_dispatch_observed:
  assumes "ai_observed (ai_events s) = ai_view_of s" and "ai_dispatch fw kp mq now origin c s = (Inr r, s')"
  shows "ai_observed (ai_events s') = ai_view_of s'"
proof (cases c)
  case (SubmitRequest w p t)
  have "ai_events (enqueued who w p t now s) = ai_events s" for who by (simp add: enqueued_def)
  with SubmitRequest assms show ?thesis by (auto simp: ai_ok_iffs ai_view_enqueued)
next
  case (SubmitInference rid out)
  have "ai_events (completed_by who did rid q out now s) = ai_events s" for who did q by (simp add: completed_by_def)
  with SubmitInference assms show ?thesis by (auto simp: ai_ok_iffs ai_view_completed_by)
qed (use assms in \<open>auto simp: ai_ok_iffs ai_view_of_def queue_of_def fun_eq_iff\<close>)

lemma kilt_suspend_observed:
  assumes "iter_ok cfg" and "kilt_inv cfg k" and "no_collision cfg k"
  shows "map_option wd_status \<circ> suspend_loop d until (worker_dids_iter cfg (worker_dids k)) (worker_dids k) =
    (\<lambda>a. if account_to_did k a = Some d then Some (Suspended until) else map_option wd_status (worker_dids k a))"
proof (cases "find_did d (worker_dids_iter cfg (worker_dids k))")
  case None
  then have "\<forall>a w. worker_dids k a = Some w \<longrightarrow> wd_did w \<noteq> d" using find_did_None [OF assms(1,2)] by blast
  then have "account_to_did k a \<noteq> Some d" for a by (auto simp: kilt_inv_account_to_did [OF assms(2)])
  with None show ?thesis by (auto simp: suspend_loop_find)
next
  case (Some e)
  then obtain a w where e: "find_did d (worker_dids_iter cfg (worker_dids k)) = Some (a, w)" by (cases e) simp
  from find_did_sound [OF assms(1,2) e] have w: "worker_dids k a = Some w" "wd_did w = d" by simp_all
  have d: "account_to_did k b = Some d \<longleftrightarrow> b = a" for b
  proof
    assume "account_to_did k b = Some d"
    then obtain w' where w': "worker_dids k b = Some w'" "wd_did w' = d"
      by (auto simp: kilt_inv_account_to_did [OF assms(2)])
    with w kilt_inv_did [OF assms(2) w(1)] kilt_inv_did [OF assms(2) w'(1)] assms(3) show "b = a"
      by (auto simp: no_collision_def dest: inj_onD)
  qed (use w in \<open>simp add: kilt_inv_account_to_did [OF assms(2)]\<close>)
  show ?thesis unfolding d by (rule ext) (simp add: suspend_loop_find e)
qed

lemma kilt_dispatch_observed:
  assumes "iter_ok cfg" and "kilt_inv cfg k" and "no_collision cfg k"
    and "kilt_observed (kilt_events k) = kilt_view_of k" and "kilt_dispatch fw cfg now origin c k = (Inr r, k')"
  shows "kilt_observed (kilt_events k') = kilt_view_of k'"
proof (cases c)
  case (SuspendWorker d dur)
  with assms(4,5) kilt_suspend_observed [OF assms(1-3)] show ?thesis
    by (auto simp: suspend_worker_def kilt_view_of_def Let_def cong: if_cong split: sum.splits)
qed (use assms(4,5) in \<open>auto simp: set_governance_did_def create_worker_did_def issue_worker_credential_def
      revoke_worker_credential_def kilt_view_of_def map_option_upd Let_def split: sum.splits option.splits if_splits\<close>)

text \<open>Registrations are never undone, so DIDs that do not collide in the end never did.\<close>

lemma kilt_dispatch_dids_grow:
  assumes "kilt_dispatch fw cfg now origin c k = (r, k')" and "kilt_inv cfg k" and "iter_ok cfg"
  shows "dom (worker_dids k) \<subseteq> dom (worker_dids k')"
proof (cases c)
  case (SuspendWorker d dur)
  with assms(1) show ?thesis
    by (auto simp: suspend_worker_def suspend_loop_find Let_def split: sum.splits option.splits if_splits)
qed (use assms(1) in \<open>auto simp: set_governance_did_def create_worker_did_def issue_worker_credential_def
      revoke_worker_credential_def Let_def split: sum.splits option.splits if_splits\<close>)

definition rt_observed :: "('o, 'c) env \<Rightarrow> 'c runtime \<Rightarrow> bool" where
  "rt_observed env rt \<longleftrightarrow>
     (no_collision (kilt_config_of env) (rt_kilt rt) \<longrightarrow> kilt_observed (kilt_events (rt_kilt rt)) = kilt_view_of (rt_kilt rt)) \<and>
     ai_observed (ai_events (rt_ai rt)) = ai_view_of (rt_ai rt) \<and>
     faucet_inv (faucet_config_of env) (rt_faucet rt)"

lemma rt_observed_genesis: "rt_observed env (rt_genesis l)"
  by (auto simp: rt_observed_def rt_genesis_def kilt_genesis_def ai_genesis_def kilt_view_of_def ai_view_of_def
      kilt_observed_def ai_observed_def queue_of_def faucet_inv_genesis)

lemma rt_dispatch_observed:
  assumes "env_ok env" and "kilt_inv (kilt_config_of env) (rt_kilt rt)" and "rt_observed env rt"
    and "rt_dispatch env now origin c rt = (Inr r, rt')"
  shows "rt_observed env rt'"
proof (cases c)
  case (QxKiltPermissions x)
  with assms(4) have d: "kilt_dispatch (env_frame env) (kilt_config_of env) now origin x (rt_kilt rt) = (Inr (), rt_kilt rt')"
    and same: "rt_ai rt' = rt_ai rt" "rt_faucet rt' = rt_faucet rt"
    by (auto split: prod.splits)
  have it: "iter_ok (kilt_config_of env)" using assms(1) by (simp add: env_ok_def)
  have "no_collision (kilt_config_of env) (rt_kilt rt)" if "no_collision (kilt_config_of env) (rt_kilt rt')"
    using that inj_on_subset kilt_dispatch_dids_grow [OF d assms(2) it] by (auto simp: no_collision_def)
  with kilt_dispatch_observed [OF it assms(2) _ _ d] assms(3) same show ?thesis by (simp add: rt_observed_def)
next
  case (QxAi x)
  with assms(3,4) show ?thesis by (auto simp: rt_observed_def split: prod.splits intro: ai_dispatch_observed)
next
  case (QxFaucet x)
  with assms(3,4) faucet_dispatch_inv [of "faucet_config_of env" "(rt_faucet rt, rt_ledger rt)"] show ?thesis
    by (fastforce simp: rt_observed_def split: prod.splits)
qed (use assms(3,4) in \<open>auto simp: rt_observed_def split: prod.splits\<close>)

lemma genesis_kilt_inv: "kilt_inv cfg (rt_kilt (rt_genesis l0))"
  by (simp add: rt_genesis_def kilt_inv_genesis)

lemma chain_run_observed:
  assumes "storage_layer layer" and "env_ok env" and "chain_run layer env l0 tr now rt"
  shows "kilt_inv (kilt_config_of env) (rt_kilt rt) \<and> rt_observed env rt"
  by (rule chain_run_step_inv [OF assms(1,3)])
    (auto simp: rt_observed_genesis genesis_kilt_inv
      intro: rt_dispatch_observed [OF assms(2)] rt_dispatch_kilt_inv [OF assms(2)])

section \<open>The events suffice\<close>

text \<open>Who may act, from the view alone.\<close>

definition view_authorised :: "u32 \<Rightarrow> 'a kilt_view \<Rightarrow> 'a \<Rightarrow> bool" where
  "view_authorised now v a \<longleftrightarrow>
     (case kv_did v a of
        None \<Rightarrow> False
      | Some d \<Rightarrow>
          (case kv_expiry v d of None \<Rightarrow> False | Some e \<Rightarrow> (case e of None \<Rightarrow> True | Some b \<Rightarrow> now \<le> b)) \<and>
          (case kv_status v a of None \<Rightarrow> False | Some st \<Rightarrow> status_permits now st))"

lemma view_authorised_view_of:
  assumes "kilt_inv cfg k"
  shows "view_authorised now (kilt_view_of k) a \<longleftrightarrow> worker_authorised now k a"
  using assms
  by (auto simp: view_authorised_def worker_authorised_def kilt_view_of_def kilt_inv_account_to_did credential_live_def
      split: option.splits)

text \<open>
  C19: The events tell the storage. On every run of the chain in which no two registered accounts share a
  DID, folding the events of the KILT pallet gives its DIDs, the workers' statuses, the expiries of the
  credentials and the governance; folding those of the AI pallet gives every request's customer, worker
  and status, every queue in order, who answered what under which DID, the workers' online flags and
  the models' names; and counting those of the faucet gives every account's number of claims. So an
  observer of the events alone knows which accounts \<open>verify_worker_credential\<close> lets act.
\<close>

theorem events_tell_the_storage:
  assumes "storage_layer layer" and "env_ok env" and "chain_run layer env l0 tr now rt"
    and "no_collision (kilt_config_of env) (rt_kilt rt)"
  shows "kilt_observed (kilt_events (rt_kilt rt)) = kilt_view_of (rt_kilt rt) \<and>
    ai_observed (ai_events (rt_ai rt)) = ai_view_of (rt_ai rt) \<and>
    length (claim_amounts a (faucet_events (rt_faucet rt))) = unat (claim_count_get (rt_faucet rt) a) \<and>
    (view_authorised later (kilt_observed (kilt_events (rt_kilt rt))) a \<longleftrightarrow>
       (\<exists>d. get_worker_did (rt_kilt rt) a = Inr d \<and>
          verify_worker_credential (kilt_config_of env) later (rt_kilt rt) d = Inr True))"
proof -
  from chain_run_observed [OF assms(1-3)] assms(4)
  have inv: "kilt_inv (kilt_config_of env) (rt_kilt rt)"
    and k: "kilt_observed (kilt_events (rt_kilt rt)) = kilt_view_of (rt_kilt rt)"
    and rest: "ai_observed (ai_events (rt_ai rt)) = ai_view_of (rt_ai rt)"
      "faucet_inv (faucet_config_of env) (rt_faucet rt)"
    by (simp_all add: rt_observed_def)
  have "iter_ok (kilt_config_of env)" using assms(2) by (simp add: env_ok_def)
  with authorised_iff_verified [OF _ inv assms(4)] view_authorised_view_of [OF inv] k rest
  show ?thesis by (simp add: faucet_inv_def)
qed

theorem events_tell_the_storage_witness:
  "map_option (fst \<circ> snd) (av_answers (ai_observed (ai_events (rt_ai raw_answered))) 0) = Some [7]"
proof -
  obtain tr where run: "chain_run commit_or_discard raw_env (\<lambda>_. 0) tr 1 raw_answered" using raw_run by blast
  have "no_collision (kilt_config_of raw_env) (rt_kilt raw_answered)"
    by (simp add: no_collision_def raw_answered_workers)
  from events_tell_the_storage [OF storage_layer_commit_or_discard raw_env_simps(3) run this]
  have "ai_observed (ai_events (rt_ai raw_answered)) = ai_view_of (rt_ai raw_answered)" by blast
  with raw_answered_result show ?thesis
    by (auto simp: ai_view_of_def)
qed

end
