(* ===== verification/Chain_History.thy ===== *)
theory Chain_History
  imports Event_Replay
begin

text \<open>
  The AI pallet's storage as a function of the history of the chain. \<open>requests_of\<close> and \<open>answers_of\<close> list what
  the successful extrinsics of a trace asked and answered; the storage is nothing but these two lists,
  numbered from 0, and the queues are read off them. The second part is where each answer comes from, and the
  history of its worker's suspensions.
\<close>

section \<open>The two lists\<close>

fun request_in :: "('o, 'c) env \<Rightarrow> ('o, 'c) extrinsic \<Rightarrow> account_id inference_request option" where
  "request_in env e =
     (case (xt_call e, ensure_signed (env_frame env) (xt_origin e)) of
        (QxAi (SubmitRequest w p t), Inr who) \<Rightarrow>
          if xt_ok e
          then Some \<lparr>customer = who, target_worker = w, prompt = p, max_tokens = t, req_status = Queued, created_at = xt_block e\<rparr>
          else None
      | _ \<Rightarrow> None)"

fun answer_in :: "('o, 'c) env \<Rightarrow> ('o, 'c) extrinsic \<Rightarrow> account_id inference_result option" where
  "answer_in env e =
     (case (xt_call e, ensure_signed (env_frame env) (xt_origin e)) of
        (QxAi (SubmitInference rid out), Inr who) \<Rightarrow>
          if xt_ok e
          then Some \<lparr>res_request_id = rid, res_worker = who, res_worker_did = generate_did (kilt_config_of env) who,
            res_output = out, res_status = Inference_Completed, submitted_at = xt_block e\<rparr>
          else None
      | _ \<Rightarrow> None)"

definition requests_of :: "('o, 'c) env \<Rightarrow> ('o, 'c) extrinsic list \<Rightarrow> account_id inference_request list" where
  "requests_of env tr = List.map_filter (request_in env) tr"

definition answers_of :: "('o, 'c) env \<Rightarrow> ('o, 'c) extrinsic list \<Rightarrow> account_id inference_result list" where
  "answers_of env tr = List.map_filter (answer_in env) tr"

definition answered :: "'a inference_result list \<Rightarrow> u32 set" where
  "answered A = res_request_id ` set A"

lemma history_simps:
  "requests_of env [] = []" "answers_of env [] = []"
  "requests_of env (tr @ [e]) = requests_of env tr @ (case request_in env e of None \<Rightarrow> [] | Some q \<Rightarrow> [q])"
  "answers_of env (tr @ [e]) = answers_of env tr @ (case answer_in env e of None \<Rightarrow> [] | Some x \<Rightarrow> [x])"
  by (simp_all add: requests_of_def answers_of_def map_filter_def split: option.splits)

lemma history_length:
  "length (requests_of env tr) \<le> length tr" "length (answers_of env tr) \<le> length tr"
  by (simp_all add: requests_of_def answers_of_def map_filter_def)

section \<open>A storage that is two lists\<close>

definition books :: "'a ai \<Rightarrow> 'a inference_request list \<Rightarrow> 'a inference_result list \<Rightarrow> bool" where
  "books s R A \<longleftrightarrow>
     unat (next_request_id s) = length R \<and> unat (next_inference_id s) = length A \<and>
     (\<forall>i. inference_requests s i = (if unat i < length R
        then Some ((R ! unat i)\<lparr>req_status := if i \<in> answered A then Completed else Queued\<rparr>) else None)) \<and>
     (\<forall>j. inference_results s j = (if unat j < length A then Some (A ! unat j) else None)) \<and>
     distinct (map res_request_id A) \<and> (\<forall>x\<in>set A. unat (res_request_id x) < length R)"

lemma books_genesis: "books ai_genesis [] []"
  by (simp add: books_def ai_genesis_def)

lemma books_deposit [simp]: "books (ai_deposit e s) R A = books s R A"
  by (simp add: books_def)

lemma books_same [simp]:
  "books (s\<lparr>ai_worker_status := st\<rparr>) R A = books s R A" "books (s\<lparr>allowed_models := m\<rparr>) R A = books s R A"
  by (simp_all add: books_def)

lemma books_enqueued:
  assumes "books s R A" and "next_request_id s \<noteq> - 1"
  shows "books (enqueued who w p t now s)
    (R @ [\<lparr>customer = who, target_worker = w, prompt = p, max_tokens = t, req_status = Queued, created_at = now\<rparr>]) A"
proof -
  have n: "unat (next_request_id s) = length R" and old: "\<forall>x\<in>set A. unat (res_request_id x) < length R"
    using assms(1) by (simp_all add: books_def)
  then have "next_request_id s \<notin> answered A" by (auto simp: answered_def)
  moreover have "\<not> unat (next_request_id s) < length R" by (simp add: n)
  moreover have "unat i = length R \<longleftrightarrow> i = next_request_id s" for i by (simp add: n [symmetric] word_unat_eq_iff)
  ultimately show ?thesis
    using assms(1) unat_Suc_no_wrap [OF assms(2)]
    by (auto simp: books_def enqueued_def nth_append less_Suc_eq)
qed

lemma books_completed_by:
  assumes "books s R A" and "next_inference_id s \<noteq> - 1" and "inference_requests s rid = Some q" and "req_status q = Queued"
  shows "books (completed_by who did rid q out now s) R (A @ [\<lparr>res_request_id = rid, res_worker = who, res_worker_did = did,
    res_output = out, res_status = Inference_Completed, submitted_at = now\<rparr>])"
proof -
  have n: "unat (next_inference_id s) = length A" using assms(1) by (simp add: books_def)
  have q: "unat rid < length R" "q = (R ! unat rid)\<lparr>req_status := if rid \<in> answered A then Completed else Queued\<rparr>"
    using assms(1,3) by (auto simp: books_def split: if_splits)
  with assms(4) have "rid \<notin> answered A" by (auto split: if_splits)
  moreover have "\<not> unat (next_inference_id s) < length A" by (simp add: n)
  moreover have "unat j = length A \<longleftrightarrow> j = next_inference_id s" for j by (simp add: n [symmetric] word_unat_eq_iff)
  ultimately show ?thesis
    using assms(1) unat_Suc_no_wrap [OF assms(2)] q
    by (auto simp: books_def completed_by_def answered_def nth_append less_Suc_eq)
qed

section \<open>The chain keeps the books\<close>

lemma rt_dispatch_books:
  assumes "rt_dispatch env now origin c rt = (Inr r, rt')" and "kilt_inv (kilt_config_of env) (rt_kilt rt)"
    and "books (rt_ai rt) (requests_of env tr) (answers_of env tr)"
    and "next_request_id (rt_ai rt) \<noteq> - 1" and "next_inference_id (rt_ai rt) \<noteq> - 1"
    and "e = \<lparr>xt_block = now, xt_origin = origin, xt_call = c, xt_ok = True\<rparr>"
  shows "books (rt_ai rt') (requests_of env (tr @ [e])) (answers_of env (tr @ [e]))"
proof (cases c)
  case (QxAi x)
  let ?kp = "KiltPermissionsImpl (kilt_config_of env) (rt_kilt rt) now"
  from QxAi assms(1) have d: "ai_dispatch (env_frame env) ?kp MaxQueueSize now origin x (rt_ai rt) = (Inr r, rt_ai rt')"
    by (auto split: prod.splits)
  show ?thesis
  proof (cases x)
    case (SubmitRequest w p t)
    from d obtain who where "ensure_signed (env_frame env) origin = Inr who"
      and "books (rt_ai rt') = books (enqueued who w p t now (rt_ai rt))"
      by (auto simp: SubmitRequest ai_ok_iffs fun_eq_iff)
    with QxAi SubmitRequest assms(6) books_enqueued [OF assms(3,4)] show ?thesis by (simp add: history_simps)
  next
    case (SubmitInference rid out)
    from d obtain who did q where who: "ensure_signed (env_frame env) origin = Inr who" and cred: "credentialed ?kp who did"
      and q: "inference_requests (rt_ai rt) rid = Some q" "req_status q = Queued"
      and s': "books (rt_ai rt') = books (completed_by who did rid q out now (rt_ai rt))"
      by (auto simp: SubmitInference ai_ok_iffs fun_eq_iff)
    from cred have "account_to_did (rt_kilt rt) who = Some did"
      by (auto simp: credentialed_def KiltPermissionsImpl_def get_worker_did_def split: option.splits)
    then have "did = generate_did (kilt_config_of env) who"
      using kilt_inv_did [OF assms(2)] by (auto simp: kilt_inv_account_to_did [OF assms(2)])
    with QxAi SubmitInference assms(6) books_completed_by [OF assms(3,5) q, of who did out now] who s'
    show ?thesis by (simp add: history_simps)
  qed (use d QxAi assms(3,6) in \<open>auto simp: ai_ok_iffs history_simps\<close>)
qed (use assms(1,3,6) in \<open>auto simp: history_simps split: prod.splits\<close>)

lemma failed_no_history:
  assumes "\<not> xt_ok e"
  shows "requests_of env (tr @ [e]) = requests_of env tr" and "answers_of env (tr @ [e]) = answers_of env tr"
  using assms by (simp_all add: history_simps split: prod.splits runtime_call.splits ai_call.splits sum.splits option.splits)

lemma chain_run_books:
  assumes "storage_layer layer" and "env_ok env" and "chain_run layer env l0 tr now rt" and "length tr \<le> 2 ^ 32 - 1"
  shows "books (rt_ai rt) (requests_of env tr) (answers_of env tr)"
  using assms(3,4)
proof induction
  case cr_genesis
  show ?case by (simp add: history_simps rt_genesis_def books_genesis)
next
  case (cr_apply tr now rt c origin)
  let ?d = "rt_dispatch env now origin c rt"
  let ?e = "\<lparr>xt_block = now, xt_origin = origin, xt_call = c, xt_ok = (\<not> isl (fst ?d))\<rparr>"
  from cr_apply have IH: "books (rt_ai rt) (requests_of env tr) (answers_of env tr)" and n: "length tr < 2 ^ 32 - 1" by simp_all
  show ?case
  proof (cases "fst ?d")
    case (Inl x)
    with IH assms(1) failed_no_history [of ?e] show ?thesis by (simp add: layering)
  next
    case (Inr r)
    then have d: "?d = (Inr r, snd ?d)" by (simp add: prod_eq_iff)
    have "unat (next_request_id (rt_ai rt)) < 2 ^ 32 - 1" and "unat (next_inference_id (rt_ai rt)) < 2 ^ 32 - 1"
      using IH n history_length [of env tr] by (simp_all add: books_def)
    then have "next_request_id (rt_ai rt) \<noteq> - 1" and "next_inference_id (rt_ai rt) \<noteq> - 1" by (auto simp: unat_max_word)
    from rt_dispatch_books [OF d chain_run_kilt_inv [OF assms(1,2) cr_apply.hyps(1)] IH this refl] Inr assms(1)
    show ?thesis by (simp add: layering)
  qed
qed simp

lemma chain_run_queue:
  assumes "storage_layer layer" and "env_ok env" and "chain_run layer env l0 tr now rt" and "length tr \<le> 2 ^ 32 - 1"
  defines "R \<equiv> requests_of env tr" and "A \<equiv> answers_of env tr"
  shows "queue_of (rt_ai rt) w =
    filter (\<lambda>i. target_worker (R ! unat i) = w \<and> i \<notin> answered A) (map of_nat [0..<length R])"
proof -
  have b: "books (rt_ai rt) R A" unfolding R_def A_def by (rule chain_run_books [OF assms(1-4)])
  have R: "length R < 2 ^ 32" using history_length(1) [of env tr] assms(4) by (simp add: R_def)
  have q: "sorted_wrt (<) (queue_of (rt_ai rt) w)" "set (queue_of (rt_ai rt) w) = pending (rt_ai rt) w"
    using chain_run_inv [OF assms(1-4)] by (auto simp: rt_inv_def ai_inv_def queues_ok_def)
  have u: "unat (of_nat k :: u32) = k" if "k < length R" for k using that R by (simp add: unat_of_nat_small)
  let ?l = "filter (\<lambda>i. target_worker (R ! unat i) = w \<and> i \<notin> answered A) (map of_nat [0..<length R]) :: u32 list"
  have "sorted_wrt (<) (map of_nat [0..<length R] :: u32 list)"
    by (simp add: sorted_wrt_iff_nth_less word_less_nat_alt u)
  then have "sorted_wrt (<) ?l" by (rule strict_sorted_filter)
  moreover have "i \<in> set ?l \<longleftrightarrow> i \<in> pending (rt_ai rt) w" for i
  proof -
    have "i \<in> of_nat ` {0..<length R} \<longleftrightarrow> unat i < length R" by (auto simp: u intro!: image_eqI [of _ _ "unat i"])
    then show ?thesis using b by (auto simp: pending_def books_def)
  qed
  ultimately show ?thesis using q by (intro sorted_distinct_set_unique) (auto simp: strict_sorted_iff)
qed

text \<open>
  C3: The AI pallet's storage is the history of the chain. On every run with fewer than \<open>2 ^ 32\<close> extrinsics
  request \<open>i\<close> is the \<open>i\<close>-th successful \<open>submit_request\<close> of the trace, with its signer as the customer, its
  arguments and its block, and it is completed exactly if the trace answers it; result \<open>j\<close> is the
  \<open>j\<close>-th successful \<open>submit_inference\<close>, under the DID of its signer; no request is answered twice; the
  counters are the lengths of the two lists; and a worker's queue lists, in the order of submission, the
  requests to it that nobody has answered. Nothing else is in these maps.
\<close>

theorem storage_is_history:
  fixes env :: "('o, 'c) env"
  assumes "storage_layer layer" and "env_ok env" and "chain_run layer env l0 tr now rt" and "length tr \<le> 2 ^ 32 - 1"
  defines "R \<equiv> requests_of env tr" and "A \<equiv> answers_of env tr"
  shows "unat (next_request_id (rt_ai rt)) = length R \<and> unat (next_inference_id (rt_ai rt)) = length A \<and>
    (\<forall>i. inference_requests (rt_ai rt) i = (if unat i < length R
       then Some ((R ! unat i)\<lparr>req_status := if i \<in> res_request_id ` set A then Completed else Queued\<rparr>) else None)) \<and>
    (\<forall>j. get_inference_result (rt_ai rt) j = (if unat j < length A then Some (A ! unat j) else None)) \<and>
    distinct (map res_request_id A) \<and>
    (\<forall>w. queue_of (rt_ai rt) w =
       filter (\<lambda>i. target_worker (R ! unat i) = w \<and> i \<notin> res_request_id ` set A) (map of_nat [0..<length R]))"
  using chain_run_books [OF assms(1-4)] chain_run_queue [OF assms(1-4)]
  unfolding R_def A_def books_def answered_def get_inference_result_def by blast

lemma raw_answered_counters:
  "next_request_id (rt_ai raw_answered) = 1" "next_inference_id (rt_ai raw_answered) = 1"
  by (simp_all add: raw_history_defs)

theorem storage_is_history_witness:
  "\<exists>tr. chain_run commit_or_discard raw_env (\<lambda>_. 0) tr 1 raw_answered \<and>
     length (requests_of raw_env tr) = 1 \<and> map res_worker (answers_of raw_env tr) = [[7]]"
proof -
  obtain tr where run: "chain_run commit_or_discard raw_env (\<lambda>_. 0) tr 1 raw_answered" and n: "length tr \<le> 2 ^ 32 - 1"
    using raw_run by fastforce
  note history = storage_is_history [OF storage_layer_commit_or_discard raw_env_simps(3) run n]
  have R: "length (requests_of raw_env tr) = 1" and A: "length (answers_of raw_env tr) = 1"
    using history unfolding raw_answered_counters by simp_all
  have "get_inference_result (rt_ai raw_answered) 0 = Some (answers_of raw_env tr ! 0)"
    using history A by simp
  with raw_answered_result have "res_worker (answers_of raw_env tr ! 0) = [7]" by (simp add: get_inference_result_def)
  moreover from A obtain x where "answers_of raw_env tr = [x]" by (auto simp: length_Suc_conv)
  ultimately show ?thesis using run R by auto
qed

section \<open>Where answers come from\<close>

text \<open>The request counter counts the successful requests, also past the end of its range.\<close>

lemma rt_dispatch_request_count:
  assumes "rt_dispatch env now origin c rt = (Inr r, rt')"
    and "next_request_id (rt_ai rt) = of_nat (length (requests_of env tr))"
    and "e = \<lparr>xt_block = now, xt_origin = origin, xt_call = c, xt_ok = True\<rparr>"
  shows "next_request_id (rt_ai rt') = of_nat (length (requests_of env (tr @ [e])))"
proof (cases c)
  case (QxAi x)
  with assms show ?thesis
    by (cases x) (auto simp: ai_ok_iffs history_simps enqueued_def completed_by_def split: prod.splits)
qed (use assms in \<open>auto simp: history_simps split: prod.splits\<close>)

lemma chain_run_request_count:
  assumes "storage_layer layer" and "chain_run layer env l0 tr now rt"
  shows "next_request_id (rt_ai rt) = of_nat (length (requests_of env tr))"
  using assms(2)
proof induction
  case cr_genesis
  show ?case by (simp add: history_simps rt_genesis_def ai_genesis_def)
next
  case (cr_apply tr now rt c origin)
  let ?d = "rt_dispatch env now origin c rt"
  let ?e = "\<lparr>xt_block = now, xt_origin = origin, xt_call = c, xt_ok = (\<not> isl (fst ?d))\<rparr>"
  show ?case
  proof (cases "fst ?d")
    case (Inl x)
    with cr_apply.IH assms(1) failed_no_history [of ?e] show ?thesis by (simp add: layering)
  next
    case (Inr r)
    then have d: "?d = (Inr r, snd ?d)" by (simp add: prod_eq_iff)
    from rt_dispatch_request_count [OF d cr_apply.IH refl] Inr assms(1) show ?thesis by (simp add: layering)
  qed
qed

lemma request_origin:
  assumes "storage_layer layer" and "chain_run layer env l0 tr now rt" and "inference_requests (rt_ai rt) i = Some q"
  obtains p1 e p2 where "tr = p1 @ e # p2" and "xt_ok e"
    and "xt_call e = QxAi (SubmitRequest (target_worker q) (prompt q) (max_tokens q))"
    and "ensure_signed (env_frame env) (xt_origin e) = Inr (customer q)"
    and "i = of_nat (length (requests_of env p1))"
proof -
  obtain pre e post rt0 rt1 where e: "tr = pre @ e # post" "applied layer env l0 pre e rt0 rt1"
    and new: "\<not> requested (rt_ai rt0) i q" "requested (rt_ai rt1) i q"
    by (rule acquired [OF assms(1,2), where P = "\<lambda>rt. requested (rt_ai rt) i q"])
      (use requested_self [OF assms(3)] in simp_all)
  from e(2) obtain r where d: "rt_dispatch env (xt_block e) (xt_origin e) (xt_call e) rt0 = (Inr r, rt1)" and "xt_ok e"
    and run: "chain_run layer env l0 pre (xt_block e) rt0"
    by (auto simp: applied_def)
  with request_acquired [OF d new] request_acquired_number [OF d new] chain_run_request_count [OF assms(1) run] that [OF e(1)]
  show ?thesis by auto
qed

text \<open>
  C2: Every stored answer can be traced back to the governance. On any run of the chain, if a result is
  stored, then at the block it names its worker signed and successfully submitted exactly this output
  for exactly this request; before that a customer had sent this request to this worker, as the successful
  \<open>submit_request\<close> whose number in the trace is the request's (up to the range of the counter); before the answer the
  governance had issued a credential for the worker's DID, whose validity covers the block, and had not
  revoked it since; and the worker had registered the DID, the one generated from its account.
\<close>

theorem answers_trace_to_governance:
  fixes env :: "('o, 'c) env"
  assumes "storage_layer layer" and "chain_run layer env l0 tr now rt"
    and "get_inference_result (rt_ai rt) j = Some x"
  shows "\<exists>pre e post. tr = pre @ e # post \<and> xt_ok e \<and> xt_block e = submitted_at x \<and>
    xt_call e = QxAi (SubmitInference (res_request_id x) (res_output x)) \<and>
    ensure_signed (env_frame env) (xt_origin e) = Inr (res_worker x) \<and>
    res_worker_did x = generate_did (kilt_config_of env) (res_worker x) \<and>
    (\<exists>p1 q p2 customer p tokens. pre = p1 @ q # p2 \<and> xt_ok q \<and>
       xt_call q = QxAi (SubmitRequest (res_worker x) p tokens) \<and> ensure_signed (env_frame env) (xt_origin q) = Inr customer \<and>
       res_request_id x = of_nat (length (requests_of env p1))) \<and>
    (\<exists>p1 g p2 models validity. pre = p1 @ g # p2 \<and> xt_ok g \<and> ensure_root (env_frame env) (xt_origin g) = Inr () \<and>
       xt_call g = QxKiltPermissions (IssueWorkerCredential (res_worker_did x) models validity) \<and>
       (\<forall>v. validity = Some v \<longrightarrow> submitted_at x \<le> saturating_add (xt_block g) v) \<and>
       (\<forall>y\<in>set p2. xt_ok y \<longrightarrow> xt_call y \<noteq> QxKiltPermissions (RevokeWorkerCredential (res_worker_did x)))) \<and>
    (\<exists>c\<in>set pre. \<exists>name desc. xt_ok c \<and> xt_call c = QxKiltPermissions (CreateWorkerDid name desc) \<and>
       ensure_signed (env_frame env) (xt_origin c) = Inr (res_worker x))"
proof -
  from assms(3) have "inference_results (rt_ai rt) j = Some x" by (simp add: get_inference_result_def)
  then obtain pre e post rt0 rt1 r where e: "tr = pre @ e # post" "xt_ok e"
    and run: "chain_run layer env l0 pre (xt_block e) rt0"
    and d: "rt_dispatch env (xt_block e) (xt_origin e) (xt_call e) rt0 = (Inr r, rt1)"
    and new: "inference_results (rt_ai rt0) j \<noteq> Some x" "inference_results (rt_ai rt1) j = Some x"
    by (rule result_origin [OF assms(1,2)])
  note res = result_acquired [OF d new]
  from res obtain q where q: "inference_requests (rt_ai rt0) (res_request_id x) = Some q" "target_worker q = res_worker x"
    by blast
  from res have "verify_worker_credential (kilt_config_of env) (submitted_at x) (rt_kilt rt0) (res_worker_did x) = Inr True"
    by simp
  then obtain cr where cr: "worker_credentials (rt_kilt rt0) (res_worker_did x) = Some cr" "credential_live (submitted_at x) cr"
    by (auto simp: verify_unfold split: option.splits if_splits)
  from res have did: "account_to_did (rt_kilt rt0) (res_worker x) = Some (res_worker_did x)"
    by (auto simp: get_worker_did_def split: option.splits)
  obtain q1 er q2 where er: "pre = q1 @ er # q2" "xt_ok er" "xt_call er = QxAi (SubmitRequest (res_worker x) (prompt q) (max_tokens q))"
      "ensure_signed (env_frame env) (xt_origin er) = Inr (customer q)" "res_request_id x = of_nat (length (requests_of env q1))"
    by (rule request_origin [OF assms(1) run q(1)]) (simp add: q(2))
  obtain p1 eg p2 validity where eg: "pre = p1 @ eg # p2" "xt_ok eg" "ensure_root (env_frame env) (xt_origin eg) = Inr ()"
      "xt_call eg = QxKiltPermissions (IssueWorkerCredential (res_worker_did x) (cr_models cr) validity)"
    and expires: "cr_expires_at cr = map_option (saturating_add (xt_block eg)) validity"
    and kept: "\<forall>y\<in>set p2. xt_ok y \<longrightarrow> xt_call y \<noteq> QxKiltPermissions (RevokeWorkerCredential (res_worker_did x))"
    by (rule credential_origin [OF assms(1) run cr(1)])
  from expires cr(2) have until: "\<forall>v. validity = Some v \<longrightarrow> submitted_at x \<le> saturating_add (xt_block eg) v"
    by (auto simp: credential_live_def)
  obtain ec name desc where ec: "ec \<in> set pre" "xt_ok ec" "xt_call ec = QxKiltPermissions (CreateWorkerDid name desc)"
      "ensure_signed (env_frame env) (xt_origin ec) = Inr (res_worker x)"
    and did: "res_worker_did x = generate_did (kilt_config_of env) (res_worker x)"
    by (rule registration_origin [OF assms(1) run did])
  have "\<exists>p1 q p2 customer p tokens. pre = p1 @ q # p2 \<and> xt_ok q \<and>
       xt_call q = QxAi (SubmitRequest (res_worker x) p tokens) \<and> ensure_signed (env_frame env) (xt_origin q) = Inr customer \<and>
       res_request_id x = of_nat (length (requests_of env p1))" using er by blast
  moreover have "\<exists>p1 g p2 models validity. pre = p1 @ g # p2 \<and> xt_ok g \<and> ensure_root (env_frame env) (xt_origin g) = Inr () \<and>
       xt_call g = QxKiltPermissions (IssueWorkerCredential (res_worker_did x) models validity) \<and>
       (\<forall>v. validity = Some v \<longrightarrow> submitted_at x \<le> saturating_add (xt_block g) v) \<and>
       (\<forall>y\<in>set p2. xt_ok y \<longrightarrow> xt_call y \<noteq> QxKiltPermissions (RevokeWorkerCredential (res_worker_did x)))" using eg until kept by blast
  moreover have "\<exists>c\<in>set pre. \<exists>name desc. xt_ok c \<and> xt_call c = QxKiltPermissions (CreateWorkerDid name desc) \<and>
       ensure_signed (env_frame env) (xt_origin c) = Inr (res_worker x)" using ec by blast
  ultimately show ?thesis using e did res by (intro exI [of _ post] exI [of _ e] exI [of _ pre]) auto
qed

theorem answers_trace_to_governance_witness:
  "\<exists>tr now (rt :: (account_id \<Rightarrow> u128) runtime). chain_run commit_or_discard raw_env (\<lambda>_. 0) tr now rt \<and>
     (\<exists>g\<in>set tr. \<exists>models validity. ensure_root (env_frame raw_env) (xt_origin g) = Inr () \<and>
        xt_call g = QxKiltPermissions (IssueWorkerCredential (7 # replicate 31 0) models validity))"
proof -
  obtain tr where run: "chain_run commit_or_discard raw_env (\<lambda>_. 0) tr 1 raw_answered" using raw_run by blast
  obtain x where x: "get_inference_result (rt_ai raw_answered) 0 = Some x" "res_worker x = [7]"
    using raw_answered_result by (auto simp: get_inference_result_def)
  have did: "generate_did (kilt_config_of raw_env) [7] = 7 # replicate 31 0"
    by (simp add: generate_did_def kilt_config_of_def raw_env_def)
  from answers_trace_to_governance [OF storage_layer_commit_or_discard run x(1)] run
  show ?thesis unfolding x(2) by (fastforce simp: did)
qed

section \<open>Suspensions\<close>

text \<open>The last block of a suspension that was ordered at a block.\<close>

definition suspended_until :: "('o, 'c) env \<Rightarrow> u32 \<Rightarrow> u32 option \<Rightarrow> u32" where
  "suspended_until env now duration =
     saturating_add now (case duration of None \<Rightarrow> worker_suspension_period (kilt_config_of env) | Some n \<Rightarrow> n)"

text \<open>The status of a registered account, while no two registered accounts share a DID.\<close>

definition has_status :: "('o, 'c) env \<Rightarrow> account_id \<Rightarrow> credential_status \<Rightarrow> 'c runtime \<Rightarrow> bool" where
  "has_status env a st rt \<longleftrightarrow> no_collision (kilt_config_of env) (rt_kilt rt) \<and>
     map_option wd_status (worker_dids (rt_kilt rt) a) = Some st"

lemma rt_no_collision_back:
  assumes "env_ok env" and "kilt_inv (kilt_config_of env) (rt_kilt rt)" and "rt_dispatch env now origin c rt = (Inr r, rt')"
    and "no_collision (kilt_config_of env) (rt_kilt rt')"
  shows "no_collision (kilt_config_of env) (rt_kilt rt)"
proof (cases c)
  case (QxKiltPermissions x)
  with assms(3) have "kilt_dispatch (env_frame env) (kilt_config_of env) now origin x (rt_kilt rt) = (Inr (), rt_kilt rt')"
    by (auto split: prod.splits)
  from kilt_dispatch_dids_grow [OF this assms(2)] assms(1,4) show ?thesis
    unfolding no_collision_def env_ok_def by (blast intro: inj_on_subset)
qed (use assms(3,4) in \<open>auto split: prod.splits\<close>)

lemma suspension_hits:
  assumes "env_ok env" and "kilt_inv (kilt_config_of env) (rt_kilt rt)" and "has_status env a st rt"
    and "rt_dispatch env now origin (QxKiltPermissions (SuspendWorker (generate_did (kilt_config_of env) a) dur)) rt = (Inr r, rt')"
  shows "map_option wd_status (worker_dids (rt_kilt rt') a) = Some (Suspended (suspended_until env now dur))"
proof -
  from assms(3) obtain w where w: "worker_dids (rt_kilt rt) a = Some w" by (auto simp: has_status_def)
  have "iter_ok (kilt_config_of env)" and "no_collision (kilt_config_of env) (rt_kilt rt)"
    using assms(1,3) by (simp_all add: env_ok_def has_status_def)
  from suspend_dids [OF this(1) assms(2) this(2) w] assms(4) show ?thesis
    by (auto simp: kilt_inv_did [OF assms(2) w] suspend_worker_def suspended_until_def Let_def split: prod.splits sum.splits)
qed

lemma kilt_status_acquired:
  assumes "iter_ok cfg" and "kilt_inv cfg k" and "kilt_dispatch fw cfg now origin c k = (Inr (), k')"
    and "map_option wd_status (worker_dids k a) \<noteq> Some st" and "map_option wd_status (worker_dids k' a) = Some st"
  shows "(ensure_signed fw origin = Inr a \<and> (\<exists>name desc. c = CreateWorkerDid name desc)) \<or>
    (\<exists>did dur. c = SuspendWorker did dur \<and> did = generate_did cfg a \<and> ensure_root fw origin = Inr () \<and>
       st = Suspended (saturating_add now (case dur of None \<Rightarrow> worker_suspension_period cfg | Some n \<Rightarrow> n)))"
proof (cases c)
  case (SuspendWorker did dur)
  let ?until = "saturating_add now (case dur of None \<Rightarrow> worker_suspension_period cfg | Some n \<Rightarrow> n)"
  from SuspendWorker assms(3) have root: "ensure_root fw origin = Inr ()"
    and k': "worker_dids k' = suspend_loop did ?until (worker_dids_iter cfg (worker_dids k)) (worker_dids k)"
    by (auto simp: suspend_worker_def Let_def split: sum.splits)
  from k' assms(4,5) obtain w where f: "find_did did (worker_dids_iter cfg (worker_dids k)) = Some (a, w)"
    and st: "st = Suspended ?until"
    by (auto simp: suspend_loop_find split: option.splits if_splits)
  from find_did_sound [OF assms(1,2) f] kilt_inv_did [OF assms(2)] have "did = generate_did cfg a" by blast
  with SuspendWorker root st show ?thesis by simp
qed (use assms(3-5) in \<open>auto simp: set_governance_did_def create_worker_did_def issue_worker_credential_def
    revoke_worker_credential_def Let_def split: sum.splits option.splits if_splits\<close>)

lemma status_acquired:
  assumes "env_ok env" and "kilt_inv (kilt_config_of env) (rt_kilt rt0)"
    and "rt_dispatch env now origin c rt0 = (Inr r, rt1)"
    and "map_option wd_status (worker_dids (rt_kilt rt0) a) \<noteq> Some st" and "map_option wd_status (worker_dids (rt_kilt rt1) a) = Some st"
  shows "(ensure_signed (env_frame env) origin = Inr a \<and> (\<exists>name desc. c = QxKiltPermissions (CreateWorkerDid name desc))) \<or>
    (\<exists>dur. c = QxKiltPermissions (SuspendWorker (generate_did (kilt_config_of env) a) dur) \<and> ensure_root (env_frame env) origin = Inr () \<and>
       st = Suspended (suspended_until env now dur))"
proof (cases c)
  case (QxKiltPermissions x)
  then have d: "kilt_dispatch (env_frame env) (kilt_config_of env) now origin x (rt_kilt rt0) = (Inr (), rt_kilt rt1)"
    using assms(3) by (auto split: prod.splits)
  have "iter_ok (kilt_config_of env)" using assms(1) by (simp add: env_ok_def)
  from kilt_status_acquired [OF this assms(2) d assms(4,5)] QxKiltPermissions show ?thesis
    by (auto simp: suspended_until_def)
qed (use assms(3-5) in \<open>auto split: prod.splits\<close>)

lemma status_origin:
  assumes "storage_layer layer" and "env_ok env" and "chain_run layer env l0 tr now rt" and "has_status env a st rt"
  obtains p1 e p2 where "tr = p1 @ e # p2" and "xt_ok e"
    and "(ensure_signed (env_frame env) (xt_origin e) = Inr a \<and> (\<exists>name desc. xt_call e = QxKiltPermissions (CreateWorkerDid name desc))) \<or>
      (\<exists>dur. xt_call e = QxKiltPermissions (SuspendWorker (generate_did (kilt_config_of env) a) dur) \<and>
         ensure_root (env_frame env) (xt_origin e) = Inr () \<and> st = Suspended (suspended_until env (xt_block e) dur))"
    and "\<forall>x\<in>set p2. \<forall>dur. xt_ok x \<longrightarrow>
      xt_call x = QxKiltPermissions (SuspendWorker (generate_did (kilt_config_of env) a) dur) \<longrightarrow>
      st = Suspended (suspended_until env (xt_block x) dur)"
proof -
  have "\<not> has_status env a st (rt_genesis l0)" by (simp add: has_status_def rt_genesis_def kilt_genesis_def)
  from acquired_last [OF assms(1,3), of "has_status env a st", OF assms(4) this]
  obtain p1 e p2 rt0 rt1 where e: "tr = p1 @ e # p2" "applied layer env l0 p1 e rt0 rt1"
    and new: "\<not> has_status env a st rt0" "has_status env a st rt1"
    and kept: "\<forall>x\<in>set p2. kept_by layer env l0 (has_status env a st) x" by blast
  from e(2) obtain r where d: "rt_dispatch env (xt_block e) (xt_origin e) (xt_call e) rt0 = (Inr r, rt1)" and ok: "xt_ok e"
    and run: "chain_run layer env l0 p1 (xt_block e) rt0"
    by (auto simp: applied_def)
  note inv = chain_run_kilt_inv [OF assms(1,2) run]
  from new rt_no_collision_back [OF assms(2) inv d] have "map_option wd_status (worker_dids (rt_kilt rt0) a) \<noteq> Some st"
    and "map_option wd_status (worker_dids (rt_kilt rt1) a) = Some st"
    by (auto simp: has_status_def)
  note acq = status_acquired [OF assms(2) inv d this]
  have "st = Suspended (suspended_until env (xt_block x) dur)"
    if x: "x \<in> set p2" "xt_ok x" "xt_call x = QxKiltPermissions (SuspendWorker (generate_did (kilt_config_of env) a) dur)" for x dur
  proof -
    from kept x obtain pre ra rb r where ra: "chain_run layer env l0 pre (xt_block x) ra" "has_status env a st ra"
      and rb: "has_status env a st rb" and dx: "rt_dispatch env (xt_block x) (xt_origin x) (xt_call x) ra = (Inr r, rb)"
      unfolding kept_by_def applied_def by blast
    from suspension_hits [OF assms(2) chain_run_kilt_inv [OF assms(1,2) ra(1)] ra(2) dx [unfolded x(3)]] rb
    show ?thesis by (auto simp: has_status_def)
  qed
  with that [OF e(1) ok acq] show ?thesis by blast
qed

text \<open>
  C4: Nobody answers while suspended. On any run of the chain in which no two registered accounts share a DID,
  every stored result comes from its worker's successful \<open>submit_inference\<close> at the recorded block; and
  among the extrinsics before it, the last one that decided the worker's status is either the worker's own registration or
  a suspension by the governance that was over before that block. No later suspension of the worker's
  DID that would still have been running was ever ordered in between.
\<close>

theorem answers_outside_suspensions:
  fixes env :: "('o, 'c) env"
  assumes "storage_layer layer" and "env_ok env" and "chain_run layer env l0 tr now rt"
    and "no_collision (kilt_config_of env) (rt_kilt rt)" and "get_inference_result (rt_ai rt) j = Some x"
  shows "\<exists>p1 s p2 e post. tr = p1 @ s # p2 @ e # post \<and>
    xt_ok e \<and> xt_block e = submitted_at x \<and> ensure_signed (env_frame env) (xt_origin e) = Inr (res_worker x) \<and>
    xt_call e = QxAi (SubmitInference (res_request_id x) (res_output x)) \<and>
    xt_ok s \<and>
    ((\<exists>name desc. xt_call s = QxKiltPermissions (CreateWorkerDid name desc) \<and>
        ensure_signed (env_frame env) (xt_origin s) = Inr (res_worker x)) \<or>
     (\<exists>dur. xt_call s = QxKiltPermissions (SuspendWorker (res_worker_did x) dur) \<and>
        ensure_root (env_frame env) (xt_origin s) = Inr () \<and> suspended_until env (xt_block s) dur < submitted_at x)) \<and>
    (\<forall>y\<in>set p2. \<forall>dur. xt_ok y \<longrightarrow> xt_call y = QxKiltPermissions (SuspendWorker (res_worker_did x) dur) \<longrightarrow>
       suspended_until env (xt_block y) dur < submitted_at x)"
proof -
  let ?P = "\<lambda>rt. no_collision (kilt_config_of env) (rt_kilt rt) \<and> inference_results (rt_ai rt) j = Some x"
  obtain pre e post rt0 rt1 where e: "tr = pre @ e # post" "applied layer env l0 pre e rt0 rt1"
    and new: "\<not> ?P rt0" "?P rt1"
    by (rule acquired [OF assms(1,3), where P = ?P]) (use assms(4,5) in \<open>simp_all add: get_inference_result_def\<close>)
  from e(2) obtain r where d: "rt_dispatch env (xt_block e) (xt_origin e) (xt_call e) rt0 = (Inr r, rt1)" and ok: "xt_ok e"
    and run: "chain_run layer env l0 pre (xt_block e) rt0"
    by (auto simp: applied_def)
  note inv = chain_run_kilt_inv [OF assms(1,2) run]
  have iter: "iter_ok (kilt_config_of env)" using assms(2) by (simp add: env_ok_def)
  from rt_no_collision_back [OF assms(2) inv d] new have nc: "no_collision (kilt_config_of env) (rt_kilt rt0)"
    and old: "inference_results (rt_ai rt0) j \<noteq> Some x" and "inference_results (rt_ai rt1) j = Some x"
    by blast+
  note res = result_acquired [OF d this(2,3)]
  then obtain w where w: "worker_dids (rt_kilt rt0) (res_worker x) = Some w" "wd_did w = res_worker_did x"
    by (auto simp: get_worker_did_def kilt_inv_account_to_did [OF inv] split: option.splits)
  have did: "res_worker_did x = generate_did (kilt_config_of env) (res_worker x)"
    using kilt_inv_did [OF inv w(1)] w(2) by simp
  from res verify_registered [OF iter inv nc w(1), of "submitted_at x"] have active: "status_permits (submitted_at x) (wd_status w)"
    by (simp add: w(2) split: option.splits)
  have "has_status env (res_worker x) (wd_status w) rt0" using nc w(1) by (simp add: has_status_def)
  then obtain p1 s p2 where s: "pre = p1 @ s # p2" "xt_ok s"
    and who: "(ensure_signed (env_frame env) (xt_origin s) = Inr (res_worker x) \<and>
        (\<exists>name desc. xt_call s = QxKiltPermissions (CreateWorkerDid name desc))) \<or>
      (\<exists>dur. xt_call s = QxKiltPermissions (SuspendWorker (res_worker_did x) dur) \<and>
         ensure_root (env_frame env) (xt_origin s) = Inr () \<and> wd_status w = Suspended (suspended_until env (xt_block s) dur))"
    and later: "\<forall>y\<in>set p2. \<forall>dur. xt_ok y \<longrightarrow> xt_call y = QxKiltPermissions (SuspendWorker (res_worker_did x) dur) \<longrightarrow>
      wd_status w = Suspended (suspended_until env (xt_block y) dur)"
    unfolding did by (rule status_origin [OF assms(1,2) run])
  have over: "u < submitted_at x" if "wd_status w = Suspended u" for u using active that by simp
  from who over have "(\<exists>name desc. xt_call s = QxKiltPermissions (CreateWorkerDid name desc) \<and>
        ensure_signed (env_frame env) (xt_origin s) = Inr (res_worker x)) \<or>
     (\<exists>dur. xt_call s = QxKiltPermissions (SuspendWorker (res_worker_did x) dur) \<and>
        ensure_root (env_frame env) (xt_origin s) = Inr () \<and> suspended_until env (xt_block s) dur < submitted_at x)"
    by blast
  moreover from later over have "\<forall>y\<in>set p2. \<forall>dur. xt_ok y \<longrightarrow>
      xt_call y = QxKiltPermissions (SuspendWorker (res_worker_did x) dur) \<longrightarrow> suspended_until env (xt_block y) dur < submitted_at x"
    by blast
  moreover from e(1) s(1) have "tr = p1 @ s # p2 @ e # post" by simp
  ultimately show ?thesis using ok s(2) res by metis
qed

theorem answers_outside_suspensions_witness:
  "\<exists>tr p1 s p2 e post. chain_run commit_or_discard raw_env (\<lambda>_. 0) tr 1 raw_answered \<and> tr = p1 @ s # p2 @ e # post \<and>
     (\<exists>name desc. xt_call s = QxKiltPermissions (CreateWorkerDid name desc)) \<and> xt_block e = 1"
proof -
  obtain tr where run: "chain_run commit_or_discard raw_env (\<lambda>_. 0) tr 1 raw_answered" using raw_run by blast
  obtain x where x: "get_inference_result (rt_ai raw_answered) 0 = Some x"
    using raw_answered_result by (auto simp: get_inference_result_def)
  have "no_collision (kilt_config_of raw_env) (rt_kilt raw_answered)"
    by (simp add: no_collision_def raw_answered_workers)
  from answers_outside_suspensions [OF storage_layer_commit_or_discard raw_env_simps(3) run this x]
  obtain p1 s p2 e post where tr: "tr = p1 @ s # p2 @ e # post" and e: "xt_block e = submitted_at x"
    and s: "(\<exists>name desc. xt_call s = QxKiltPermissions (CreateWorkerDid name desc)) \<or>
      (\<exists>dur. suspended_until raw_env (xt_block s) dur < submitted_at x)"
    by blast
  have one: "xt_block y = 1" if "y \<in> set tr" for y
  proof -
    from chain_run_block [OF run that] have "unat (xt_block y) \<le> 1" by (simp add: word_le_nat_alt)
    moreover from chain_run_after_genesis [OF run that] have "unat (xt_block y) \<noteq> 0" by (simp only: unat_eq_zero not_False_eq_True)
    ultimately have "unat (xt_block y) = unat (1 :: u32)" by simp
    then show ?thesis by (rule word_unat_eq_iff [THEN iffD2])
  qed
  have "e \<in> set tr" and "s \<in> set tr" unfolding tr by simp_all
  note \<open>e \<in> set tr\<close> [THEN one] \<open>s \<in> set tr\<close> [THEN one]
  have "\<not> suspended_until raw_env 1 dur < 1" for dur
    unfolding suspended_until_def not_less by (rule saturating_add_ge)
  with e s \<open>xt_block e = 1\<close> \<open>xt_block s = 1\<close> have "\<exists>name desc. xt_call s = QxKiltPermissions (CreateWorkerDid name desc)"
    by metis
  with run tr \<open>xt_block e = 1\<close> show ?thesis by metis
qed

end
