(* ===== verification/Runtime_Config.thy ===== *)
theory Runtime_Config
  imports Runtime_Properties
begin

text \<open>
  The rest of the runtime's configuration: its version, the configurations of the FRAME pallets with
  the values the source gives them, the pallets' indices, the order of the transaction extensions, and the
  runtime APIs that have a body of their own (the others are in \<open>Runtime_API\<close>). Type parameters that only name code outside the repository are left out. What
  such code computes from the values is a parameter: the list of API versions, the reference time of
  a second, and \<open>pallet_aura::MinimumPeriodTimesTwo\<close>.
\<close>

section \<open>Version\<close>

record 'p runtime_version =
  rv_spec_name :: string
  rv_impl_name :: string
  rv_authoring_version :: u32
  rv_spec_version :: u32
  rv_impl_version :: u32
  rv_apis :: 'p
  rv_transaction_version :: u32
  rv_system_version :: u8

definition VERSION :: "'p \<Rightarrow> 'p runtime_version" where
  "VERSION apis = \<lparr>rv_spec_name = ''qxchain'', rv_impl_name = ''qxchain'', rv_authoring_version = 1,
     rv_spec_version = 103, rv_impl_version = 1, rv_apis = apis, rv_transaction_version = 1, rv_system_version = 1\<rparr>"

record 'p native_version =
  nv_runtime_version :: "'p runtime_version"
  nv_can_author_with :: "u32 set"

definition native_version :: "'p \<Rightarrow> 'p native_version" where
  "native_version apis = \<lparr>nv_runtime_version = VERSION apis, nv_can_author_with = {}\<rparr>"

section \<open>Configurations of the FRAME pallets\<close>

text \<open>A limit with the percentage of it that normal transactions may use.\<close>

definition NORMAL_DISPATCH_RATIO :: nat where "NORMAL_DISPATCH_RATIO = 75"

definition BlockHashCount :: block_number where "BlockHashCount = 2400"

definition SS58Prefix :: u8 where "SS58Prefix = 42"

text \<open>The arguments of \<open>BlockWeights::with_sensible_defaults\<close> and \<open>BlockLength::max_with_normal_ratio\<close>.\<close>

definition RuntimeBlockWeights :: "u64 \<Rightarrow> (u64 \<times> u64) \<times> nat" where
  "RuntimeBlockWeights weight_ref_time_per_second = ((2 * weight_ref_time_per_second, - 1), NORMAL_DISPATCH_RATIO)"

definition RuntimeBlockLength :: "u32 \<times> nat" where
  "RuntimeBlockLength = (5 * 1024 * 1024, NORMAL_DISPATCH_RATIO)"

record 'p system_config =
  sc_block_weights :: "(u64 \<times> u64) \<times> nat"
  sc_block_length :: "u32 \<times> nat"
  sc_block_hash_count :: u32
  sc_version :: "'p runtime_version"
  sc_ss58_prefix :: u8
  sc_max_consumers :: u32

definition system_config :: "u64 \<Rightarrow> 'p \<Rightarrow> 'p system_config" where
  "system_config weight_ref_time_per_second apis = \<lparr>
     sc_block_weights = RuntimeBlockWeights weight_ref_time_per_second, sc_block_length = RuntimeBlockLength,
     sc_block_hash_count = BlockHashCount, sc_version = VERSION apis, sc_ss58_prefix = SS58Prefix, sc_max_consumers = 16\<rparr>"

record timestamp_config =
  tc_minimum_period :: u64

definition timestamp_config :: timestamp_config where
  "timestamp_config = \<lparr>tc_minimum_period = SLOT_DURATION div 2\<rparr>"

record aura_config =
  ac_max_authorities :: u32
  ac_allow_multiple_blocks_per_slot :: bool
  ac_slot_duration :: u64

definition aura_config :: "(u64 \<Rightarrow> u64) \<Rightarrow> aura_config" where
  "aura_config minimum_period_times_two = \<lparr>ac_max_authorities = 32, ac_allow_multiple_blocks_per_slot = False,
     ac_slot_duration = minimum_period_times_two (tc_minimum_period timestamp_config)\<rparr>"

record grandpa_config =
  gc_max_authorities :: u32
  gc_max_nominators :: u32
  gc_max_set_id_session_entries :: u64

definition grandpa_config :: grandpa_config where
  "grandpa_config = \<lparr>gc_max_authorities = 32, gc_max_nominators = 0, gc_max_set_id_session_entries = 0\<rparr>"

record balances_config =
  bc_max_locks :: u32
  bc_existential_deposit :: u128

definition balances_config :: balances_config where
  "balances_config = \<lparr>bc_max_locks = 50, bc_existential_deposit = EXISTENTIAL_DEPOSIT\<rparr>"

text \<open>\<open>IdentityFee\<close> charges one unit of fee for one unit of reference time or length.\<close>

record transaction_payment_config =
  pc_operational_fee_multiplier :: u8
  pc_weight_to_fee :: "u64 \<Rightarrow> u128"
  pc_length_to_fee :: "u64 \<Rightarrow> u128"
  pc_fee_multiplier :: nat

definition transaction_payment_config :: transaction_payment_config where
  "transaction_payment_config = \<lparr>pc_operational_fee_multiplier = 5, pc_weight_to_fee = ucast, pc_length_to_fee = ucast,
     pc_fee_multiplier = 1\<rparr>"

section \<open>The composition of the runtime\<close>

datatype pallet = System | Timestamp | Aura | Grandpa | Balances | TransactionPayment | Sudo
  | QxKiltPermissions_Pallet | QxAi_Pallet | QxFaucet_Pallet | SkipFeelessPayment

fun pallet_index :: "pallet \<Rightarrow> nat" where
  "pallet_index System = 0"
| "pallet_index Timestamp = 1"
| "pallet_index Aura = 2"
| "pallet_index Grandpa = 3"
| "pallet_index Balances = 4"
| "pallet_index TransactionPayment = 5"
| "pallet_index Sudo = 6"
| "pallet_index QxKiltPermissions_Pallet = 7"
| "pallet_index QxAi_Pallet = 8"
| "pallet_index QxFaucet_Pallet = 9"
| "pallet_index SkipFeelessPayment = 10"

text \<open>The transaction extensions in the order in which they are checked.\<close>

datatype signed_extension = CheckNonZeroSender | CheckSpecVersion | CheckTxVersion | CheckGenesis | CheckEra
  | CheckNonce | CheckWeight | SkipCheckIfFeeless signed_extension | ChargeTransactionPayment

definition SignedExtra :: "signed_extension list" where
  "SignedExtra = [CheckNonZeroSender, CheckSpecVersion, CheckTxVersion, CheckGenesis, CheckEra, CheckNonce, CheckWeight,
     SkipCheckIfFeeless ChargeTransactionPayment]"

text \<open>The two bytes in front of an encoded call of the QX pallets: the pallet's index and the call's.\<close>

fun call_head :: "'c runtime_call \<Rightarrow> (nat \<times> nat) option" where
  "call_head (QxKiltPermissions c) = Some (pallet_index QxKiltPermissions_Pallet, kilt_call_index c)"
| "call_head (QxAi c) = Some (pallet_index QxAi_Pallet, ai_call_index c)"
| "call_head (QxFaucet c) = Some (pallet_index QxFaucet_Pallet, faucet_call_index c)"
| "call_head (Other_Call _) = None"

lemma pallet_index_inject: "pallet_index p = pallet_index q \<longleftrightarrow> p = q"
  by (cases p; cases q) simp_all

section \<open>Runtime APIs with a body of their own\<close>

definition Core_version :: "'p \<Rightarrow> 'p runtime_version" where "Core_version apis = VERSION apis"

definition AuraApi_slot_duration :: "(u64 \<Rightarrow> u64) \<Rightarrow> u64" where
  "AuraApi_slot_duration minimum_period_times_two = ac_slot_duration (aura_config minimum_period_times_two)"

definition submit_report_equivocation_unsigned_extrinsic :: "'proof \<Rightarrow> 'owner \<Rightarrow> unit option" where
  "submit_report_equivocation_unsigned_extrinsic equivocation_proof key_owner_proof = None"

definition generate_key_ownership_proof :: "'set \<Rightarrow> 'authority \<Rightarrow> 'owner option" where
  "generate_key_ownership_proof set_id authority_id = None"

section \<open>Time\<close>

text \<open>
  \<open>MinimumPeriodTimesTwo\<close> is twice the minimum period, where that fits.
\<close>

definition doubles :: "(u64 \<Rightarrow> u64) \<Rightarrow> bool" where
  "doubles f \<longleftrightarrow> (\<forall>p. 2 * unat p < 2 ^ 64 \<longrightarrow> unat (f p) = 2 * unat p)"

text \<open>
  C31: The clocks agree: the slot duration that Aura reports is the block time of 6000 milliseconds, also
  through the halved minimum period of the timestamp pallet; and with it the block counts are the times
  they stand for: \<open>DAYS\<close> and the suspension period are 24 hours, the faucet's cooldown is 24 hours,
  the default validity of credentials is 30 days, and a claim stays in the pool for 18 seconds.
\<close>

theorem block_time:
  fixes env :: "('o, 'c) env"
  assumes "doubles minimum_period_times_two"
  defines "slot \<equiv> unat (AuraApi_slot_duration minimum_period_times_two)"
    and "day \<equiv> 24 * 60 * 60 * 1000"
  shows "slot = unat MILLI_SECS_PER_BLOCK \<and> slot = 6000 \<and>
    unat DAYS * slot = day \<and>
    unat (worker_suspension_period (kilt_config_of env)) * slot = day \<and>
    unat (default_credential_validity (kilt_config_of env)) * slot = 30 * day \<and>
    unat (fc_claim_cooldown (faucet_config_of env)) * slot = day \<and>
    (\<forall>now c s v. validate_unsigned (faucet_config_of env) now c s = Inr v \<longrightarrow> unat (vt_longevity v) * slot = 18000)"
proof -
  have "tc_minimum_period timestamp_config = 3000"
    by (simp add: timestamp_config_def SLOT_DURATION_def MILLI_SECS_PER_BLOCK_def)
  with assms(1) have slot: "slot = 6000"
    by (simp add: slot_def AuraApi_slot_duration_def aura_config_def doubles_def)
  have longevity: "unat (vt_longevity v) = 3"
    if "validate_unsigned (faucet_config_of env) now c s = Inr v" for now c s v
    using that by (cases c; cases s) (auto simp: Let_def split: if_splits)
  have "unat (30 * DAYS) = 432000"
    by (simp add: DAYS_def HOURS_def MINUTES_def MILLI_SECS_PER_BLOCK_def)
  then show ?thesis unfolding slot day_def using longevity
    by (auto simp: kilt_config_of_def MILLI_SECS_PER_BLOCK_def)
qed

theorem block_time_witness:
  "unat DAYS * unat (AuraApi_slot_duration (\<lambda>p. 2 * p)) = 24 * 60 * 60 * 1000"
proof -
  have "doubles (\<lambda>p. 2 * p)"
    unfolding doubles_def by (auto simp: unat_mult_lem [THEN iffD1])
  from block_time [OF this, of raw_env] show ?thesis by blast
qed

end
