(* ===== verification/Chain_Spec.thy ===== *)
theory Chain_Spec
  imports Runtime "HOL-Library.Monad_Syntax"
begin

text \<open>
  The genesis of the networks: the chain specifications of the node (\<open>chain_spec/\<close>), the choice among
  them in \<open>load_spec\<close>, and the presets of the runtime. Key derivation, SS58 decoding, the names of the
  development keys and JSON files are code outside the repository: the record \<open>crypto\<close> and the
  arguments \<open>keyring\<close> and \<open>from_json_file\<close>. An \<open>unwrap\<close> or \<open>expect\<close> that panics is \<open>None\<close>, an error
  value is \<open>Inl\<close>. A JSON patch is the record of the values the source puts into it.
\<close>

section \<open>Keys\<close>

type_synonym key = "u8 list"

record crypto =
  sr25519_from_string :: "string \<Rightarrow> key option"
  ed25519_from_string :: "string \<Rightarrow> key option"
  ss58_decode :: "string \<Rightarrow> key option"
  into_account :: "key \<Rightarrow> account_id"

text \<open>\<open>get_from_seed\<close> at the two key types; a bad seed panics.\<close>

definition get_from_seed :: "(string \<Rightarrow> key option) \<Rightarrow> string \<Rightarrow> key option" where
  "get_from_seed from_string seed = from_string (''//'' @ seed)"

definition get_account_id_from_seed :: "crypto \<Rightarrow> string \<Rightarrow> account_id option" where
  "get_account_id_from_seed cr seed = map_option (into_account cr) (get_from_seed (sr25519_from_string cr) seed)"

definition authority_keys_from_seed :: "crypto \<Rightarrow> string \<Rightarrow> (key \<times> key) option" where
  "authority_keys_from_seed cr s = do {
     aura \<leftarrow> get_from_seed (sr25519_from_string cr) s;
     grandpa \<leftarrow> get_from_seed (ed25519_from_string cr) s;
     Some (aura, grandpa) }"

definition authority_keys_from_ss58 :: "crypto \<Rightarrow> string \<Rightarrow> string \<Rightarrow> (key \<times> key) option" where
  "authority_keys_from_ss58 cr s_aura s_grandpa = do {
     aura \<leftarrow> ss58_decode cr s_aura;
     grandpa \<leftarrow> ss58_decode cr s_grandpa;
     Some (aura, grandpa) }"

definition faucet_pot_account :: account_id where
  "faucet_pot_account = [
     0x71, 0x78, 0x2f, 0x66, 0x61, 0x75, 0x63, 0x65,
     0x74, 0x00, 0x00, 0x00, 0x00, 0x00, 0x00, 0x00,
     0x00, 0x00, 0x00, 0x00, 0x00, 0x00, 0x00, 0x00,
     0x00, 0x00, 0x00, 0x00, 0x00, 0x00, 0x00, 0x00]"

section \<open>Genesis\<close>

record genesis =
  g_balances :: "(account_id \<times> u128) list"
  g_aura_authorities :: "key list"
  g_grandpa_authorities :: "(key \<times> u64) list"
  g_sudo_key :: "account_id option"

definition localnet_genesis :: "crypto \<Rightarrow> (key \<times> key) list \<Rightarrow> bool \<Rightarrow> genesis option" where
  "localnet_genesis cr initial_authorities enable_println = do {
     alice \<leftarrow> get_account_id_from_seed cr ''Alice'';
     bob \<leftarrow> get_account_id_from_seed cr ''Bob'';
     charlie \<leftarrow> get_account_id_from_seed cr ''Charlie'';
     dave \<leftarrow> get_account_id_from_seed cr ''Dave'';
     eve \<leftarrow> get_account_id_from_seed cr ''Eve'';
     ferdie \<leftarrow> get_account_id_from_seed cr ''Ferdie'';
     Some \<lparr>g_balances = [
         (alice, 1000000000000000),
         (bob, 1000000000000000),
         (charlie, 1000000000000000),
         (dave, 2000000000000),
         (eve, 2000000000000),
         (ferdie, 2000000000000),
         (faucet_pot_account, 1000000000000000000)],
       g_aura_authorities = map fst initial_authorities,
       g_grandpa_authorities = map (\<lambda>x. (snd x, 1)) initial_authorities,
       g_sudo_key = Some alice\<rparr> }"

definition mainnet_genesis :: "(key \<times> key) list \<Rightarrow> account_id \<Rightarrow> (account_id \<times> u128) list \<Rightarrow> genesis" where
  "mainnet_genesis initial_authorities root_key endowed_accounts =
     \<lparr>g_balances = endowed_accounts,
      g_aura_authorities = map fst initial_authorities,
      g_grandpa_authorities = map (\<lambda>x. (snd x, 1)) initial_authorities,
      g_sudo_key = Some root_key\<rparr>"

section \<open>Chain specifications\<close>

datatype chain_type = Local | Live

record chain_properties =
  token_symbol :: string
  token_decimals :: nat
  ss58_format :: nat

record chain_spec =
  cs_wasm :: "u8 list"
  cs_bad_blocks :: "u8 list list"
  cs_name :: string
  cs_protocol_id :: string
  cs_id :: string
  cs_chain_type :: chain_type
  cs_boot_nodes :: "string list"
  cs_genesis :: genesis
  cs_properties :: chain_properties

definition qx_properties :: chain_properties where
  "qx_properties = \<lparr>token_symbol = ''QX'', token_decimals = 12, ss58_format = 42\<rparr>"

text \<open>A missing wasm binary is an error; a key that cannot be derived is a panic.\<close>

definition localnet_config :: "crypto \<Rightarrow> u8 list option \<Rightarrow> bool \<Rightarrow> (string + chain_spec) option" where
  "localnet_config cr wasm single_authority =
     (case wasm of
        None \<Rightarrow> Some (Inl ''Development wasm not available'')
      | Some wasm_binary \<Rightarrow> do {
          authorities \<leftarrow> (if single_authority then do {
                alice \<leftarrow> authority_keys_from_seed cr ''Alice'';
                Some [alice] }
              else do {
                alice \<leftarrow> authority_keys_from_seed cr ''Alice'';
                bob \<leftarrow> authority_keys_from_seed cr ''Bob'';
                Some [alice, bob] });
          g \<leftarrow> localnet_genesis cr authorities True;
          Some (Inr \<lparr>cs_wasm = wasm_binary, cs_bad_blocks = [replicate 32 0],
            cs_name = ''QXChain Local'', cs_protocol_id = ''qxchain'', cs_id = ''qxchain_local'',
            cs_chain_type = Local, cs_boot_nodes = [], cs_genesis = g, cs_properties = qx_properties\<rparr>) })"

definition validator_1 :: string where
  "validator_1 = ''5GyAAHVMUiumNzDxQAYT4uUNPGuufv383MiKyDNkwTndHBog''"

definition mainnet_config :: "crypto \<Rightarrow> u8 list option \<Rightarrow> (string + chain_spec) option" where
  "mainnet_config cr wasm =
     (case wasm of
        None \<Rightarrow> Some (Inl ''Mainnet wasm not available'')
      | Some wasm_binary \<Rightarrow> do {
          v1 \<leftarrow> authority_keys_from_ss58 cr validator_1 ''5GZmHXcxXBS3gX9kgh8VNkmwGLezjCeb6PiQjkb5irPqq7eU'';
          v2 \<leftarrow> authority_keys_from_ss58 cr ''5H6Tf2hamehd3ioXa33zyYWxZriFFdytkUN8kNUu5qjbLYa8''
            ''5Gb4cT7YWKPWN1Bm2ix3n5aLfYBEJHZnT4rxfRLht2uZt2rz'';
          v3 \<leftarrow> authority_keys_from_ss58 cr ''5EsSP19v8UXzuAdncoKNuuRmiGdyjDdRBBqecgS77jA54W9Z''
            ''5HLN17LsCZ9jKTSgQb9c5i5Kn7mieTZxfnRpF5mXHqnokriR'';
          v4 \<leftarrow> authority_keys_from_ss58 cr ''5CFFugsxfkHK1PQgsd4r7Ge6vtXX6oEdko9nhTUmCKvKti9k''
            ''5EWUwAgL7DMHwrivqUXDq3DZfZ7n22QyW4zSSxr7imakQwtS'';
          root_key \<leftarrow> ss58_decode cr validator_1;
          Some (Inr \<lparr>cs_wasm = wasm_binary, cs_bad_blocks = [],
            cs_name = ''QXChain Mainnet'', cs_protocol_id = ''qxchain'', cs_id = ''qxchain_mainnet'',
            cs_chain_type = Live, cs_boot_nodes = [],
            cs_genesis = mainnet_genesis [v1, v2, v3, v4] root_key
              [(root_key, 1000000000000000), (faucet_pot_account, 1000000000000000000)],
            cs_properties = qx_properties\<rparr>) })"

definition load_spec ::
  "crypto \<Rightarrow> u8 list option \<Rightarrow> (string \<Rightarrow> (string + chain_spec) option) \<Rightarrow> string \<Rightarrow> (string + chain_spec) option" where
  "load_spec cr wasm from_json_file spec_id =
     (if spec_id = ''localnet_single'' then localnet_config cr wasm True
      else if spec_id = ''localnet'' then localnet_config cr wasm False
      else if spec_id = ''mainnet'' then mainnet_config cr wasm
      else from_json_file spec_id)"

section \<open>Presets of the runtime\<close>

text \<open>A development key: its account, and its two session keys.\<close>

record dev_key =
  dk_account :: account_id
  dk_sr25519 :: key
  dk_ed25519 :: key

record keyring =
  kr_all :: "dev_key list"
  kr_alice :: dev_key
  kr_bob :: dev_key
  kr_charlie :: dev_key
  kr_dave :: dev_key

definition preset_genesis :: "keyring \<Rightarrow> dev_key list \<Rightarrow> genesis" where
  "preset_genesis kr authorities = \<lparr>
     g_balances = map (\<lambda>a. (dk_account a, (- 1) div 1000)) (kr_all kr),
     g_aura_authorities = map dk_sr25519 authorities,
     g_grandpa_authorities = map (\<lambda>x. (dk_ed25519 x, 1)) authorities,
     g_sudo_key = Some (dk_account (kr_alice kr))\<rparr>"

text \<open>The identifiers of the two presets are constants of the genesis builder outside the repository.\<close>

definition get_preset :: "'p \<Rightarrow> 'p \<Rightarrow> keyring \<Rightarrow> 'p \<Rightarrow> genesis option" where
  "get_preset dev_preset local_preset kr preset_id =
     (if preset_id = dev_preset then Some (preset_genesis kr [kr_alice kr])
      else if preset_id = local_preset
        then Some (preset_genesis kr [kr_alice kr, kr_bob kr, kr_charlie kr, kr_dave kr])
      else None)"

definition preset_names :: "'p \<Rightarrow> 'p \<Rightarrow> 'p list" where
  "preset_names dev_preset local_preset = [dev_preset, local_preset]"

section \<open>From the genesis to the ledger\<close>

text \<open>The ledger that the balances pallet builds from a genesis: what the genesis lists, and nothing else.\<close>

definition genesis_ledger :: "(account_id, 'c) currency \<Rightarrow> (account_id \<times> u128) list \<Rightarrow> 'c \<Rightarrow> bool" where
  "genesis_ledger cur bs l \<longleftrightarrow>
     (\<forall>a. free_balance cur l a = (case map_of bs a of None \<Rightarrow> 0 | Some v \<Rightarrow> v))"

lemma faucet_pot_account_eq: "faucet_pot_account = FaucetPotAccount"
  by (simp add: faucet_pot_account_def FaucetPotAccount_def)

lemmas crypto_defs = get_from_seed_def get_account_id_from_seed_def authority_keys_from_seed_def
  authority_keys_from_ss58_def

lemma localnet_genesis_Some:
  assumes "localnet_genesis cr auths b = Some g"
  obtains alice bob charlie dave eve ferdie where
    "map (get_account_id_from_seed cr) [''Alice'', ''Bob'', ''Charlie'', ''Dave'', ''Eve'', ''Ferdie''] =
       map Some [alice, bob, charlie, dave, eve, ferdie]"
    "g_balances g = [(alice, 1000000000000000), (bob, 1000000000000000), (charlie, 1000000000000000),
       (dave, 2000000000000), (eve, 2000000000000), (ferdie, 2000000000000),
       (faucet_pot_account, 1000000000000000000)]"
    "g_sudo_key g = Some alice"
    "g_aura_authorities g = map fst auths"
    "g_grandpa_authorities g = map (\<lambda>x. (snd x, 1)) auths"
  using assms by (auto simp: localnet_genesis_def bind_eq_Some_conv)

lemma load_spec_ids:
  "load_spec cr w file ''localnet_single'' = localnet_config cr w True"
  "load_spec cr w file ''localnet'' = localnet_config cr w False"
  "load_spec cr w file ''mainnet'' = mainnet_config cr w"
  by (simp_all add: load_spec_def)

lemma localnet_config_total:
  assumes "\<And>s. sr25519_from_string cr s = Some (sr s)" and "\<And>s. ed25519_from_string cr s = Some (ed s)"
  shows "\<exists>spec. localnet_config cr (Some wasm) single = Some (Inr spec) \<and> cs_name spec = ''QXChain Local'' \<and>
     cs_chain_type spec = Local \<and> length (g_aura_authorities (cs_genesis spec)) = (if single then 1 else 2) \<and>
     length (g_grandpa_authorities (cs_genesis spec)) = (if single then 1 else 2)"
  by (cases single) (simp_all add: localnet_config_def localnet_genesis_def crypto_defs assms)

lemma mainnet_config_total:
  assumes "\<And>s. ss58_decode cr s = Some (ss s)"
  shows "\<exists>spec. mainnet_config cr (Some wasm) = Some (Inr spec) \<and> cs_name spec = ''QXChain Mainnet'' \<and>
     cs_chain_type spec = Live \<and> length (g_aura_authorities (cs_genesis spec)) = 4 \<and>
     length (g_grandpa_authorities (cs_genesis spec)) = 4"
  unfolding mainnet_config_def authority_keys_from_ss58_def assms option.case bind.bind_lunit mainnet_genesis_def by simp

lemma localnet_config_genesis:
  assumes "localnet_config cr wasm single = Some (Inr spec)"
  obtains auths where "localnet_genesis cr auths True = Some (cs_genesis spec)"
  using assms by (auto simp: localnet_config_def bind_eq_Some_conv split: option.splits if_splits)

lemma mainnet_config_genesis:
  assumes "mainnet_config cr wasm = Some (Inr spec)"
  obtains auths root_key where "ss58_decode cr validator_1 = Some root_key"
    "cs_genesis spec = mainnet_genesis auths root_key
       [(root_key, 1000000000000000), (faucet_pot_account, 1000000000000000000)]"
  using assms by (auto simp: mainnet_config_def bind_eq_Some_conv split: option.splits)

section \<open>A genesis a chain can start from\<close>

text \<open>
  The balances reach the existential deposit and their sum fits \<open>u128\<close>; the faucet pot and the sudo
  account are endowed; the authorities of Aura and Grandpa pair up, with weight 1.
\<close>

definition starts_well :: "genesis \<Rightarrow> bool" where
  "starts_well g \<longleftrightarrow>
     (\<forall>(a, v)\<in>set (g_balances g). EXISTENTIAL_DEPOSIT \<le> v) \<and>
     sum_list (map (\<lambda>(a, v). unat v) (g_balances g)) < 2 ^ 128 \<and>
     (\<exists>v. (FaucetPotAccount, v) \<in> set (g_balances g) \<and> unat v = 100000 * unat FaucetDripAmount) \<and>
     (\<exists>k v. g_sudo_key g = Some k \<and> (k, v) \<in> set (g_balances g) \<and> unat v = 100 * unat FaucetDripAmount) \<and>
     length (g_aura_authorities g) = length (g_grandpa_authorities g) \<and>
     (\<forall>(k, weight)\<in>set (g_grandpa_authorities g). weight = 1)"

lemma localnet_starts_well:
  assumes "localnet_genesis cr auths b = Some g"
  shows "starts_well g"
  by (rule localnet_genesis_Some [OF assms])
    (auto simp: starts_well_def faucet_pot_account_eq EXISTENTIAL_DEPOSIT_def FaucetDripAmount_def)

lemma mainnet_starts_well:
  "starts_well (mainnet_genesis auths root_key
    [(root_key, 1000000000000000), (faucet_pot_account, 1000000000000000000)])"
  by (auto simp: starts_well_def mainnet_genesis_def faucet_pot_account_eq EXISTENTIAL_DEPOSIT_def FaucetDripAmount_def)

end
