(* ===== verification/Runtime_API.thy ===== *)
theory Runtime_API
  imports Chain_Run_Properties Runtime_Config Chain_Spec
begin

text \<open>
  The runtime APIs through which the node drives the runtime (\<open>impl_runtime_apis!\<close> in
  \<open>runtime/src/lib.rs\<close>): one definition per method, on the state \<open>'s\<close> of the chain. Most methods pass
  their arguments on to FRAME's \<open>Executive\<close>, to its pallets or to macro-generated code; that code is the
  fields of the records below, and a method that only forwards is that field.
\<close>

section \<open>The code behind the APIs\<close>

record ('h, 'x) block =
  bl_header :: 'h
  bl_extrinsics :: "'x list"

text \<open>A method that panics returns \<open>None\<close>; \<open>ApplyExtrinsicResult\<close> is a rejection or the outcome of the call.\<close>

record ('s, 'h, 'x, 'm, 'r, 'v, 'src) executive =
  ex_execute_block :: "('h, 'x) block \<Rightarrow> 's \<Rightarrow> 's option"
  ex_initialize_block :: "'h \<Rightarrow> 's \<Rightarrow> 'm \<times> 's"
  ex_apply_extrinsic :: "'x \<Rightarrow> 's \<Rightarrow> ('r + (dispatch_error + unit)) \<times> 's"
  ex_finalize_block :: "'s \<Rightarrow> 'h \<times> 's"
  ex_validate_transaction :: "'src \<Rightarrow> 'x \<Rightarrow> u8 list \<Rightarrow> 's \<Rightarrow> 'r + 'v"
  ex_offchain_worker :: "'h \<Rightarrow> 's \<Rightarrow> 's"

record 'md metadata =
  md_metadata :: 'md
  md_metadata_at_version :: "u32 \<Rightarrow> 'md option"
  md_metadata_versions :: "u32 list"

record ('s, 'h, 'x, 'data, 'res) inherents =
  inh_create_extrinsics :: "'data \<Rightarrow> 's \<Rightarrow> 'x list"
  inh_check_extrinsics :: "'data \<Rightarrow> ('h, 'x) block \<Rightarrow> 's \<Rightarrow> 'res"

record ('s, 'aura, 'grandpa) authorities =
  au_aura :: "'s \<Rightarrow> 'aura list"
  au_grandpa :: "'s \<Rightarrow> ('grandpa \<times> u64) list"
  au_current_set_id :: "'s \<Rightarrow> u64"

record ('s, 'x, 'c, 'info, 'details) payment =
  tp_query_info :: "'x \<Rightarrow> u32 \<Rightarrow> 's \<Rightarrow> 'info"
  tp_query_fee_details :: "'x \<Rightarrow> u32 \<Rightarrow> 's \<Rightarrow> 'details"
  tp_query_call_info :: "'c runtime_call \<Rightarrow> u32 \<Rightarrow> 's \<Rightarrow> 'info"
  tp_query_call_fee_details :: "'c runtime_call \<Rightarrow> u32 \<Rightarrow> 's \<Rightarrow> 'details"
  tp_weight_to_fee :: "u64 \<times> u64 \<Rightarrow> 's \<Rightarrow> u128"
  tp_length_to_fee :: "u32 \<Rightarrow> 's \<Rightarrow> u128"

section \<open>Core, Metadata, BlockBuilder, the pool and the off-chain workers\<close>

definition Core_execute_block ::
  "('s, 'h, 'x, 'm, 'r, 'v, 'src) executive \<Rightarrow> ('h, 'x) block \<Rightarrow> 's \<Rightarrow> 's option" where
  "Core_execute_block ex block s = ex_execute_block ex block s"

definition Core_initialize_block ::
  "('s, 'h, 'x, 'm, 'r, 'v, 'src) executive \<Rightarrow> 'h \<Rightarrow> 's \<Rightarrow> 'm \<times> 's" where
  "Core_initialize_block ex header s = ex_initialize_block ex header s"

text \<open>\<open>OpaqueMetadata::new\<close> wraps the bytes that \<open>into\<close> makes of the metadata.\<close>

definition Metadata_metadata :: "('md \<Rightarrow> 'opaque) \<Rightarrow> 'md metadata \<Rightarrow> 'opaque" where
  "Metadata_metadata opaque md = opaque (md_metadata md)"

definition Metadata_metadata_at_version :: "'md metadata \<Rightarrow> u32 \<Rightarrow> 'md option" where
  "Metadata_metadata_at_version md version = md_metadata_at_version md version"

definition Metadata_metadata_versions :: "'md metadata \<Rightarrow> u32 list" where
  "Metadata_metadata_versions md = md_metadata_versions md"

definition BlockBuilder_apply_extrinsic ::
  "('s, 'h, 'x, 'm, 'r, 'v, 'src) executive \<Rightarrow> 'x \<Rightarrow> 's \<Rightarrow> ('r + (dispatch_error + unit)) \<times> 's" where
  "BlockBuilder_apply_extrinsic ex extrinsic s = ex_apply_extrinsic ex extrinsic s"

definition BlockBuilder_finalize_block :: "('s, 'h, 'x, 'm, 'r, 'v, 'src) executive \<Rightarrow> 's \<Rightarrow> 'h \<times> 's" where
  "BlockBuilder_finalize_block ex s = ex_finalize_block ex s"

definition BlockBuilder_inherent_extrinsics :: "('s, 'h, 'x, 'data, 'res) inherents \<Rightarrow> 'data \<Rightarrow> 's \<Rightarrow> 'x list" where
  "BlockBuilder_inherent_extrinsics inh data s = inh_create_extrinsics inh data s"

definition BlockBuilder_check_inherents ::
  "('s, 'h, 'x, 'data, 'res) inherents \<Rightarrow> ('h, 'x) block \<Rightarrow> 'data \<Rightarrow> 's \<Rightarrow> 'res" where
  "BlockBuilder_check_inherents inh block data s = inh_check_extrinsics inh data block s"

definition TaggedTransactionQueue_validate_transaction ::
  "('s, 'h, 'x, 'm, 'r, 'v, 'src) executive \<Rightarrow> 'src \<Rightarrow> 'x \<Rightarrow> u8 list \<Rightarrow> 's \<Rightarrow> 'r + 'v" where
  "TaggedTransactionQueue_validate_transaction ex source tx block_hash s = ex_validate_transaction ex source tx block_hash s"

definition OffchainWorkerApi_offchain_worker :: "('s, 'h, 'x, 'm, 'r, 'v, 'src) executive \<Rightarrow> 'h \<Rightarrow> 's \<Rightarrow> 's" where
  "OffchainWorkerApi_offchain_worker ex header s = ex_offchain_worker ex header s"

section \<open>Consensus and session keys\<close>

definition AuraApi_authorities :: "('s, 'aura, 'grandpa) authorities \<Rightarrow> 's \<Rightarrow> 'aura list" where
  "AuraApi_authorities au s = au_aura au s"

definition GrandpaApi_grandpa_authorities :: "('s, 'aura, 'grandpa) authorities \<Rightarrow> 's \<Rightarrow> ('grandpa \<times> u64) list" where
  "GrandpaApi_grandpa_authorities au s = au_grandpa au s"

definition GrandpaApi_current_set_id :: "('s, 'aura, 'grandpa) authorities \<Rightarrow> 's \<Rightarrow> u64" where
  "GrandpaApi_current_set_id au s = au_current_set_id au s"

text \<open>
  The struct \<open>SessionKeys\<close> has the two keys in this order. \<open>impl_opaque_keys!\<close> documents: \<open>generate\<close>
  makes a pair of each kind from the seed and returns the encoded struct of the public keys,
  field after field; \<open>decode_into_raw_public_keys\<close> decodes the struct and lists each key's bytes with the
  identifier of its kind. A kind of key is the record \<open>key_kind\<close>, of code outside the repository.
\<close>

record ('aura, 'grandpa) session_keys =
  sk_aura :: 'aura
  sk_grandpa :: 'grandpa

record ('k, 'i) key_kind =
  kk_id :: 'i
  kk_generate :: "u8 list option \<Rightarrow> 'k"
  kk_encode :: "'k \<Rightarrow> u8 list"
  kk_decode :: "u8 list \<Rightarrow> ('k \<times> u8 list) option"
  kk_raw :: "'k \<Rightarrow> u8 list"

definition encode_keys ::
  "('aura, 'i) key_kind \<Rightarrow> ('grandpa, 'i) key_kind \<Rightarrow> ('aura, 'grandpa) session_keys \<Rightarrow> u8 list" where
  "encode_keys ka kg keys = kk_encode ka (sk_aura keys) @ kk_encode kg (sk_grandpa keys)"

definition decode_keys ::
  "('aura, 'i) key_kind \<Rightarrow> ('grandpa, 'i) key_kind \<Rightarrow> u8 list \<Rightarrow> ('aura, 'grandpa) session_keys option" where
  "decode_keys ka kg bytes =
     (case kk_decode ka bytes of
        None \<Rightarrow> None
      | Some (a, rest) \<Rightarrow> map_option (\<lambda>(g, _). \<lparr>sk_aura = a, sk_grandpa = g\<rparr>) (kk_decode kg rest))"

definition SessionKeys_generate_session_keys ::
  "('aura, 'i) key_kind \<Rightarrow> ('grandpa, 'i) key_kind \<Rightarrow> u8 list option \<Rightarrow> u8 list" where
  "SessionKeys_generate_session_keys ka kg seed =
     encode_keys ka kg \<lparr>sk_aura = kk_generate ka seed, sk_grandpa = kk_generate kg seed\<rparr>"

definition SessionKeys_decode_session_keys ::
  "('aura, 'i) key_kind \<Rightarrow> ('grandpa, 'i) key_kind \<Rightarrow> u8 list \<Rightarrow> (u8 list \<times> 'i) list option" where
  "SessionKeys_decode_session_keys ka kg encoded =
     map_option (\<lambda>keys. [(kk_raw ka (sk_aura keys), kk_id ka), (kk_raw kg (sk_grandpa keys), kk_id kg)])
       (decode_keys ka kg encoded)"

section \<open>Accounts, fees and the genesis\<close>

definition AccountNonceApi_account_nonce :: "('s \<Rightarrow> account_id \<Rightarrow> nonce) \<Rightarrow> account_id \<Rightarrow> 's \<Rightarrow> nonce" where
  "AccountNonceApi_account_nonce nonce account s = nonce s account"

definition TransactionPaymentApi_query_info :: "('s, 'x, 'c, 'info, 'details) payment \<Rightarrow> 'x \<Rightarrow> u32 \<Rightarrow> 's \<Rightarrow> 'info" where
  "TransactionPaymentApi_query_info tp uxt len s = tp_query_info tp uxt len s"

definition TransactionPaymentApi_query_fee_details ::
  "('s, 'x, 'c, 'info, 'details) payment \<Rightarrow> 'x \<Rightarrow> u32 \<Rightarrow> 's \<Rightarrow> 'details" where
  "TransactionPaymentApi_query_fee_details tp uxt len s = tp_query_fee_details tp uxt len s"

definition TransactionPaymentApi_query_weight_to_fee ::
  "('s, 'x, 'c, 'info, 'details) payment \<Rightarrow> u64 \<times> u64 \<Rightarrow> 's \<Rightarrow> u128" where
  "TransactionPaymentApi_query_weight_to_fee tp weight s = tp_weight_to_fee tp weight s"

definition TransactionPaymentApi_query_length_to_fee ::
  "('s, 'x, 'c, 'info, 'details) payment \<Rightarrow> u32 \<Rightarrow> 's \<Rightarrow> u128" where
  "TransactionPaymentApi_query_length_to_fee tp len s = tp_length_to_fee tp len s"

definition TransactionPaymentCallApi_query_call_info ::
  "('s, 'x, 'c, 'info, 'details) payment \<Rightarrow> 'c runtime_call \<Rightarrow> u32 \<Rightarrow> 's \<Rightarrow> 'info" where
  "TransactionPaymentCallApi_query_call_info tp call len s = tp_query_call_info tp call len s"

definition TransactionPaymentCallApi_query_call_fee_details ::
  "('s, 'x, 'c, 'info, 'details) payment \<Rightarrow> 'c runtime_call \<Rightarrow> u32 \<Rightarrow> 's \<Rightarrow> 'details" where
  "TransactionPaymentCallApi_query_call_fee_details tp call len s = tp_query_call_fee_details tp call len s"

definition TransactionPaymentCallApi_query_weight_to_fee ::
  "('s, 'x, 'c, 'info, 'details) payment \<Rightarrow> u64 \<times> u64 \<Rightarrow> 's \<Rightarrow> u128" where
  "TransactionPaymentCallApi_query_weight_to_fee tp weight s = tp_weight_to_fee tp weight s"

definition TransactionPaymentCallApi_query_length_to_fee ::
  "('s, 'x, 'c, 'info, 'details) payment \<Rightarrow> u32 \<Rightarrow> 's \<Rightarrow> u128" where
  "TransactionPaymentCallApi_query_length_to_fee tp len s = tp_length_to_fee tp len s"

text \<open>
  FRAME's helpers \<open>build_state\<close> and \<open>get_preset\<close> are parameters; the latter is handed the identifier and
  the runtime's own function from identifiers to presets, as JSON text.
\<close>

definition GenesisBuilder_build_state :: "(u8 list \<Rightarrow> 's \<Rightarrow> (string + unit) \<times> 's) \<Rightarrow> u8 list \<Rightarrow> 's \<Rightarrow> (string + unit) \<times> 's" where
  "GenesisBuilder_build_state build_state config s = build_state config s"

definition GenesisBuilder_get_preset ::
  "('p option \<Rightarrow> ('p \<Rightarrow> u8 list option) \<Rightarrow> u8 list option) \<Rightarrow> (genesis \<Rightarrow> u8 list) \<Rightarrow> 'p \<Rightarrow> 'p \<Rightarrow> keyring
     \<Rightarrow> 'p option \<Rightarrow> u8 list option" where
  "GenesisBuilder_get_preset helper json dev_preset local_preset kr preset_id =
     helper preset_id (\<lambda>p. map_option json (get_preset dev_preset local_preset kr p))"

definition GenesisBuilder_preset_names :: "'p \<Rightarrow> 'p \<Rightarrow> 'p list" where
  "GenesisBuilder_preset_names dev_preset local_preset = preset_names dev_preset local_preset"

section \<open>Trying an upgrade\<close>

text \<open>
  Behind the feature \<open>try-runtime\<close>; \<open>unwrap\<close> panics on an error. The package declares neither this feature nor
  \<open>runtime-benchmarks\<close> below.
\<close>

definition TryRuntime_on_runtime_upgrade ::
  "('checks \<Rightarrow> 's \<Rightarrow> ('e + u64 \<times> u64) \<times> 's) \<Rightarrow> u64 \<Rightarrow> 'checks \<Rightarrow> 's \<Rightarrow> (((u64 \<times> u64) \<times> (u64 \<times> u64)) \<times> 's) option" where
  "TryRuntime_on_runtime_upgrade try_runtime_upgrade weight_ref_time_per_second checks s =
     (case try_runtime_upgrade checks s of
        (Inl _, _) \<Rightarrow> None
      | (Inr weight, s') \<Rightarrow> Some ((weight, fst (RuntimeBlockWeights weight_ref_time_per_second)), s'))"

definition TryRuntime_execute_block ::
  "(('h, 'x) block \<Rightarrow> bool \<Rightarrow> bool \<Rightarrow> 'select \<Rightarrow> 's \<Rightarrow> ('e + u64 \<times> u64) \<times> 's) \<Rightarrow> ('h, 'x) block \<Rightarrow> bool \<Rightarrow> bool \<Rightarrow> 'select \<Rightarrow> 's
     \<Rightarrow> ((u64 \<times> u64) \<times> 's) option" where
  "TryRuntime_execute_block try_execute_block block state_root_check signature_check select s =
     (case try_execute_block block state_root_check signature_check select s of
        (Inl _, _) \<Rightarrow> None
      | (Inr weight, s') \<Rightarrow> Some (weight, s'))"

text \<open>
  Behind the feature \<open>runtime-benchmarks\<close>. Its macros \<open>list_benchmarks\<close> and \<open>add_benchmarks\<close>, which nothing in the
  repository defines, are fields: the first extends a list, the second runs benchmarks on the state and
  extends the batches, or returns an error from the method.
\<close>

record ('s, 'list, 'info, 'key, 'config, 'batch) benchmarks =
  bm_list_benchmarks :: "'list list \<Rightarrow> bool \<Rightarrow> 'list list"
  bm_storage_info :: "'info list"
  bm_whitelisted_storage_keys :: "'key list"
  bm_add_benchmarks :: "'config \<times> 'key list \<Rightarrow> 'batch list \<Rightarrow> 's \<Rightarrow> (string + 'batch list) \<times> 's"

definition Benchmark_benchmark_metadata ::
  "('s, 'list, 'info, 'key, 'config, 'batch) benchmarks \<Rightarrow> bool \<Rightarrow> 'list list \<times> 'info list" where
  "Benchmark_benchmark_metadata bm extra =
     (let list = bm_list_benchmarks bm [] extra;
          storage_info = bm_storage_info bm
      in (list, storage_info))"

definition Benchmark_dispatch_benchmark ::
  "('s, 'list, 'info, 'key, 'config, 'batch) benchmarks \<Rightarrow> 'config \<Rightarrow> 's \<Rightarrow> (string + 'batch list) \<times> 's" where
  "Benchmark_dispatch_benchmark bm config s =
     (let whitelist = bm_whitelisted_storage_keys bm;
          batches = [];
          params = (config, whitelist)
      in case bm_add_benchmarks bm params batches s of
           (Inl e, s') \<Rightarrow> (Inl e, s')
         | (Inr batches, s') \<Rightarrow> (Inr batches, s'))"

section \<open>Session keys\<close>

text \<open>A kind of key whose encoding is self-delimiting, as SCALE encodings are.\<close>

definition key_kind_laws :: "('k, 'i) key_kind \<Rightarrow> bool" where
  "key_kind_laws kk \<longleftrightarrow> (\<forall>k rest. kk_decode kk (kk_encode kk k @ rest) = Some (k, rest))"

lemma decode_encode_keys:
  assumes "key_kind_laws ka" and "key_kind_laws kg"
  shows "decode_keys ka kg (encode_keys ka kg keys @ rest) = Some keys"
proof -
  have "kk_decode ka (encode_keys ka kg keys @ rest) = Some (sk_aura keys, kk_encode kg (sk_grandpa keys) @ rest)"
    using assms(1) by (simp add: encode_keys_def key_kind_laws_def)
  with assms(2) show ?thesis by (simp add: decode_keys_def key_kind_laws_def)
qed

text \<open>
  Session keys survive the round trip through the API. What \<open>decode_session_keys\<close> reads from the bytes that
  \<open>generate_session_keys\<close> returned for a seed, also with anything behind them, is the two
  public keys of that seed, Aura's first and GRANDPA's second, each under its own identifier; the bytes of
  the Aura key alone are refused.
\<close>

theorem session_keys_round_trip:
  assumes "key_kind_laws ka" and "key_kind_laws kg"
  shows "SessionKeys_decode_session_keys ka kg (SessionKeys_generate_session_keys ka kg seed @ rest) =
      Some [(kk_raw ka (kk_generate ka seed), kk_id ka), (kk_raw kg (kk_generate kg seed), kk_id kg)] \<and>
    (kk_decode kg [] = None \<longrightarrow>
       SessionKeys_decode_session_keys ka kg (kk_encode ka (kk_generate ka seed)) = None)"
proof -
  have "kk_decode ka (kk_encode ka (kk_generate ka seed) @ []) = Some (kk_generate ka seed, [])"
    using assms(1) unfolding key_kind_laws_def by blast
  then have "kk_decode kg [] = None \<longrightarrow> decode_keys ka kg (kk_encode ka (kk_generate ka seed)) = None"
    by (simp add: decode_keys_def)
  then show ?thesis
    by (simp add: SessionKeys_decode_session_keys_def SessionKeys_generate_session_keys_def decode_encode_keys [OF assms])
qed

text \<open>Keys of one byte.\<close>

definition byte_kind :: "u8 \<Rightarrow> string \<Rightarrow> (u8, string) key_kind" where
  "byte_kind b i = \<lparr>kk_id = i, kk_generate = (\<lambda>seed. case seed of Some (x # _) \<Rightarrow> x + b | _ \<Rightarrow> b), kk_encode = (\<lambda>k. [k]),
     kk_decode = (\<lambda>bs. case bs of [] \<Rightarrow> None | x # xs \<Rightarrow> Some (x, xs)), kk_raw = (\<lambda>k. [k])\<rparr>"

theorem session_keys_round_trip_witness:
  "SessionKeys_decode_session_keys (byte_kind 1 ''aura'') (byte_kind 2 ''gran'')
     (SessionKeys_generate_session_keys (byte_kind 1 ''aura'') (byte_kind 2 ''gran'') (Some [40]) @ [9]) =
   Some [([41], ''aura''), ([42], ''gran'')]"
proof -
  have laws: "key_kind_laws (byte_kind b i)" for b i by (simp add: key_kind_laws_def byte_kind_def)
  from session_keys_round_trip [OF laws laws, of 1 "''aura''" 2 "''gran''" "Some [40]" "[9]"] show ?thesis
    by (simp add: byte_kind_def)
qed

end
