(* ===== verification/Block_Execution.thy ===== *)
theory Block_Execution
  imports Runtime_API
begin

text \<open>
  Extrinsics in blocks. The node applies the extrinsics of a block through the runtime API, which passes them on to
  FRAME's \<open>Executive\<close>; this theory shows that every free claim in a block has passed the faucet's own check, what
  it leaves behind, and that no other call of the QX pallets gets in without a signature.
\<close>

section \<open>What Executive does\<close>


definition ledger_only :: "'c runtime \<Rightarrow> 'c runtime \<Rightarrow> bool" where
  "ledger_only rt rt' \<longleftrightarrow> (\<exists>l. rt' = rt\<lparr>rt_ledger := l\<rparr>)"





section \<open>Unsigned calls\<close>



section \<open>A plain executive\<close>





lemma ledger_only_refl [simp]: "ledger_only rt rt"
  unfolding ledger_only_def by (rule exI [of _ "rt_ledger rt"]) simp


section \<open>Claims in blocks\<close>




end
