(* ===== verification/Chain_Properties.thy ===== *)
theory Chain_Properties
  imports Chain_Spec Runtime_Config Chain_Run_Properties
begin

text \<open>
  Properties of the networks as they start: the specifications that \<open>load_spec\<close> returns, what their
  genesis endows, and the faucet with the runtime's constants on such a genesis. The witnesses derive
  keys by taking the seed's characters as bytes.
\<close>

section \<open>The instance the witnesses use\<close>

definition raw_crypto :: crypto where
  "raw_crypto = \<lparr>sr25519_from_string = (\<lambda>s. Some (map of_char s)), ed25519_from_string = (\<lambda>s. Some (map of_char s)),
     ss58_decode = (\<lambda>s. Some (map of_char s)), into_account = (\<lambda>k. k)\<rparr>"

lemma raw_crypto_total:
  "sr25519_from_string raw_crypto s \<noteq> None" "ed25519_from_string raw_crypto s \<noteq> None" "ss58_decode raw_crypto s \<noteq> None"
  by (simp_all add: raw_crypto_def)

section \<open>Loading a specification\<close>

text \<open>
  \<open>load_spec\<close> serves the three networks by name: with a wasm binary, and key derivation and SS58
  decoding that accept every string, it returns the specification of that network, with one, two and
  four authorities; without a wasm binary each of them is an error; and every other identifier is read
  as a file.
\<close>

theorem load_spec_outcome:
  assumes "\<And>s. sr25519_from_string cr s \<noteq> None" and "\<And>s. ed25519_from_string cr s \<noteq> None"
    and "\<And>s. ss58_decode cr s \<noteq> None"
  shows "(\<exists>spec. load_spec cr (Some wasm) file ''localnet_single'' = Some (Inr spec) \<and>
        cs_name spec = ''QXChain Local'' \<and> cs_chain_type spec = Local \<and> length (g_aura_authorities (cs_genesis spec)) = 1) \<and>
    (\<exists>spec. load_spec cr (Some wasm) file ''localnet'' = Some (Inr spec) \<and>
        cs_name spec = ''QXChain Local'' \<and> cs_chain_type spec = Local \<and> length (g_aura_authorities (cs_genesis spec)) = 2) \<and>
    (\<exists>spec. load_spec cr (Some wasm) file ''mainnet'' = Some (Inr spec) \<and>
        cs_name spec = ''QXChain Mainnet'' \<and> cs_chain_type spec = Live \<and> length (g_aura_authorities (cs_genesis spec)) = 4) \<and>
    (\<forall>spec_id. if spec_id \<in> {''localnet_single'', ''localnet'', ''mainnet''}
        then \<exists>e. load_spec cr None file spec_id = Some (Inl e) else load_spec cr w file spec_id = file spec_id)"
proof -
  let ?sr = "\<lambda>s. the (sr25519_from_string cr s)" and ?ed = "\<lambda>s. the (ed25519_from_string cr s)"
    and ?ss = "\<lambda>s. the (ss58_decode cr s)"
  have keys: "sr25519_from_string cr s = Some (?sr s)" "ed25519_from_string cr s = Some (?ed s)"
    "ss58_decode cr s = Some (?ss s)" for s
    using assms by simp_all
  have ids: "if spec_id \<in> {''localnet_single'', ''localnet'', ''mainnet''}
      then \<exists>e. load_spec cr None file spec_id = Some (Inl e) else load_spec cr w file spec_id = file spec_id" for spec_id
    by (simp add: load_spec_def localnet_config_def mainnet_config_def)
  show ?thesis
    unfolding load_spec_ids
  proof (intro conjI allI)
    show "\<exists>spec. localnet_config cr (Some wasm) True = Some (Inr spec) \<and> cs_name spec = ''QXChain Local'' \<and>
        cs_chain_type spec = Local \<and> length (g_aura_authorities (cs_genesis spec)) = 1"
      using localnet_config_total [of cr ?sr ?ed wasm True, OF keys(1,2)] by (elim ex_forward conj_forward) simp_all
    show "\<exists>spec. localnet_config cr (Some wasm) False = Some (Inr spec) \<and> cs_name spec = ''QXChain Local'' \<and>
        cs_chain_type spec = Local \<and> length (g_aura_authorities (cs_genesis spec)) = 2"
      using localnet_config_total [of cr ?sr ?ed wasm False, OF keys(1,2)] by (elim ex_forward conj_forward) simp_all
    show "\<exists>spec. mainnet_config cr (Some wasm) = Some (Inr spec) \<and> cs_name spec = ''QXChain Mainnet'' \<and>
        cs_chain_type spec = Live \<and> length (g_aura_authorities (cs_genesis spec)) = 4"
      using mainnet_config_total [of cr ?ss wasm, OF keys(3)] by (elim ex_forward conj_forward) simp_all
  qed (rule ids)
qed

theorem load_spec_outcome_witness:
  "\<exists>spec. load_spec raw_crypto (Some []) (\<lambda>_. None) ''mainnet'' = Some (Inr spec) \<and>
     length (g_aura_authorities (cs_genesis spec)) = 4"
  using load_spec_outcome [of raw_crypto "[]" "\<lambda>_. None", OF raw_crypto_total] by blast

section \<open>What the networks start with\<close>

text \<open>
  C39: Every specification the node builds itself starts well: all balances reach the existential
  deposit and their sum fits \<open>u128\<close>, the faucet pot of the runtime holds 100000 drips, the sudo
  account is endowed with the price of 100 drips, and the authorities of Aura and Grandpa pair up with
  weight 1.
\<close>

theorem networks_start_well:
  assumes "spec_id \<in> {''localnet_single'', ''localnet'', ''mainnet''}"
    and "load_spec cr w file spec_id = Some (Inr spec)"
  shows "starts_well (cs_genesis spec)"
proof -
  consider (loc) b where "localnet_config cr w b = Some (Inr spec)" | (main) "mainnet_config cr w = Some (Inr spec)"
    using assms by (auto simp: load_spec_ids)
  then show ?thesis
  proof cases
    case loc
    then show ?thesis by (rule localnet_config_genesis) (rule localnet_starts_well)
  next
    case main
    then show ?thesis by (rule mainnet_config_genesis) (simp add: mainnet_starts_well)
  qed
qed

theorem networks_start_well_witness:
  "\<exists>spec. load_spec raw_crypto (Some []) (\<lambda>_. None) ''localnet'' = Some (Inr spec) \<and> starts_well (cs_genesis spec)"
proof -
  have "sr25519_from_string raw_crypto s = Some (map of_char s)" "ed25519_from_string raw_crypto s = Some (map of_char s)" for s
    by (simp_all add: raw_crypto_def)
  from localnet_config_total [where wasm = "[]" and single = False, OF this]
  obtain spec where spec: "load_spec raw_crypto (Some []) (\<lambda>_. None) ''localnet'' = Some (Inr spec)"
    unfolding load_spec_ids by blast
  have "''localnet'' \<in> {''localnet_single'', ''localnet'', ''mainnet''}" by (intro insertI2 insertI1)
  from networks_start_well [OF this spec] spec show ?thesis by blast
qed

section \<open>The faucet on a network\<close>

lemma network_pot:
  fixes env :: "('o, 'c) env"
  assumes "spec_id \<in> {''localnet_single'', ''localnet'', ''mainnet''}"
    and "load_spec cr w file spec_id = Some (Inr spec)"
    and "distinct (map fst (g_balances (cs_genesis spec)))"
    and "genesis_ledger (env_currency env) (g_balances (cs_genesis spec)) l"
  shows "unat (faucet_balance (faucet_config_of env) l) = 100000 * 10000000000000"
proof -
  consider (loc) b where "localnet_config cr w b = Some (Inr spec)" | (main) "mainnet_config cr w = Some (Inr spec)"
    using assms(1,2) by (auto simp: load_spec_ids)
  then have "starts_well (cs_genesis spec)"
    by cases (auto elim!: localnet_config_genesis mainnet_config_genesis simp: localnet_starts_well mainnet_starts_well)
  then obtain v where v: "(FaucetPotAccount, v) \<in> set (g_balances (cs_genesis spec))" "unat v = 100000 * unat FaucetDripAmount"
    by (auto simp: starts_well_def)
  then have "map_of (g_balances (cs_genesis spec)) FaucetPotAccount = Some v" using assms(3) by simp
  with assms(4) v(2) show ?thesis by (simp add: genesis_ledger_def faucet_balance_def)
qed

text \<open>
  On the genesis of each network the node can build, a new account gets its 50 QX: claiming once a
  day, it collects five drips in the first 57600 blocks, without a balance of its own.
\<close>

theorem network_faucet_serves:
  fixes env :: "('o, 'c) env"
  assumes "spec_id \<in> {''localnet_single'', ''localnet'', ''mainnet''}"
    and "load_spec cr w file spec_id = Some (Inr spec)"
    and "distinct (map fst (g_balances (cs_genesis spec)))" and "a \<notin> fst ` set (g_balances (cs_genesis spec))"
    and "genesis_ledger (env_currency env) (g_balances (cs_genesis spec)) l"
    and "storage_layer layer" and "currency_laws (env_currency env) EXISTENTIAL_DEPOSIT"
    and "\<And>l. spendable (env_currency env) EXISTENTIAL_DEPOSIT FaucetPotAccount l" and "ensure_none fw origin = Inr ()"
  shows "\<exists>s l'. run_calls layer (\<lambda>(now, origin, c). faucet_dispatch fw (faucet_config_of env) now origin c)
      [(0, origin, Claim a), (14400, origin, Claim a), (28800, origin, Claim a), (43200, origin, Claim a),
       (57600, origin, Claim a)] (faucet_genesis, l) = (s, l') \<and>
    unat (free_balance (env_currency env) l a) = 0 \<and> unat (free_balance (env_currency env) l' a) = 50 * 10 ^ 12"
proof -
  note pot = network_pot [OF assms(1-3,5)]
  from assms(4) have "map_of (g_balances (cs_genesis spec)) a = None" by (simp add: map_of_eq_None_iff)
  with assms(5) have bal: "unat (free_balance (env_currency env) l a) = 0" by (simp add: genesis_ledger_def)
  with pot have "a \<noteq> FaucetPotAccount" by (auto simp: faucet_balance_def)
  then have "\<exists>s l'. faucet_calls layer fw (faucet_config_of env) (claim_each_cooldown (faucet_config_of env) origin a 5)
      (faucet_genesis, l) = (s, l') \<and> unat (free_balance (env_currency env) l' a) = 50 * 10 ^ 12"
    using collect_claims [where cfg = "faucet_config_of env" and ed = EXISTENTIAL_DEPOSIT and n = 5 and k = 5 and a = a and l = l and fw = fw
        and origin = origin, OF assms(6) _ _ assms(9)] assms(7,8) pot bal
    by (auto simp: EXISTENTIAL_DEPOSIT_def FaucetDripAmount_def)
  moreover have "claim_each_cooldown (faucet_config_of env) origin a 5 =
      [(0, origin, Claim a), (14400, origin, Claim a), (28800, origin, Claim a), (43200, origin, Claim a), (57600, origin, Claim a)]"
    by (simp add: claim_each_cooldown_def upt_conv_Cons)
  ultimately show ?thesis using bal by simp
qed

text \<open>The mainnet in the instance of the witnesses, and its ledger.\<close>

abbreviation ledger_of :: "genesis \<Rightarrow> account_id \<Rightarrow> u128" where
  "ledger_of g \<equiv> \<lambda>a. case map_of (g_balances g) a of None \<Rightarrow> 0 | Some v \<Rightarrow> v"

lemma raw_mainnet:
  obtains spec where "load_spec raw_crypto (Some []) (\<lambda>_. None) ''mainnet'' = Some (Inr spec)"
    and "distinct (map fst (g_balances (cs_genesis spec)))" and "[2] \<notin> fst ` set (g_balances (cs_genesis spec))"
    and "genesis_ledger (env_currency raw_env) (g_balances (cs_genesis spec)) (ledger_of (cs_genesis spec))"
proof -
  have ss: "ss58_decode raw_crypto s = Some (map of_char s)" for s by (simp add: raw_crypto_def)
  obtain spec where cfg: "mainnet_config raw_crypto (Some []) = Some (Inr spec)"
    using mainnet_config_total [where cr = raw_crypto and wasm = "[]", OF ss] by blast
  let ?bs = "g_balances (cs_genesis spec)"
  from cfg have bs: "?bs = [(map of_char validator_1, 1000000000000000), (faucet_pot_account, 1000000000000000000)]"
    by (rule mainnet_config_genesis) (simp add: mainnet_genesis_def ss)
  have n: "length (map of_char validator_1 :: u8 list) = 48" "length faucet_pot_account = 32"
    by (simp_all add: validator_1_def faucet_pot_account_def)
  have ne: "x \<noteq> y" if "length x \<noteq> length y" for x y :: account_id using that by auto
  have "distinct (map fst ?bs)" and "[2] \<notin> fst ` set ?bs"
    using ne [of "map of_char validator_1" faucet_pot_account] ne [of "[2]" "map of_char validator_1"]
      ne [of "[2]" faucet_pot_account] n unfolding bs by simp_all
  moreover have "genesis_ledger (env_currency raw_env) ?bs (ledger_of (cs_genesis spec))"
    by (simp add: genesis_ledger_def plain_ledger_def)
  moreover have "load_spec raw_crypto (Some []) (\<lambda>_. None) ''mainnet'' = Some (Inr spec)"
    using cfg by (simp only: load_spec_ids)
  ultimately show ?thesis using that by blast
qed

lemma raw_currency: "currency_laws (env_currency raw_env) EXISTENTIAL_DEPOSIT"
    "spendable (env_currency raw_env) EXISTENTIAL_DEPOSIT FaucetPotAccount l"
  by (simp_all add: plain_ledger_laws plain_ledger_spendable)

lemma mainnet_named: "''mainnet'' \<in> {''localnet_single'', ''localnet'', ''mainnet''}"
  by (intro insertI2 singletonI)

theorem network_faucet_serves_witness:
  "\<exists>spec s l'. load_spec raw_crypto (Some []) (\<lambda>_. None) ''mainnet'' = Some (Inr spec) \<and>
     run_calls commit_or_discard (\<lambda>(now, origin, c). faucet_dispatch raw_frame (faucet_config_of raw_env) now origin c)
      [(0, Unsigned, Claim [2]), (14400, Unsigned, Claim [2]), (28800, Unsigned, Claim [2]),
       (43200, Unsigned, Claim [2]), (57600, Unsigned, Claim [2])] (faucet_genesis, ledger_of (cs_genesis spec)) = (s, l') \<and>
     unat (free_balance (env_currency raw_env) l' [2]) = 50 * 10 ^ 12"
proof -
  obtain spec where spec: "load_spec raw_crypto (Some []) (\<lambda>_. None) ''mainnet'' = Some (Inr spec)"
    "distinct (map fst (g_balances (cs_genesis spec)))" "[2] \<notin> fst ` set (g_balances (cs_genesis spec))"
    "genesis_ledger (env_currency raw_env) (g_balances (cs_genesis spec)) (ledger_of (cs_genesis spec))"
    by (rule raw_mainnet)
  from network_faucet_serves [where env = raw_env and a = "[2]" and fw = raw_frame and layer = commit_or_discard,
      OF mainnet_named spec storage_layer_commit_or_discard raw_currency raw_frame_simps(6)] spec(1)
  show ?thesis by blast
qed

text \<open>
  C33: On each network the node can build, the faucet has enough for a long time: on every run of the
  chain from its genesis in which no other pallet takes money from the pot and fewer than 99999 claims
  have succeeded, the pot can pay the next drip and stay alive, and the next claim of any account whose
  cooldown is over and that has claims left succeeds.
\<close>

theorem network_pot_lasts:
  fixes env :: "('o, 'c) env"
  assumes "spec_id \<in> {''localnet_single'', ''localnet'', ''mainnet''}"
    and "load_spec cr w file spec_id = Some (Inr spec)"
    and "distinct (map fst (g_balances (cs_genesis spec)))"
    and "genesis_ledger (env_currency env) (g_balances (cs_genesis spec)) l0"
    and "storage_layer layer" and "currency_laws (env_currency env) EXISTENTIAL_DEPOSIT"
    and "spendable (env_currency env) EXISTENTIAL_DEPOSIT FaucetPotAccount (rt_ledger rt)"
    and "chain_run layer env l0 tr now rt" and "pot_untouched env tr" and "length (claims_of tr) < 99999"
  shows "unat FaucetDripAmount + unat EXISTENTIAL_DEPOSIT \<le> unat (faucet_balance (faucet_config_of env) (rt_ledger rt)) \<and>
    (\<forall>origin a. ensure_none (env_frame env) origin = Inr () \<and> rested (faucet_config_of env) now a (rt_faucet rt) \<and>
       claim_count_get (rt_faucet rt) a < FaucetMaxClaims \<and>
       unat (free_balance (env_currency env) (rt_ledger rt) a) + unat FaucetDripAmount < 2 ^ 128 \<longrightarrow>
       (\<exists>rt'. rt_dispatch env now origin (QxFaucet (Claim a)) rt = (Inr Pays_Yes, rt')))"
proof -
  let ?cfg = "faucet_config_of env"
  have "unat (faucet_balance ?cfg l0) = 100000 * 10000000000000"
    using network_pot [OF assms(1-4)] .
  with chain_run_pot [OF assms(5,6,8,9)] assms(10)
  have pot: "unat FaucetDripAmount + unat EXISTENTIAL_DEPOSIT \<le> unat (faucet_balance ?cfg (rt_ledger rt))"
    by simp
  have "\<exists>rt'. rt_dispatch env now origin (QxFaucet (Claim a)) rt = (Inr Pays_Yes, rt')"
    if "ensure_none (env_frame env) origin = Inr ()" "rested ?cfg now a (rt_faucet rt)"
      "claim_count_get (rt_faucet rt) a < FaucetMaxClaims"
      "unat (free_balance (env_currency env) (rt_ledger rt) a) + unat FaucetDripAmount < 2 ^ 128" for origin a
  proof -
    have "EXISTENTIAL_DEPOSIT \<le> FaucetDripAmount" by (simp add: EXISTENTIAL_DEPOSIT_def FaucetDripAmount_def)
    with claim_succeeds [where cfg = ?cfg and ed = EXISTENTIAL_DEPOSIT and l = "rt_ledger rt", OF _ that(1) _ that(2)] assms(7) that(3,4) pot
    obtain l' where "claim (env_frame env) ?cfg now origin a (rt_faucet rt, rt_ledger rt) =
        (Inr (), (claimed_by ?cfg now a (rt_faucet rt), l'))"
      by auto
    then show ?thesis by (simp add: default_post_info_def)
  qed
  with pot show ?thesis by blast
qed

theorem network_pot_lasts_witness:
  "\<exists>spec rt'. load_spec raw_crypto (Some []) (\<lambda>_. None) ''mainnet'' = Some (Inr spec) \<and>
     rt_dispatch raw_env 0 Unsigned (QxFaucet (Claim [2])) (rt_genesis (ledger_of (cs_genesis spec))) = (Inr Pays_Yes, rt')"
proof -
  obtain spec where spec: "load_spec raw_crypto (Some []) (\<lambda>_. None) ''mainnet'' = Some (Inr spec)"
    "distinct (map fst (g_balances (cs_genesis spec)))" "[2] \<notin> fst ` set (g_balances (cs_genesis spec))"
    "genesis_ledger (env_currency raw_env) (g_balances (cs_genesis spec)) (ledger_of (cs_genesis spec))"
    by (rule raw_mainnet)
  let ?l = "ledger_of (cs_genesis spec)" and ?rt = "rt_genesis (ledger_of (cs_genesis spec))"
  from spec(3) have "map_of (g_balances (cs_genesis spec)) [2] = None" by (simp add: map_of_eq_None_iff)
  then have "free_balance (env_currency raw_env) ?l [2] = 0" by (simp add: plain_ledger_def)
  then have ready: "ensure_none (env_frame raw_env) Unsigned = Inr () \<and> rested (faucet_config_of raw_env) 0 [2] (rt_faucet ?rt) \<and>
      claim_count_get (rt_faucet ?rt) [2] < FaucetMaxClaims \<and>
      unat (free_balance (env_currency raw_env) (rt_ledger ?rt) [2]) + unat FaucetDripAmount < 2 ^ 128"
    by (simp add: rt_genesis_def faucet_genesis_def rested_def claim_count_get_def FaucetMaxClaims_def)
  have none: "pot_untouched raw_env []" "length (claims_of []) < 99999" by (simp_all add: pot_untouched_def)
  from network_pot_lasts [OF mainnet_named spec(1,2,4) storage_layer_commit_or_discard raw_currency cr_genesis none] ready spec(1)
  show ?thesis by blast
qed

text \<open>
  The presets of the runtime endow only the development keys: on their genesis the faucet is empty,
  every claim fails with \<open>FaucetEmpty\<close>, and the pool admits none.
\<close>

theorem presets_leave_faucet_empty:
  fixes env :: "('o, 'c) env"
  assumes "get_preset dev_preset local_preset kr preset_id = Some g"
    and "FaucetPotAccount \<notin> dk_account ` set (kr_all kr)"
    and "genesis_ledger (env_currency env) (g_balances g) l" and "ensure_none fw origin = Inr ()"
  shows "claim fw (faucet_config_of env) now origin a (faucet_genesis, l) = (Inl (Faucet_Error FaucetEmpty), (faucet_genesis, l)) \<and>
    validate_unsigned (faucet_config_of env) now (Claim a) (faucet_genesis, l) = Inl ExhaustsResources"
proof -
  from assms(1) have "g_balances g = map (\<lambda>a. (dk_account a, (- 1) div 1000)) (kr_all kr)"
    by (auto simp: get_preset_def preset_genesis_def split: if_splits)
  with assms(2) have "map_of (g_balances g) FaucetPotAccount = None"
    by (simp add: map_of_eq_None_iff image_image)
  with assms(3) have "free_balance (env_currency env) l FaucetPotAccount = 0" by (simp add: genesis_ledger_def)
  with assms(4) show ?thesis
    by (simp add: claim_def faucet_genesis_def claim_count_get_def FaucetMaxClaims_def FaucetDripAmount_def Let_def)
qed

text \<open>What the genesis code of the pallets requires: their bounds, and balances that can exist.\<close>

definition genesis_fits :: "genesis \<Rightarrow> bool" where
  "genesis_fits g \<longleftrightarrow>
     (\<forall>f. length (g_aura_authorities g) \<le> unat (ac_max_authorities (aura_config f))) \<and>
     length (g_grandpa_authorities g) \<le> unat (gc_max_authorities grandpa_config) \<and>
     (\<forall>(a, v)\<in>set (g_balances g). bc_existential_deposit balances_config \<le> v) \<and>
     sum_list (map (\<lambda>(a, v). unat v) (g_balances g)) < 2 ^ 128 \<and>
     length (g_aura_authorities g) = length (g_grandpa_authorities g) \<and> g_sudo_key g \<noteq> None"

text \<open>
  C32: \<open>preset_names\<close> lists exactly the presets that \<open>get_preset\<close> knows. Each of them fits the
  pallets: at most 32 authorities for Aura and Grandpa, balances of at least the existential deposit
  that add up to less than \<open>2 ^ 128\<close> as long as there are at most 1000 development keys, and a sudo
  key. But unless a development key happens to be the pot, the faucet is empty on such a genesis: every
  claim fails with \<open>FaucetEmpty\<close>, and the pool admits none.
\<close>

theorem presets_complete:
  fixes env :: "('o, 'c) env"
  assumes "length (kr_all kr) \<le> 1000" and "FaucetPotAccount \<notin> dk_account ` set (kr_all kr)"
    and "ensure_none fw origin = Inr ()"
  shows "(\<forall>i. get_preset dev_preset local_preset kr i \<noteq> None \<longleftrightarrow> i \<in> set (preset_names dev_preset local_preset)) \<and>
    (\<forall>i g. get_preset dev_preset local_preset kr i = Some g \<longrightarrow> genesis_fits g \<and>
       (\<forall>l now a. genesis_ledger (env_currency env) (g_balances g) l \<longrightarrow>
          fst (claim fw (faucet_config_of env) now origin a (faucet_genesis, l)) = Inl (Faucet_Error FaucetEmpty) \<and>
          validate_unsigned (faucet_config_of env) now (Claim a) (faucet_genesis, l) = Inl ExhaustsResources))"
proof -
  have e: "unat ((- 1) div 1000 :: u128) = (2 ^ 128 - 1) div 1000"
    by (simp add: unat_div unat_max_word)
  have "sum_list (map (\<lambda>(a, v). unat v) (map (\<lambda>a. (dk_account a, (- 1) div 1000 :: u128)) ks)) = length ks * ((2 ^ 128 - 1) div 1000)" for ks :: "dev_key list"
    by (induction ks) (simp_all add: e)
  moreover have "length (kr_all kr) * ((2 ^ 128 - 1) div 1000) \<le> 1000 * ((2 ^ 128 - 1) div 1000)"
    using assms(1) by (rule mult_le_mono1)
  ultimately have sum: "sum_list (map (\<lambda>(a, v). unat v) (map (\<lambda>a. (dk_account a, (- 1) div 1000 :: u128)) (kr_all kr))) < 2 ^ 128"
    by simp
  have ed: "EXISTENTIAL_DEPOSIT \<le> (- 1) div 1000"
    by (simp add: word_le_nat_alt e)
  have "genesis_fits g" if "get_preset dev_preset local_preset kr i = Some g" for i g
    using that sum ed by (auto simp: get_preset_def preset_genesis_def genesis_fits_def aura_config_def grandpa_config_def
        balances_config_def split: if_splits)
  moreover have "get_preset dev_preset local_preset kr i \<noteq> None \<longleftrightarrow> i \<in> set (preset_names dev_preset local_preset)" for i
    by (simp add: get_preset_def preset_names_def)
  ultimately show ?thesis
    using presets_leave_faucet_empty [where env = env and fw = fw and origin = origin, OF _ assms(2) _ assms(3)] by fastforce
qed

theorem presets_complete_witness:
  "fst (claim raw_frame (faucet_config_of raw_env) 3 Unsigned [2] (faucet_genesis, \<lambda>a. if a = [7] then (- 1) div 1000 else 0)) =
     Inl (Faucet_Error FaucetEmpty)"
proof -
  let ?alice = "\<lparr>dk_account = [7], dk_sr25519 = [7], dk_ed25519 = [7]\<rparr>"
  let ?kr = "\<lparr>kr_all = [?alice], kr_alice = ?alice, kr_bob = ?alice, kr_charlie = ?alice, kr_dave = ?alice\<rparr>"
  have "get_preset True False ?kr True = Some (preset_genesis ?kr [?alice])" by (simp add: get_preset_def)
  moreover have "FaucetPotAccount \<notin> dk_account ` set (kr_all ?kr)" and "length (kr_all ?kr) \<le> 1000"
    by (simp_all add: FaucetPotAccount_def)
  moreover have "genesis_ledger (env_currency raw_env) (g_balances (preset_genesis ?kr [?alice]))
      (\<lambda>a. if a = [7] then (- 1) div 1000 else 0)"
    by (simp add: genesis_ledger_def preset_genesis_def plain_ledger_def)
  ultimately show ?thesis
    using presets_complete [where kr = ?kr and env = raw_env and fw = raw_frame and origin = Unsigned and dev_preset = True
        and local_preset = False, OF _ _ raw_frame_simps(6)] by blast
qed

end
