(* ===== verification/Build_Scripts.thy ===== *)
theory Build_Scripts
  imports Chain_Spec
begin

text \<open>
  The build scripts (\<open>runtime/build.rs\<close>, \<open>node/build.rs\<close>) and the one place where the program depends on what they
  generate: with the feature \<open>std\<close> the runtime includes \<open>wasm_binary.rs\<close>, whose \<open>WASM_BINARY\<close> the chain
  specifications need. What the helpers of the SDK write into the build is the parameter \<open>wasm_builder\<close>.
\<close>

section \<open>The scripts\<close>

datatype build_step = Generate_Cargo_Keys | Rerun_If_Git_Head_Changed | Wasm_Builder_Build_Using_Defaults

definition node_build_main :: "build_step list" where
  "node_build_main = [Generate_Cargo_Keys, Rerun_If_Git_Head_Changed]"

definition runtime_build_main :: "bool \<Rightarrow> build_step list" where
  "runtime_build_main std = (if std then [Wasm_Builder_Build_Using_Defaults] else [])"

text \<open>
  The file that a build leaves in \<open>OUT_DIR\<close>, if any, and the \<open>include!\<close> at the top of the runtime: outer
  \<open>None\<close> is a build that fails because the file is missing, inner \<open>None\<close> a runtime without the constant.
\<close>

definition out_dir_wasm :: "'w \<Rightarrow> build_step list \<Rightarrow> 'w option" where
  "out_dir_wasm wasm_builder steps = (if Wasm_Builder_Build_Using_Defaults \<in> set steps then Some wasm_builder else None)"

definition include_wasm_binary :: "bool \<Rightarrow> 'w option \<Rightarrow> 'w option option" where
  "include_wasm_binary std out_dir = (if std then map_option Some out_dir else Some None)"

section \<open>The include never fails\<close>

lemma include_after_build:
  "include_wasm_binary std (out_dir_wasm wasm_builder (runtime_build_main std)) = Some (if std then Some wasm_builder else None)"
  by (simp add: include_wasm_binary_def out_dir_wasm_def runtime_build_main_def)

text \<open>
  A node, built with \<open>std\<close>, offers its three networks exactly if the builder embedded a binary; if it was
  skipped (then \<open>WASM_BINARY\<close> is \<open>None\<close>) each of them ends in an error.
\<close>

lemma networks_need_embedded_wasm:
  assumes "include_wasm_binary True (out_dir_wasm None (runtime_build_main True)) = Some (Some wasm)"
    and "spec_id \<in> {''localnet_single'', ''localnet'', ''mainnet''}"
  shows "\<exists>e. load_spec cr wasm file spec_id = Some (Inl e)"
  using assms unfolding include_after_build by (auto simp: load_spec_def localnet_config_def mainnet_config_def)

end
