(* ===== verification/Node_Service.thy ===== *)
theory Node_Service
  imports Runtime_Config "HOL-Library.Sublist"
begin

text \<open>
  How the node assembles itself (\<open>service.rs\<close>, \<open>rpc.rs\<close>). Everything it assembles is code of the
  SDK, so a call of the SDK is an event \<open>sdk_call\<close>, with the values the source passes: constants,
  fields of the configuration, and the variables bound by earlier calls, which are the \<open>handle\<close>s. A
  function of the service is the list of its calls, each with what the source does with a failure:
  \<open>Try\<close> for \<open>?\<close>, \<open>Expect\<close> for \<open>expect\<close>, \<open>Do\<close> where there is no failure to handle. The
  parameter \<open>world\<close> decides whether a call fails, from the calls made before it. \<open>run_plan\<close>
  runs the list up to the first failure. Arguments that only pass the metrics registry, spawn
  handles and the pool's options along are left out.
\<close>

section \<open>Configuration, variables and calls\<close>

text \<open>The fields of the SDK's \<open>Configuration\<close> that the source reads.\<close>

datatype network_backend = Libp2p | Litep2p

record node_config =
  nc_telemetry_endpoints :: "string list option"
  nc_is_authority :: bool
  nc_offchain_worker_enabled :: bool
  nc_force_authoring :: bool
  nc_disable_grandpa :: bool
  nc_node_name :: string
  nc_network_backend :: "network_backend option"

datatype handle = Telemetry_Worker | Telemetry | Executor | Client | Backend | Keystore_Container | Task_Manager
  | Select_Chain | Transaction_Pool | Grandpa_Block_Import | Grandpa_Link | Import_Queue | Net_Config | Metrics
  | Peer_Store_Handle | Genesis_Hash | Grandpa_Protocol_Name | Grandpa_Protocol_Config | Grandpa_Notification_Service
  | Warp_Sync | Network | System_Rpc_Tx | Tx_Handler_Controller | Sync_Service | Offchain_Workers | Rpc_Handlers
  | Proposer_Factory | Slot_Duration | Aura_Task | Voter_Task

record import_queue_params =
  iq_block_import :: handle
  iq_justification_import :: "handle option"
  iq_client :: handle
  iq_telemetry :: "handle option"

record start_aura_params =
  sa_slot_duration :: handle
  sa_client :: handle
  sa_select_chain :: handle
  sa_block_import :: handle
  sa_proposer_factory :: handle
  sa_force_authoring :: bool
  sa_backoff_authoring_blocks :: "unit option"
  sa_keystore :: handle
  sa_sync_oracle :: handle
  sa_justification_sync_link :: handle
  sa_block_proposal_slot_portion :: "nat \<times> nat"
  sa_max_block_proposal_slot_portion :: "nat option"
  sa_telemetry :: "handle option"

record grandpa_voter_params =
  gv_gossip_duration_millis :: nat
  gv_justification_generation_period :: u32
  gv_name :: "string option"
  gv_observer_enabled :: bool
  gv_keystore :: "handle option"
  gv_local_role_authority :: bool
  gv_protocol_name :: handle
  gv_link :: handle
  gv_network :: handle
  gv_sync :: handle
  gv_notification_service :: handle
  gv_telemetry :: "handle option"
  gv_transaction_pool :: handle

record task =
  task_name :: string
  task_group :: "string option"
  task_essential :: bool
  task_blocking :: bool

datatype sdk_call =
    TelemetryWorker_new nat
  | New_Telemetry handle "string list"
  | New_Wasm_Executor
  | New_Full_Parts "handle option" handle
  | Spawn task handle
  | LongestChain_new handle
  | Build_Transaction_Pool handle bool
  | Grandpa_block_import handle u32 handle "handle option"
  | Aura_import_queue import_queue_params
  | FullNetworkConfiguration_new network_backend
  | Register_Notification_Metrics network_backend
  | Peer_store_handle handle
  | Block_hash handle u32
  | Protocol_Standard_Name handle
  | Grandpa_Peers_Set_Config network_backend handle handle handle
  | Add_Notification_Protocol handle handle
  | Warp_Proof_NetworkProvider_new handle handle
  | Build_Network handle handle handle handle handle handle
  | OffchainWorkers_new handle bool handle handle handle handle bool
  | Spawn_Tasks handle handle handle handle handle handle handle handle "handle option"
  | ProposerFactory_new handle handle "handle option"
  | Aura_slot_duration handle
  | Start_Aura start_aura_params
  | Run_Grandpa_Voter grandpa_voter_params

datatype step = Do sdk_call | Try sdk_call | Expect sdk_call

fun call_of :: "step \<Rightarrow> sdk_call" where
  "call_of (Do c) = c"
| "call_of (Try c) = c"
| "call_of (Expect c) = c"

section \<open>Running a list of calls\<close>

datatype 'e service_outcome = Service_Ok | Service_Err 'e | Panicked

type_synonym 'e world = "sdk_call list \<Rightarrow> sdk_call \<Rightarrow> 'e option"

fun run_plan :: "'e world \<Rightarrow> step list \<Rightarrow> sdk_call list \<Rightarrow> 'e service_outcome \<times> sdk_call list" where
  "run_plan world [] made = (Service_Ok, made)"
| "run_plan world (Do c # rest) made = run_plan world rest (made @ [c])"
| "run_plan world (Try c # rest) made =
     (case world made c of None \<Rightarrow> run_plan world rest (made @ [c]) | Some e \<Rightarrow> (Service_Err e, made @ [c]))"
| "run_plan world (Expect c # rest) made =
     (case world made c of None \<Rightarrow> run_plan world rest (made @ [c]) | Some _ \<Rightarrow> (Panicked, made @ [c]))"

section \<open>new_partial\<close>

definition GRANDPA_JUSTIFICATION_PERIOD :: u32 where "GRANDPA_JUSTIFICATION_PERIOD = 512"

text \<open>Telemetry is set up when there are endpoints, and not for an empty list of them.\<close>

definition telemetry_endpoints :: "node_config \<Rightarrow> string list option" where
  "telemetry_endpoints config =
     (case nc_telemetry_endpoints config of None \<Rightarrow> None | Some x \<Rightarrow> if x \<noteq> [] then Some x else None)"

definition telemetry_handle :: "node_config \<Rightarrow> handle option" where
  "telemetry_handle config = map_option (\<lambda>_. Telemetry) (telemetry_endpoints config)"

definition new_partial_plan :: "node_config \<Rightarrow> step list" where
  "new_partial_plan config =
     (case telemetry_endpoints config of
        None \<Rightarrow> []
      | Some endpoints \<Rightarrow> [Try (TelemetryWorker_new 16), Do (New_Telemetry Telemetry_Worker endpoints)]) @
     [Do New_Wasm_Executor,
      Try (New_Full_Parts (telemetry_handle config) Executor)] @
     (case telemetry_endpoints config of
        None \<Rightarrow> []
      | Some _ \<Rightarrow> [Do (Spawn \<lparr>task_name = ''telemetry'', task_group = None, task_essential = False,
          task_blocking = False\<rparr> Telemetry_Worker)]) @
     [Do (LongestChain_new Backend),
      Do (Build_Transaction_Pool Client (nc_is_authority config)),
      Try (Grandpa_block_import Client GRANDPA_JUSTIFICATION_PERIOD Select_Chain (telemetry_handle config)),
      Try (Aura_import_queue \<lparr>iq_block_import = Grandpa_Block_Import, iq_justification_import = Some Grandpa_Block_Import,
        iq_client = Client, iq_telemetry = telemetry_handle config\<rparr>)]"

definition new_partial :: "'e world \<Rightarrow> node_config \<Rightarrow> 'e service_outcome \<times> sdk_call list" where
  "new_partial world config = run_plan world (new_partial_plan config) []"

section \<open>new_full\<close>

definition network_plan :: "network_backend \<Rightarrow> step list" where
  "network_plan net = [
     Do (FullNetworkConfiguration_new net),
     Do (Register_Notification_Metrics net),
     Do (Peer_store_handle Net_Config),
     Expect (Block_hash Client 0),
     Do (Protocol_Standard_Name Genesis_Hash),
     Do (Grandpa_Peers_Set_Config net Grandpa_Protocol_Name Metrics Peer_Store_Handle),
     Do (Add_Notification_Protocol Net_Config Grandpa_Protocol_Config),
     Do (Warp_Proof_NetworkProvider_new Backend Grandpa_Link),
     Try (Build_Network Net_Config Client Transaction_Pool Import_Queue Warp_Sync Metrics)]"

definition offchain_plan :: "node_config \<Rightarrow> step list" where
  "offchain_plan config =
     (if nc_offchain_worker_enabled config
      then [Try (OffchainWorkers_new Client (nc_is_authority config) Keystore_Container Backend Transaction_Pool Network True),
        Do (Spawn \<lparr>task_name = ''offchain-workers-runner'', task_group = Some ''offchain-worker'',
          task_essential = False, task_blocking = False\<rparr> Offchain_Workers)]
      else [])"

definition authoring_plan :: "node_config \<Rightarrow> step list" where
  "authoring_plan config =
     (if nc_is_authority config
      then [Do (ProposerFactory_new Client Transaction_Pool (telemetry_handle config)),
        Try (Aura_slot_duration Client),
        Try (Start_Aura \<lparr>sa_slot_duration = Slot_Duration, sa_client = Client, sa_select_chain = Select_Chain,
          sa_block_import = Grandpa_Block_Import, sa_proposer_factory = Proposer_Factory,
          sa_force_authoring = nc_force_authoring config, sa_backoff_authoring_blocks = None,
          sa_keystore = Keystore_Container, sa_sync_oracle = Sync_Service, sa_justification_sync_link = Sync_Service,
          sa_block_proposal_slot_portion = (2, 3), sa_max_block_proposal_slot_portion = None,
          sa_telemetry = telemetry_handle config\<rparr>),
        Do (Spawn \<lparr>task_name = ''aura'', task_group = Some ''block-authoring'', task_essential = True,
          task_blocking = True\<rparr> Aura_Task)]
      else [])"

definition grandpa_plan :: "node_config \<Rightarrow> step list" where
  "grandpa_plan config =
     (let enable_grandpa = \<not> nc_disable_grandpa config in
      if enable_grandpa
      then let keystore = (if nc_is_authority config then Some Keystore_Container else None) in
        [Try (Run_Grandpa_Voter \<lparr>gv_gossip_duration_millis = 333,
           gv_justification_generation_period = GRANDPA_JUSTIFICATION_PERIOD, gv_name = Some (nc_node_name config),
           gv_observer_enabled = False, gv_keystore = keystore, gv_local_role_authority = nc_is_authority config,
           gv_protocol_name = Grandpa_Protocol_Name, gv_link = Grandpa_Link, gv_network = Network, gv_sync = Sync_Service,
           gv_notification_service = Grandpa_Notification_Service, gv_telemetry = telemetry_handle config,
           gv_transaction_pool = Transaction_Pool\<rparr>),
         Do (Spawn \<lparr>task_name = ''grandpa-voter'', task_group = None, task_essential = True, task_blocking = True\<rparr> Voter_Task)]
      else [])"

definition rest_plan :: "network_backend \<Rightarrow> node_config \<Rightarrow> step list" where
  "rest_plan net config =
     network_plan net @ offchain_plan config @
     [Try (Spawn_Tasks Network Client Keystore_Container Transaction_Pool Backend System_Rpc_Tx Tx_Handler_Controller
        Sync_Service (telemetry_handle config))] @
     authoring_plan config @ grandpa_plan config"

definition new_full :: "'e world \<Rightarrow> network_backend \<Rightarrow> node_config \<Rightarrow> 'e service_outcome \<times> sdk_call list" where
  "new_full world net config =
     (case new_partial world config of
        (Service_Ok, made) \<Rightarrow> run_plan world (rest_plan net config) made
      | (failure, made) \<Rightarrow> (failure, made))"

section \<open>Inherent data\<close>

text \<open>
  The slot and the timestamp of a block, for importing it and for authoring it. The slot of a timestamp
  is computed by the SDK, and so is the slot duration at a block.
\<close>

definition import_inherents ::
  "('h \<Rightarrow> 'e + u64) \<Rightarrow> (u64 \<Rightarrow> u64 \<Rightarrow> u64) \<Rightarrow> 'h \<Rightarrow> u64 \<Rightarrow> 'e + (u64 \<times> u64)" where
  "import_inherents slot_duration_at slot_of parent_hash timestamp =
     (case slot_duration_at parent_hash of
        Inl e \<Rightarrow> Inl e
      | Inr slot_duration \<Rightarrow> Inr (slot_of timestamp slot_duration, timestamp))"

definition authoring_inherents :: "u64 \<Rightarrow> (u64 \<Rightarrow> u64 \<Rightarrow> u64) \<Rightarrow> u64 \<Rightarrow> 'e + (u64 \<times> u64)" where
  "authoring_inherents slot_duration slot_of timestamp = Inr (slot_of timestamp slot_duration, timestamp)"

section \<open>RPC\<close>

text \<open>
  The RPC module of the node, merged from the modules that the SDK's two handlers make of the client and the
  pool; \<open>merge\<close> is jsonrpsee's. The builder that the service passes on makes a new module from the same
  client and pool at every call, whatever its argument.
\<close>

record ('client, 'pool) full_deps =
  fd_client :: 'client
  fd_pool :: 'pool

definition create_full ::
  "('m \<Rightarrow> 'm \<Rightarrow> 'e + 'm) \<Rightarrow> 'm \<Rightarrow> ('client \<Rightarrow> 'pool \<Rightarrow> 'm) \<Rightarrow> ('client \<Rightarrow> 'm) \<Rightarrow> ('client, 'pool) full_deps \<Rightarrow> 'e + 'm" where
  "create_full merge new_module system_rpc transaction_payment_rpc deps =
     (let client = fd_client deps; pool = fd_pool deps in
      case merge new_module (system_rpc client pool) of
        Inl e \<Rightarrow> Inl e
      | Inr module \<Rightarrow>
          (case merge module (transaction_payment_rpc client) of
             Inl e \<Rightarrow> Inl e
           | Inr module \<Rightarrow> Inr module))"

definition rpc_extensions_builder ::
  "('e \<Rightarrow> 'f) \<Rightarrow> (('client, 'pool) full_deps \<Rightarrow> 'e + 'm) \<Rightarrow> 'client \<Rightarrow> 'pool \<Rightarrow> 'arg \<Rightarrow> 'f + 'm" where
  "rpc_extensions_builder into full client pool = (\<lambda>_.
     let deps = \<lparr>fd_client = client, fd_pool = pool\<rparr> in
     case full deps of Inl e \<Rightarrow> Inl (into e) | Inr module \<Rightarrow> Inr module)"

section \<open>What a run has made\<close>

lemma run_plan_append:
  "run_plan world (ps @ qs) made =
     (case run_plan world ps made of (Service_Ok, made') \<Rightarrow> run_plan world qs made' | (f, made') \<Rightarrow> (f, made'))"
  by (induction world ps made rule: run_plan.induct) (auto split: option.splits)

lemma new_full_plan: "new_full world net config = run_plan world (new_partial_plan config @ rest_plan net config) []"
  unfolding new_full_def new_partial_def run_plan_append ..

lemma run_plan_Ok: "run_plan world ps made = (Service_Ok, made') \<Longrightarrow> made' = made @ map call_of ps"
  by (induction world ps made rule: run_plan.induct) (auto split: option.splits)

text \<open>
  How a run ends with the steps \<open>ds\<close> taken: they are a first part of the list, all of it on success; an
  error is the error of the last one, which is marked \<open>Try\<close>, a panic the failure of one marked \<open>Expect\<close>,
  and none before it has failed.
\<close>

definition checks :: "step \<Rightarrow> sdk_call \<Rightarrow> bool" where
  "checks p c \<longleftrightarrow> p = Try c \<or> p = Expect c"

definition ends_with :: "'e world \<Rightarrow> sdk_call list \<Rightarrow> step list \<Rightarrow> 'e service_outcome \<Rightarrow> step list \<Rightarrow> bool" where
  "ends_with world made ps r ds \<longleftrightarrow>
     prefix ds ps \<and> (r = Service_Ok \<longrightarrow> ds = ps) \<and>
     (\<forall>e. r = Service_Err e \<longrightarrow> (\<exists>es c. ds = es @ [Try c] \<and> world (made @ map call_of es) c = Some e)) \<and>
     (r = Panicked \<longrightarrow> (\<exists>es c. ds = es @ [Expect c] \<and> world (made @ map call_of es) c \<noteq> None)) \<and>
     (\<forall>es p c fs. ds = es @ p # fs \<longrightarrow> checks p c \<longrightarrow>
        world (made @ map call_of es) c = None \<or> fs = [] \<and> r \<noteq> Service_Ok)"

lemma ends_withD:
  assumes "ends_with world made ps r ds" and "ds = es @ p # fs" and "checks p c"
  shows "world (made @ map call_of es) c = None \<or> fs = [] \<and> r \<noteq> Service_Ok"
  using assms unfolding ends_with_def by blast

lemma ends_with_Cons:
  assumes "ends_with world (made @ [call_of p]) ps r ds" and "\<And>c. checks p c \<Longrightarrow> world made c = None"
  shows "ends_with world made (p # ps) r (p # ds)"
proof -
  note a = assms(1) [unfolded ends_with_def]
  have more: "\<exists>es c. p # ds = es @ [k c] \<and> P (world (made @ map call_of es) c)"
    if "\<exists>es c. ds = es @ [k c] \<and> P (world ((made @ [call_of p]) @ map call_of es) c)" for k P
  proof -
    from that obtain es c where "ds = es @ [k c]" "P (world ((made @ [call_of p]) @ map call_of es) c)" by blast
    then show ?thesis by (intro exI [of _ "p # es"] exI [of _ c]) simp
  qed
  have "world (made @ map call_of es) c = None \<or> fs = [] \<and> r \<noteq> Service_Ok" if "p # ds = es @ q # fs" "checks q c" for es q c fs
  proof (cases es)
    case Nil
    with that assms(2) show ?thesis by simp
  next
    case (Cons q' es')
    with that have "ds = es' @ q # fs" and es: "map call_of es = call_of p # map call_of es'" by auto
    with a that(2) have "world ((made @ [call_of p]) @ map call_of es') c = None \<or> fs = [] \<and> r \<noteq> Service_Ok" by blast
    then show ?thesis unfolding es by simp
  qed
  moreover have "\<exists>es c. p # ds = es @ [Try c] \<and> world (made @ map call_of es) c = Some e" if "r = Service_Err e" for e
    using a that more [of Try "\<lambda>x. x = Some e"] by blast
  moreover have "\<exists>es c. p # ds = es @ [Expect c] \<and> world (made @ map call_of es) c \<noteq> None" if "r = Panicked"
    using a that more [of Expect "\<lambda>x. x \<noteq> None"] by blast
  ultimately show ?thesis using a unfolding ends_with_def by simp
qed

lemma run_plan_ends:
  assumes "run_plan world ps made = (r, made')"
  shows "\<exists>ds. made' = made @ map call_of ds \<and> ends_with world made ps r ds"
  using assms
proof (induction world ps made rule: run_plan.induct)
  case (1 world made)
  then show ?case by (auto simp: ends_with_def)
next
  case (2 world c rest made)
  then obtain ds where "made' = (made @ [c]) @ map call_of ds" and "ends_with world (made @ [c]) rest r ds" by auto
  then show ?case using ends_with_Cons [of world made "Do c"] by (intro exI [of _ "Do c # ds"]) (simp add: checks_def)
next
  case (3 world c rest made)
  show ?case
  proof (cases "world made c")
    case None
    with 3 obtain ds where "made' = (made @ [c]) @ map call_of ds" and "ends_with world (made @ [c]) rest r ds" by auto
    with None show ?thesis using ends_with_Cons [of world made "Try c"] by (intro exI [of _ "Try c # ds"]) (simp add: checks_def)
  next
    case (Some e)
    with 3 show ?thesis by (intro exI [of _ "[Try c]"]) (auto simp: ends_with_def checks_def Cons_eq_append_conv)
  qed
next
  case (4 world c rest made)
  show ?case
  proof (cases "world made c")
    case None
    with 4 obtain ds where "made' = (made @ [c]) @ map call_of ds" and "ends_with world (made @ [c]) rest r ds" by auto
    with None show ?thesis using ends_with_Cons [of world made "Expect c"] by (intro exI [of _ "Expect c # ds"]) (simp add: checks_def)
  next
    case (Some e)
    with 4 show ?thesis by (intro exI [of _ "[Expect c]"]) (auto simp: ends_with_def checks_def Cons_eq_append_conv)
  qed
qed

end
