(* ===== verification/Node_Command.thy ===== *)
theory Node_Command
  imports Node_Service
begin

text \<open>
  The command line of the node (\<open>cli.rs\<close>, \<open>command.rs\<close>): the subcommands and how \<open>run\<close>
  routes them. The arguments of a subcommand, the runner and the bodies of the subcommands are code of
  the SDK: the record \<open>cli_env\<close> says which configuration the runner hands to the closure, or
  that it cannot be created, and how the body of a subcommand ends. \<open>run\<close> returns the result, the
  calls the service made, and the bodies it ran with what it passed to them.
\<close>

section \<open>The command line\<close>

datatype 'a subcommand = Key 'a | BuildSpec 'a | CheckBlock 'a | ExportBlocks 'a | ExportState 'a
  | ImportBlocks 'a | PurgeChain 'a | Revert 'a | ChainInfo 'a

record ('a, 'r) cli =
  cl_subcommand :: "'a subcommand option"
  cl_run :: 'r

record cli_info =
  impl_name :: string
  support_url :: string
  copyright_start_year :: int

definition cli_info :: cli_info where
  "cli_info = \<lparr>impl_name = ''Substrate Node'', support_url = ''support.anonymous.an'', copyright_start_year = 2017\<rparr>"

text \<open>What the closures pass to the body of a subcommand.\<close>

datatype argument = Arg_Chain_Spec | Arg_Network | Arg_Client | Arg_Import_Queue | Arg_Database | Arg_Backend
  | Arg_None | Arg_Config | Arg_Cli

datatype ('e, 's) cli_error = Cli_Error 'e | Service 's

datatype ('e, 's) run_result = Run_Ok | Run_Err "('e, 's) cli_error" | Run_Panicked

record ('a, 'r, 'e) cli_env =
  create_runner :: "'a subcommand + 'r \<Rightarrow> 'e + node_config"
  cmd_run :: "'a subcommand \<Rightarrow> argument list \<Rightarrow> 'e option"
  default_network_backend :: network_backend

type_synonym ('a, 'e, 's) run_log = "('e, 's) run_result \<times> sdk_call list \<times> ('a subcommand \<times> argument list) list"

section \<open>run\<close>

definition cmd_result :: "('a, 'r, 'e) cli_env \<Rightarrow> 'a subcommand \<Rightarrow> argument list \<Rightarrow> ('e, 's) run_result" where
  "cmd_result env cmd args = (case cmd_run env cmd args of None \<Rightarrow> Run_Ok | Some e \<Rightarrow> Run_Err (Cli_Error e))"

text \<open>\<open>runner.sync_run\<close> with a closure that only runs the subcommand.\<close>

definition sync_run :: "('a, 'r, 'e) cli_env \<Rightarrow> 'a subcommand \<Rightarrow> argument list \<Rightarrow> ('a, 'e, 's) run_log" where
  "sync_run env cmd args =
     (case create_runner env (Inl cmd) of
        Inl e \<Rightarrow> (Run_Err (Cli_Error e), [], [])
      | Inr config \<Rightarrow> (cmd_result env cmd args, [], [(cmd, args)]))"

text \<open>\<open>runner.async_run\<close> with a closure that first calls \<open>new_partial\<close>.\<close>

definition async_run ::
  "('a, 'r, 'e) cli_env \<Rightarrow> 's world \<Rightarrow> 'a subcommand \<Rightarrow> argument list \<Rightarrow> ('a, 'e, 's) run_log" where
  "async_run env world cmd args =
     (case create_runner env (Inl cmd) of
        Inl e \<Rightarrow> (Run_Err (Cli_Error e), [], [])
      | Inr config \<Rightarrow>
          (case new_partial world config of
             (Service_Ok, made) \<Rightarrow> (cmd_result env cmd args, made, [(cmd, args)])
           | (Service_Err e, made) \<Rightarrow> (Run_Err (Service e), made, [])
           | (Panicked, made) \<Rightarrow> (Run_Panicked, made, [])))"

definition unwrap_or :: "'b option \<Rightarrow> 'b \<Rightarrow> 'b" where
  "unwrap_or x d = (case x of None \<Rightarrow> d | Some y \<Rightarrow> y)"

text \<open>\<open>runner.run_node_until_exit\<close> with the full service, on the configured network backend.\<close>

definition run_node :: "('a, 'r, 'e) cli_env \<Rightarrow> 's world \<Rightarrow> 'r \<Rightarrow> ('a, 'e, 's) run_log" where
  "run_node env world cli_run =
     (case create_runner env (Inr cli_run) of
        Inl e \<Rightarrow> (Run_Err (Cli_Error e), [], [])
      | Inr config \<Rightarrow>
          (case new_full world (unwrap_or (nc_network_backend config) (default_network_backend env)) config of
             (Service_Ok, made) \<Rightarrow> (Run_Ok, made, [])
           | (Service_Err e, made) \<Rightarrow> (Run_Err (Service e), made, [])
           | (Panicked, made) \<Rightarrow> (Run_Panicked, made, [])))"

definition run :: "('a, 'r, 'e) cli_env \<Rightarrow> 's world \<Rightarrow> ('a, 'r) cli \<Rightarrow> ('a, 'e, 's) run_log" where
  "run env world cli =
     (case cl_subcommand cli of
        Some (Key cmd) \<Rightarrow> (cmd_result env (Key cmd) [Arg_Cli], [], [(Key cmd, [Arg_Cli])])
      | Some (BuildSpec cmd) \<Rightarrow> sync_run env (BuildSpec cmd) [Arg_Chain_Spec, Arg_Network]
      | Some (CheckBlock cmd) \<Rightarrow> async_run env world (CheckBlock cmd) [Arg_Client, Arg_Import_Queue]
      | Some (ExportBlocks cmd) \<Rightarrow> async_run env world (ExportBlocks cmd) [Arg_Client, Arg_Database]
      | Some (ExportState cmd) \<Rightarrow> async_run env world (ExportState cmd) [Arg_Client, Arg_Chain_Spec]
      | Some (ImportBlocks cmd) \<Rightarrow> async_run env world (ImportBlocks cmd) [Arg_Client, Arg_Import_Queue]
      | Some (PurgeChain cmd) \<Rightarrow> sync_run env (PurgeChain cmd) [Arg_Database]
      | Some (Revert cmd) \<Rightarrow> async_run env world (Revert cmd) [Arg_Client, Arg_Backend, Arg_None]
      | Some (ChainInfo cmd) \<Rightarrow> sync_run env (ChainInfo cmd) [Arg_Config]
      | None \<Rightarrow> run_node env world (cl_run cli))"

text \<open>The program: \<open>Cli::from_args\<close> reads the arguments of the process, before \<open>run\<close>'s match.\<close>

definition main :: "('args \<Rightarrow> ('a, 'r) cli) \<Rightarrow> ('a, 'r, 'e) cli_env \<Rightarrow> 's world \<Rightarrow> 'args \<Rightarrow> ('a, 'e, 's) run_log" where
  "main from_args env world args = run env world (from_args args)"

end
