(* ===== verification/Node_Properties.thy ===== *)
theory Node_Properties
  imports Node_Command
begin

text \<open>
  Properties of the node: which tasks a configuration starts and with which keys, that a failing call
  is the last one and its error the result, that authoring and import agree on consensus data,
  and which invocations of the command line start a node at all. In the witnesses the SDK succeeds, or
  fails at one call.
\<close>

section \<open>Tasks and roles\<close>

definition tasks_of :: "sdk_call list \<Rightarrow> task list" where
  "tasks_of made = List.map_filter (\<lambda>c. case c of Spawn t _ \<Rightarrow> Some t | _ \<Rightarrow> None) made"

lemma tasks_of_simps [simp]:
  "tasks_of [] = []"
  "tasks_of (c # cs) = (case c of Spawn t _ \<Rightarrow> t # tasks_of cs | _ \<Rightarrow> tasks_of cs)"
  "tasks_of (cs @ ds) = tasks_of cs @ tasks_of ds"
  by (simp_all add: tasks_of_def map_filter_def split: sdk_call.split)

lemmas plan_defs = new_partial_plan_def rest_plan_def network_plan_def offchain_plan_def authoring_plan_def
  grandpa_plan_def Let_def

lemma new_full_Ok:
  assumes "new_full world net config = (Service_Ok, made)"
  shows "made = map call_of (new_partial_plan config @ rest_plan net config)"
  using run_plan_Ok [OF assms [unfolded new_full_plan]] by simp

text \<open>
  C27: A node that starts runs exactly the tasks its configuration asks for: telemetry if there are
  endpoints, the offchain workers if they are enabled, block authoring if and only if it is an
  authority, and the GRANDPA voter unless that is disabled; authoring and voting are essential, so that the node
  stops with them. It authors with the configured \<open>force_authoring\<close>, and its voter gets the keystore,
  so that it can vote, if and only if it is an authority.
\<close>

theorem tasks_by_role:
  assumes "new_full world net config = (Service_Ok, made)"
  shows "map task_name (tasks_of made) =
      (if telemetry_endpoints config = None then [] else [''telemetry'']) @
      (if nc_offchain_worker_enabled config then [''offchain-workers-runner''] else []) @
      (if nc_is_authority config then [''aura''] else []) @
      (if nc_disable_grandpa config then [] else [''grandpa-voter'']) \<and>
    map task_name (filter task_essential (tasks_of made)) =
      (if nc_is_authority config then [''aura''] else []) @ (if nc_disable_grandpa config then [] else [''grandpa-voter'']) \<and>
    (\<forall>p. Start_Aura p \<in> set made \<longrightarrow> nc_is_authority config \<and> sa_force_authoring p = nc_force_authoring config) \<and>
    (\<forall>p. Run_Grandpa_Voter p \<in> set made \<longrightarrow> \<not> nc_disable_grandpa config \<and> \<not> gv_observer_enabled p \<and>
       gv_name p = Some (nc_node_name config) \<and> (gv_keystore p \<noteq> None \<longleftrightarrow> nc_is_authority config))"
  unfolding new_full_Ok [OF assms] plan_defs
  by (cases "telemetry_endpoints config"; cases "nc_offchain_worker_enabled config"; cases "nc_is_authority config";
      cases "nc_disable_grandpa config") simp_all

text \<open>The configuration of an authority without telemetry, and an SDK that never fails.\<close>

definition validator_config :: node_config where
  "validator_config = \<lparr>nc_telemetry_endpoints = Some [], nc_is_authority = True, nc_offchain_worker_enabled = True,
     nc_force_authoring = False, nc_disable_grandpa = False, nc_node_name = ''validator-1'', nc_network_backend = None\<rparr>"

abbreviation no_failure :: "string world" where "no_failure \<equiv> \<lambda>_ _. None"

lemma run_plan_no_failure: "run_plan no_failure ps made = (Service_Ok, made @ map call_of ps)"
  by (induction "no_failure" ps made rule: run_plan.induct) simp_all

lemma validator_starts:
  "new_full no_failure Libp2p validator_config =
     (Service_Ok, map call_of (new_partial_plan validator_config @ rest_plan Libp2p validator_config))"
  unfolding new_full_plan run_plan_no_failure by simp

theorem tasks_by_role_witness:
  "\<exists>made. new_full no_failure Libp2p validator_config = (Service_Ok, made) \<and>
     map task_name (tasks_of made) = [''offchain-workers-runner'', ''aura'', ''grandpa-voter'']"
proof -
  have "telemetry_endpoints validator_config = None" by (simp add: telemetry_endpoints_def validator_config_def)
  with tasks_by_role [OF validator_starts] validator_starts show ?thesis
    by (simp add: validator_config_def)
qed

section \<open>Failures\<close>

lemma prefix_past:
  assumes "prefix ds (xs @ y # ys)" and "z \<in> set ds" and "z \<notin> set xs"
  shows "y \<in> set ds"
proof -
  from assms(1) consider "prefix ds xs" | "prefix (xs @ [y]) ds"
    by (metis append.assoc append_Cons append_Nil prefix_append prefix_snoc same_prefix_prefix prefix_order.refl prefix_same_cases prefixI)
  then show ?thesis
    using assms(2,3) by cases (auto dest: set_mono_prefix)
qed

lemma full_plan_split:
  obtains xs ys where "new_partial_plan config @ rest_plan net config =
      xs @ Try (Build_Network Net_Config Client Transaction_Pool Import_Queue Warp_Sync Metrics) # ys"
    and "\<And>s t h. s \<in> set xs \<Longrightarrow> call_of s = Spawn t h \<Longrightarrow> \<not> task_essential t"
proof
  show "new_partial_plan config @ rest_plan net config = (new_partial_plan config @ butlast (network_plan net)) @
      Try (Build_Network Net_Config Client Transaction_Pool Import_Queue Warp_Sync Metrics) #
      (offchain_plan config @ [Try (Spawn_Tasks Network Client Keystore_Container Transaction_Pool Backend System_Rpc_Tx
        Tx_Handler_Controller Sync_Service (telemetry_handle config))] @ authoring_plan config @ grandpa_plan config)"
    by (simp add: rest_plan_def network_plan_def)
  show "\<not> task_essential t" if "s \<in> set (new_partial_plan config @ butlast (network_plan net))" "call_of s = Spawn t h" for s t h
    using that by (auto simp: new_partial_plan_def network_plan_def split: option.splits)
qed

text \<open>
  The calls of the SDK that can fail: the ones that return a \<open>Result\<close>, with an \<open>Option\<close> in it for the hash
  of the genesis block.
\<close>

fun fallible :: "sdk_call \<Rightarrow> bool" where
  "fallible (TelemetryWorker_new _) \<longleftrightarrow> True"
| "fallible (New_Full_Parts _ _) \<longleftrightarrow> True"
| "fallible (Grandpa_block_import _ _ _ _) \<longleftrightarrow> True"
| "fallible (Aura_import_queue _) \<longleftrightarrow> True"
| "fallible (Block_hash _ _) \<longleftrightarrow> True"
| "fallible (Build_Network _ _ _ _ _ _) \<longleftrightarrow> True"
| "fallible (OffchainWorkers_new _ _ _ _ _ _ _) \<longleftrightarrow> True"
| "fallible (Spawn_Tasks _ _ _ _ _ _ _ _ _) \<longleftrightarrow> True"
| "fallible (Aura_slot_duration _) \<longleftrightarrow> True"
| "fallible (Start_Aura _) \<longleftrightarrow> True"
| "fallible (Run_Grandpa_Voter _) \<longleftrightarrow> True"
| "fallible _ \<longleftrightarrow> False"

text \<open>What the \<open>i\<close>-th call that was made failed with.\<close>

definition failure :: "'e world \<Rightarrow> sdk_call list \<Rightarrow> nat \<Rightarrow> 'e option" where
  "failure world made i = (if fallible (made ! i) then world (take i made) (made ! i) else None)"

fun well_marked :: "step \<Rightarrow> bool" where
  "well_marked (Do c) \<longleftrightarrow> \<not> fallible c"
| "well_marked (Try c) \<longleftrightarrow> fallible c \<and> c \<noteq> Block_hash Client 0"
| "well_marked (Expect c) \<longleftrightarrow> c = Block_hash Client 0"

lemma plan_well_marked: "list_all well_marked (new_partial_plan config @ rest_plan net config)"
  unfolding plan_defs
  by (cases "telemetry_endpoints config"; cases "nc_offchain_worker_enabled config"; cases "nc_is_authority config";
      cases "nc_disable_grandpa config") simp_all

lemma plan_checks:
  assumes "p \<in> set (new_partial_plan config @ rest_plan net config)"
  shows "fallible (call_of p) \<Longrightarrow> checks p (call_of p)" and "checks p c \<Longrightarrow> fallible c \<and> call_of p = c"
    and "p = Expect c \<Longrightarrow> c = Block_hash Client 0" and "p = Try c \<Longrightarrow> c \<noteq> Block_hash Client 0"
proof -
  from assms plan_well_marked have "well_marked p" unfolding list_all_iff by blast
  then show "fallible (call_of p) \<Longrightarrow> checks p (call_of p)" and "checks p c \<Longrightarrow> fallible c \<and> call_of p = c"
    and "p = Expect c \<Longrightarrow> c = Block_hash Client 0" and "p = Try c \<Longrightarrow> c \<noteq> Block_hash Client 0"
    by (cases p; auto simp: checks_def)+
qed

text \<open>
  C29: The first failing call ends the start. The calls made are a first part of the node's calls. No call
  before the last one has failed; the start returns a node exactly if the last one has not failed either, and then
  all calls have been made; it returns an error exactly if the last call failed with this error and is not
  the lookup of the genesis block; and it panics exactly if the genesis block cannot be found. So a
  node whose network could not be built has started neither authoring nor voting.
\<close>

theorem first_failure_ends_start:
  assumes "new_full world net config = (r, made)"
  shows "prefix made (map call_of (new_partial_plan config @ rest_plan net config)) \<and> made \<noteq> [] \<and>
    (\<forall>i. Suc i < length made \<longrightarrow> failure world made i = None) \<and>
    (r = Service_Ok \<longleftrightarrow> failure world made (length made - 1) = None) \<and>
    (r = Service_Ok \<longrightarrow> made = map call_of (new_partial_plan config @ rest_plan net config)) \<and>
    (\<forall>e. r = Service_Err e \<longleftrightarrow> failure world made (length made - 1) = Some e \<and> last made \<noteq> Block_hash Client 0) \<and>
    (r = Panicked \<longleftrightarrow> failure world made (length made - 1) \<noteq> None \<and> last made = Block_hash Client 0) \<and>
    (\<forall>t h. Spawn t h \<in> set made \<and> task_essential t \<longrightarrow>
       (\<exists>c\<in>set made. c = Build_Network Net_Config Client Transaction_Pool Import_Queue Warp_Sync Metrics))"
proof -
  let ?plan = "new_partial_plan config @ rest_plan net config" and ?last = "length made - 1"
    and ?net = "Build_Network Net_Config Client Transaction_Pool Import_Queue Warp_Sync Metrics"
  obtain ds where ds: "made = map call_of ds" and ends: "ends_with world [] ?plan r ds"
    using run_plan_ends [OF assms [unfolded new_full_plan]] by auto
  then have pre: "prefix ds ?plan" and all: "r = Service_Ok \<longrightarrow> ds = ?plan" by (simp_all add: ends_with_def)
  have ne: "made \<noteq> []" using ends unfolding ds
    by (cases r) (auto simp: ends_with_def new_partial_plan_def)
  have sub: "p \<in> set ?plan" if "p \<in> set ds" for p using that pre set_mono_prefix by blast
  have quiet: "failure world made i = None" if i: "i < length made" "Suc i < length made \<or> r = Service_Ok" for i
  proof (cases "fallible (made ! i)")
    case True
    from i(1) have split: "ds = take i ds @ ds ! i # drop (Suc i) ds" by (simp add: ds id_take_nth_drop)
    from i(1) True have "checks (ds ! i) (made ! i)" using plan_checks(1) [OF sub, of "ds ! i"] by (simp add: ds)
    from ends_withD [OF ends split this] i show ?thesis by (auto simp: failure_def ds take_map)
  qed (simp add: failure_def)
  have last: "failure world made ?last = world (map call_of es) c \<and> last made = c" if "ds = es @ [p]" "checks p c" for es p c
    using plan_checks(2) [OF sub, of p c] that by (simp add: failure_def ds nth_append)
  have err: "failure world made ?last = Some e \<and> last made \<noteq> Block_hash Client 0" if "r = Service_Err e" for e
  proof -
    from ends that obtain es c where es: "ds = es @ [Try c]" "world (map call_of es) c = Some e"
      by (auto simp: ends_with_def)
    with last [of es "Try c" c] plan_checks(4) [OF sub, of "Try c" c] show ?thesis by (simp add: checks_def)
  qed
  have panic: "failure world made ?last \<noteq> None \<and> last made = Block_hash Client 0" if "r = Panicked"
  proof -
    from ends that obtain es c where es: "ds = es @ [Expect c]" "world (map call_of es) c \<noteq> None"
      by (auto simp: ends_with_def)
    with last [of es "Expect c" c] plan_checks(3) [OF sub, of "Expect c" c] show ?thesis by (simp add: checks_def)
  qed
  have ok: "failure world made ?last = None" if "r = Service_Ok" using quiet that ne by simp
  have "?net \<in> set made" if sp: "Spawn t h \<in> set made" "task_essential t" for t h
  proof -
    obtain xs ys where plan: "?plan = xs @ Try ?net # ys"
      and quiet: "\<And>s t h. s \<in> set xs \<Longrightarrow> call_of s = Spawn t h \<Longrightarrow> \<not> task_essential t"
      by (rule full_plan_split [of config net]) blast
    from sp(1) obtain s where "s \<in> set ds" and "call_of s = Spawn t h" unfolding ds set_map by (metis imageE)
    moreover from this(2) quiet sp(2) have "s \<notin> set xs" by blast
    moreover note pre
    ultimately have "Try ?net \<in> set ds" using prefix_past [of ds xs] plan by metis
    then show ?thesis unfolding ds by force
  qed
  moreover have "prefix made (map call_of ?plan)" using pre unfolding ds by (rule map_mono_prefix)
  moreover have "made = map call_of ?plan" if "r = Service_Ok" using all that by (simp add: ds)
  moreover have "(r = Service_Ok \<longleftrightarrow> failure world made ?last = None) \<and>
    (\<forall>e. r = Service_Err e \<longleftrightarrow> failure world made ?last = Some e \<and> last made \<noteq> Block_hash Client 0) \<and>
    (r = Panicked \<longleftrightarrow> failure world made ?last \<noteq> None \<and> last made = Block_hash Client 0)"
  proof (cases r)
    case Service_Ok
    with ok show ?thesis by simp
  next
    case (Service_Err e)
    with err show ?thesis by auto
  next
    case Panicked
    with panic show ?thesis by auto
  qed
  moreover have "\<forall>i. Suc i < length made \<longrightarrow> failure world made i = None" using quiet by simp
  ultimately show ?thesis using ne by (elim conjE, intro conjI) blast+
qed

text \<open>An SDK in which building the network fails.\<close>

definition no_network :: "string world" where
  "no_network made c = (case c of Build_Network _ _ _ _ _ _ \<Rightarrow> Some ''network'' | _ \<Rightarrow> None)"

lemma run_plan_succeeds:
  "(\<And>made c. c \<in> set (map call_of ps) \<Longrightarrow> world made c = None) \<Longrightarrow> run_plan world ps made = (Service_Ok, made @ map call_of ps)"
  by (induction world ps made rule: run_plan.induct) simp_all

lemma no_network_run:
  "new_full no_network Libp2p validator_config =
     (Service_Err ''network'', map call_of (new_partial_plan validator_config @ network_plan Libp2p))"
proof -
  let ?ps = "new_partial_plan validator_config @ butlast (network_plan Libp2p)"
  have "no_network made c = None" if "c \<in> set (map call_of ?ps)" for made c
    using that by (auto simp: new_partial_plan_def network_plan_def no_network_def split: option.splits)
  then have ok: "run_plan no_network ?ps [] = (Service_Ok, map call_of ?ps)"
    using run_plan_succeeds [of ?ps no_network "[]"] by simp
  have plan: "new_partial_plan validator_config @ rest_plan Libp2p validator_config =
      ?ps @ (last (network_plan Libp2p) # drop 9 (rest_plan Libp2p validator_config))"
    by (simp add: rest_plan_def network_plan_def)
  show ?thesis unfolding new_full_plan plan run_plan_append [of no_network ?ps] ok
    by (simp add: network_plan_def no_network_def)
qed

theorem first_failure_ends_start_witness:
  "\<exists>made. new_full no_network Libp2p validator_config = (Service_Err ''network'', made) \<and>
     failure no_network made (length made - 1) = Some ''network'' \<and> (\<forall>i. Suc i < length made \<longrightarrow> failure no_network made i = None)"
proof -
  note ends = first_failure_ends_start [OF no_network_run, THEN conjunct2, THEN conjunct2]
  from ends [THEN conjunct1] ends [THEN conjunct2, THEN conjunct2, THEN conjunct2, THEN conjunct1, THEN spec, of "''network''"]
  show ?thesis by (intro exI [of _ "map call_of (new_partial_plan validator_config @ network_plan Libp2p)"] conjI no_network_run) simp_all
qed

section \<open>Consensus data\<close>

text \<open>
  C23: Authoring, importing and finalising rest on the same data. On a node that has started, the block
  import and the voter have the same justification period, and the import queue and block authoring
  go through the same GRANDPA block import. And where the runtime at the parent block reports the slot
  duration of this runtime, the inherent data with which the node checks a block are the ones with which it
  would author it: the timestamp, and its slot of 6000 milliseconds; if the runtime cannot be asked, the import fails.
\<close>

theorem consensus_data_agree:
  assumes "new_full world net config = (Service_Ok, made)" and "doubles minimum_period_times_two"
    and "slot_duration_at parent = Inr (AuraApi_slot_duration minimum_period_times_two)"
  shows "(\<forall>a b d p q. Grandpa_block_import a p b d \<in> set made \<and> Run_Grandpa_Voter q \<in> set made \<longrightarrow>
      gv_justification_generation_period q = p) \<and>
    (\<forall>q p. Aura_import_queue q \<in> set made \<and> Start_Aura p \<in> set made \<longrightarrow>
      iq_block_import q = sa_block_import p \<and> iq_justification_import q = Some (sa_block_import p)) \<and>
    import_inherents slot_duration_at slot_of parent timestamp =
      authoring_inherents (AuraApi_slot_duration minimum_period_times_two) slot_of timestamp \<and>
    import_inherents slot_duration_at slot_of parent timestamp = Inr (slot_of timestamp 6000, timestamp) \<and>
    (\<forall>e. slot_duration_at h = Inl e \<longrightarrow> import_inherents slot_duration_at slot_of h timestamp = Inl e)"
proof -
  have "unat (AuraApi_slot_duration minimum_period_times_two) = unat (6000 :: u64)"
    using assms(2) by (simp add: AuraApi_slot_duration_def aura_config_def doubles_def timestamp_config_def
        SLOT_DURATION_def MILLI_SECS_PER_BLOCK_def)
  then have slot: "AuraApi_slot_duration minimum_period_times_two = 6000" by (simp only: word_unat_eq_iff)
  have "gv_justification_generation_period q = p"
    if "Grandpa_block_import a p b d \<in> set made" "Run_Grandpa_Voter q \<in> set made" for a b d p q
    using that unfolding new_full_Ok [OF assms(1)] by (auto simp: plan_defs split: option.splits if_splits)
  moreover have "iq_block_import q = sa_block_import p \<and> iq_justification_import q = Some (sa_block_import p)"
    if "Aura_import_queue q \<in> set made" "Start_Aura p \<in> set made" for p q
    using that unfolding new_full_Ok [OF assms(1)] by (auto simp: plan_defs split: option.splits if_splits)
  moreover have "import_inherents slot_duration_at slot_of parent timestamp =
      authoring_inherents (AuraApi_slot_duration minimum_period_times_two) slot_of timestamp"
    and "import_inherents slot_duration_at slot_of parent timestamp = Inr (slot_of timestamp 6000, timestamp)"
    and "\<forall>e. slot_duration_at h = Inl e \<longrightarrow> import_inherents slot_duration_at slot_of h timestamp = Inl e"
    using assms(3) by (simp_all add: import_inherents_def authoring_inherents_def slot)
  ultimately show ?thesis by blast
qed

theorem consensus_data_agree_witness:
  "import_inherents (\<lambda>_ :: unit. Inr (AuraApi_slot_duration (\<lambda>p. 2 * p)) :: string + u64) (\<lambda>t d. t div d) () 60000 =
     Inr (60000 div 6000, 60000)"
proof -
  have "doubles (\<lambda>p. 2 * p)"
    unfolding doubles_def by (auto simp: unat_mult_lem [THEN iffD1])
  from consensus_data_agree [OF validator_starts this,
      where slot_duration_at = "\<lambda>_ :: unit. Inr (AuraApi_slot_duration (\<lambda>p. 2 * p)) :: string + u64" and parent = "()"
        and slot_of = "\<lambda>t d. t div d" and timestamp = 60000 and h = "()"]
  show ?thesis by blast
qed

section \<open>The command line\<close>

text \<open>Joining the network, authoring and voting, and the essential tasks.\<close>

fun joins :: "sdk_call \<Rightarrow> bool" where
  "joins (Build_Network _ _ _ _ _ _) \<longleftrightarrow> True"
| "joins (Start_Aura _) \<longleftrightarrow> True"
| "joins (Run_Grandpa_Voter _) \<longleftrightarrow> True"
| "joins (Spawn t _) \<longleftrightarrow> task_essential t"
| "joins _ \<longleftrightarrow> False"

lemma new_partial_stays_out:
  assumes "new_partial world config = (r, made)" and "c \<in> set made"
  shows "\<not> joins c"
proof -
  obtain ds where "made = map call_of ds" and "prefix ds (new_partial_plan config)"
    using run_plan_ends [OF assms(1) [unfolded new_partial_def]] by (auto simp: ends_with_def)
  with assms(2) obtain s where "s \<in> set (new_partial_plan config)" and "c = call_of s"
    using set_mono_prefix by fastforce
  then show ?thesis by (auto simp: new_partial_plan_def split: option.splits)
qed

text \<open>
  When the body of a subcommand can run: \<open>Key\<close> needs nothing, some need a configuration from the runner, the
  others also the parts of the chain that \<open>new_partial\<close> opens with it.
\<close>

fun opens_chain :: "'a subcommand \<Rightarrow> bool" where
  "opens_chain (Key _) \<longleftrightarrow> False"
| "opens_chain (BuildSpec _) \<longleftrightarrow> False"
| "opens_chain (PurgeChain _) \<longleftrightarrow> False"
| "opens_chain (ChainInfo _) \<longleftrightarrow> False"
| "opens_chain _ \<longleftrightarrow> True"

definition can_run :: "('a, 'r, 'e) cli_env \<Rightarrow> 's world \<Rightarrow> 'a subcommand \<Rightarrow> bool" where
  "can_run env world cmd \<longleftrightarrow> (\<exists>x. cmd = Key x) \<or>
     (\<exists>config. create_runner env (Inl cmd) = Inr config \<and> (opens_chain cmd \<longrightarrow> fst (new_partial world config) = Service_Ok))"

definition body_ran ::
  "('a, 'r, 'e) cli_env \<Rightarrow> 'a subcommand \<Rightarrow> argument list \<Rightarrow> ('a, 'e, 's) run_log \<Rightarrow> bool" where
  "body_ran env cmd args log \<longleftrightarrow> snd (snd log) = [(cmd, args)] \<and>
     fst log = (case cmd_run env cmd args of None \<Rightarrow> Run_Ok | Some e \<Rightarrow> Run_Err (Cli_Error e))"

lemma async_run_ends:
  assumes "async_run env world cmd args = (r, made, bodies)" and "opens_chain cmd"
  shows "(\<forall>c\<in>set made. \<not> joins c) \<and>
    (if can_run env world cmd then body_ran env cmd args (r, made, bodies) else bodies = [] \<and> r \<noteq> Run_Ok)"
  using assms unfolding async_run_def body_ran_def can_run_def
  by (auto split: sum.splits prod.splits service_outcome.splits if_splits dest: new_partial_stays_out
      simp: cmd_result_def)

lemma sync_run_ends:
  assumes "sync_run env cmd args = (r, made, bodies)" and "\<not> opens_chain cmd" and "\<And>x. cmd \<noteq> Key x"
  shows "made = [] \<and> (if can_run env world cmd then body_ran env cmd args (r, made, bodies) else bodies = [] \<and> r \<noteq> Run_Ok)"
  using assms unfolding sync_run_def body_ran_def can_run_def
  by (auto split: sum.splits if_splits simp: cmd_result_def)

text \<open>
  C28: Only an invocation without a subcommand starts a node. With a subcommand, whatever it is and
  whether it fails or not, the program does not join the network and starts neither authoring nor voting. It
  runs the body of that subcommand once, and of no other, exactly when what the body needs could be opened (a
  configuration, and the parts of the chain for the subcommands that work on it), and then the result is the body's;
  otherwise the program fails without running it; and the body is handed the client exactly if its subcommand
  opens the chain. Without a subcommand it runs no body and
  succeeds exactly when the full service starts, on the configured network backend or else the default one.
\<close>

theorem only_plain_run_joins:
  fixes env :: "('a, 'b, 'e) cli_env" and world :: "'s world"
  assumes "run env world cli = (r, made, bodies)"
  shows "(\<forall>cmd. cl_subcommand cli = Some cmd \<longrightarrow>
      (\<forall>c\<in>set made. \<not> joins c) \<and>
      (if can_run env world cmd
       then \<exists>args. bodies = [(cmd, args)] \<and> (Arg_Client \<in> set args \<longleftrightarrow> opens_chain cmd) \<and>
         r = (case cmd_run env cmd args of None \<Rightarrow> Run_Ok | Some e \<Rightarrow> Run_Err (Cli_Error e))
       else bodies = [] \<and> r \<noteq> Run_Ok)) \<and>
    (cl_subcommand cli = None \<longrightarrow> bodies = [] \<and>
      (r = Run_Ok \<longleftrightarrow> (\<exists>config. create_runner env (Inr (cl_run cli)) = Inr config \<and>
         new_full world (case nc_network_backend config of None \<Rightarrow> default_network_backend env | Some net \<Rightarrow> net) config =
           (Service_Ok, made))))"
proof (cases "cl_subcommand cli")
  case None
  with assms show ?thesis
    by (auto simp: run_def run_node_def unwrap_or_def split: sum.splits prod.splits service_outcome.splits option.splits)
next
  case (Some cmd)
  let ?done = "\<lambda>args. (\<forall>c\<in>set made. \<not> joins c) \<and>
    (if can_run env world cmd then body_ran env cmd args (r, made, bodies) else bodies = [] \<and> r \<noteq> Run_Ok)"
  have "\<exists>args. ?done args \<and> (Arg_Client \<in> set args \<longleftrightarrow> opens_chain cmd)"
  proof (cases cmd)
    case (Key x)
    with Some assms show ?thesis
      by (intro exI [of _ "[Arg_Cli]"]) (auto simp: run_def cmd_result_def can_run_def body_ran_def)
  next
    case (BuildSpec x)
    with Some assms sync_run_ends [where env = env and cmd = cmd and args = "[Arg_Chain_Spec, Arg_Network]" and world = world and r = r and made = made and bodies = bodies] show ?thesis
      by (intro exI [of _ "[Arg_Chain_Spec, Arg_Network]"]) (auto simp: run_def split: if_splits)
  next
    case (PurgeChain x)
    with Some assms sync_run_ends [where env = env and cmd = cmd and args = "[Arg_Database]" and world = world and r = r and made = made and bodies = bodies] show ?thesis
      by (intro exI [of _ "[Arg_Database]"]) (auto simp: run_def split: if_splits)
  next
    case (ChainInfo x)
    with Some assms sync_run_ends [where env = env and cmd = cmd and args = "[Arg_Config]" and world = world and r = r and made = made and bodies = bodies] show ?thesis
      by (intro exI [of _ "[Arg_Config]"]) (auto simp: run_def split: if_splits)
  next
    case (CheckBlock x)
    with Some assms async_run_ends [of env world cmd "[Arg_Client, Arg_Import_Queue]" r made bodies] show ?thesis
      by (intro exI [of _ "[Arg_Client, Arg_Import_Queue]"]) (auto simp: run_def split: if_splits)
  next
    case (ExportBlocks x)
    with Some assms async_run_ends [of env world cmd "[Arg_Client, Arg_Database]" r made bodies] show ?thesis
      by (intro exI [of _ "[Arg_Client, Arg_Database]"]) (auto simp: run_def split: if_splits)
  next
    case (ExportState x)
    with Some assms async_run_ends [of env world cmd "[Arg_Client, Arg_Chain_Spec]" r made bodies] show ?thesis
      by (intro exI [of _ "[Arg_Client, Arg_Chain_Spec]"]) (auto simp: run_def split: if_splits)
  next
    case (ImportBlocks x)
    with Some assms async_run_ends [of env world cmd "[Arg_Client, Arg_Import_Queue]" r made bodies] show ?thesis
      by (intro exI [of _ "[Arg_Client, Arg_Import_Queue]"]) (auto simp: run_def split: if_splits)
  next
    case (Revert x)
    with Some assms async_run_ends [of env world cmd "[Arg_Client, Arg_Backend, Arg_None]" r made bodies] show ?thesis
      by (intro exI [of _ "[Arg_Client, Arg_Backend, Arg_None]"]) (auto simp: run_def split: if_splits)
  qed
  then obtain args where "?done args" and "Arg_Client \<in> set args \<longleftrightarrow> opens_chain cmd" by blast
  with Some show ?thesis by (simp add: body_ran_def split: if_splits)
qed

theorem only_plain_run_joins_witness:
  "\<exists>made. run \<lparr>create_runner = (\<lambda>_. Inr validator_config), cmd_run = (\<lambda>_ _. None), default_network_backend = Libp2p\<rparr>
       no_failure \<lparr>cl_subcommand = Some (Revert ()), cl_run = ()\<rparr> =
     (Run_Ok :: (string, string) run_result, made, [(Revert (), [Arg_Client, Arg_Backend, Arg_None])]) \<and> (\<forall>c\<in>set made. \<not> joins c)"
proof -
  let ?env = "\<lparr>create_runner = (\<lambda>_. Inr validator_config :: string + node_config), cmd_run = (\<lambda>_ _. None), default_network_backend = Libp2p\<rparr>"
    and ?cli = "\<lparr>cl_subcommand = Some (Revert ()), cl_run = ()\<rparr>"
  have "new_partial no_failure validator_config = (Service_Ok, map call_of (new_partial_plan validator_config))"
    by (simp add: new_partial_def run_plan_no_failure)
  then have run: "run ?env no_failure ?cli = (Run_Ok, map call_of (new_partial_plan validator_config),
      [(Revert (), [Arg_Client, Arg_Backend, Arg_None])])"
    by (simp add: run_def async_run_def cmd_result_def)
  from only_plain_run_joins [OF run] run show ?thesis by simp
qed

section \<open>RPC\<close>

text \<open>
  jsonrpsee merges two modules if they have no method in common, and reports an error otherwise. With
  that the node serves exactly the methods of the two handlers, or fails when they clash.
\<close>

definition merge_laws :: "((string \<rightharpoonup> 'h) \<Rightarrow> (string \<rightharpoonup> 'h) \<Rightarrow> 'e + (string \<rightharpoonup> 'h)) \<Rightarrow> bool" where
  "merge_laws merge \<longleftrightarrow> (\<forall>m n. if dom m \<inter> dom n = {} then merge m n = Inr (m ++ n) else \<exists>e. merge m n = Inl e)"

text \<open>
  C30: The node serves the methods of its two RPC handlers, and no others. For every call of the builder the
  module is the same; it answers each method with the system handler made from the client and the pool or the payment
  handler made from the same client; and if the two handlers had a method in common, the node would get
  an error instead of a module in which one hides the other.
\<close>

theorem node_serves_rpc:
  fixes system_rpc :: "'client \<Rightarrow> 'pool \<Rightarrow> string \<rightharpoonup> 'h" and payment_rpc :: "'client \<Rightarrow> string \<rightharpoonup> 'h"
    and client :: 'client and pool :: 'pool and into :: "'e \<Rightarrow> 'f"
  assumes "merge_laws merge"
  defines "build \<equiv> rpc_extensions_builder into (create_full merge Map.empty system_rpc payment_rpc) client pool"
  shows "if \<exists>name. system_rpc client pool name \<noteq> None \<and> payment_rpc client name \<noteq> None
    then \<exists>e. \<forall>arg. build arg = Inl (into e)
    else \<exists>module. (\<forall>arg. build arg = Inr module) \<and>
      (\<forall>name h. module name = Some h \<longleftrightarrow> system_rpc client pool name = Some h \<or> payment_rpc client name = Some h)"
proof -
  let ?sys = "system_rpc client pool" and ?pay = "payment_rpc client"
  have "merge Map.empty ?sys = Inr ?sys"
    using assms(1) [unfolded merge_laws_def, rule_format, of Map.empty ?sys] by simp
  then have build: "build arg = (case merge ?sys ?pay of Inl e \<Rightarrow> Inl (into e) | Inr module \<Rightarrow> Inr module)" for arg
    by (simp add: build_def rpc_extensions_builder_def create_full_def split: sum.splits)
  note law = assms(1) [unfolded merge_laws_def, rule_format, of ?sys ?pay]
  show ?thesis
  proof (cases "dom ?sys \<inter> dom ?pay = {}")
    case True
    with law have "merge ?sys ?pay = Inr (?sys ++ ?pay)" by simp
    moreover have "(?sys ++ ?pay) name = Some h \<longleftrightarrow> ?sys name = Some h \<or> ?pay name = Some h" for name h
      using True by (cases "?pay name") (auto simp: map_add_def dom_def)
    moreover have "\<not> (\<exists>name. ?sys name \<noteq> None \<and> ?pay name \<noteq> None)" using True by (auto simp: dom_def)
    ultimately show ?thesis by (simp add: build)
  next
    case False
    with law obtain e where "merge ?sys ?pay = Inl e" by auto
    then have "\<exists>e. \<forall>arg. build arg = Inl (into e)" by (auto simp: build)
    moreover have "\<exists>name. ?sys name \<noteq> None \<and> ?pay name \<noteq> None" using False by (auto simp: dom_def)
    ultimately show ?thesis by simp
  qed
qed

text \<open>Merging as the documentation has it, and two handlers with a method each.\<close>

definition plain_merge :: "(string \<rightharpoonup> 'h) \<Rightarrow> (string \<rightharpoonup> 'h) \<Rightarrow> string + (string \<rightharpoonup> 'h)" where
  "plain_merge m n = (if dom m \<inter> dom n = {} then Inr (m ++ n) else Inl ''MethodAlreadyRegistered'')"

theorem node_serves_rpc_witness:
  "\<exists>module. rpc_extensions_builder length (create_full plain_merge Map.empty (\<lambda>c p. [''system_accountNextIndex'' \<mapsto> c + p])
      (\<lambda>c. [''payment_queryInfo'' \<mapsto> c])) (1 :: nat) 2 () = Inr module \<and> module ''system_accountNextIndex'' = Some 3"
proof -
  let ?sys = "\<lambda>c p. [''system_accountNextIndex'' \<mapsto> c + p] :: string \<rightharpoonup> nat"
    and ?pay = "\<lambda>c. [''payment_queryInfo'' \<mapsto> c] :: string \<rightharpoonup> nat"
  have laws: "merge_laws plain_merge" by (simp add: merge_laws_def plain_merge_def)
  have apart: "\<not> (\<exists>name. ?sys 1 2 name \<noteq> None \<and> ?pay 1 name \<noteq> None)" by simp
  from node_serves_rpc [where into = length and client = "1 :: nat" and pool = "2 :: nat" and system_rpc = ?sys
      and payment_rpc = ?pay, OF laws, unfolded if_not_P [OF apart]]
  obtain module where m: "\<And>arg :: unit. rpc_extensions_builder length (create_full plain_merge Map.empty ?sys ?pay) 1 2 arg = Inr module"
    and "\<And>name h. module name = Some h \<longleftrightarrow> ?sys 1 2 name = Some h \<or> ?pay 1 name = Some h" by blast
  from this(2) [of "''system_accountNextIndex''" 3] have "module ''system_accountNextIndex'' = Some 3" by simp
  with m show ?thesis by blast
qed

end
