(* ===== verification/Spec2Isabelle.thy ===== *)
theory Spec2Isabelle
  imports Kilt_Properties AI_Properties Faucet_Properties Loop_Cost Storage_Types Visible_Errors Onboarding Chain_History Block_Execution
    Chain_Properties Build_Scripts Node_Properties
begin

text \<open>
  A verification library for QX Chain, a Substrate chain on which credentialed workers answer
  inference requests.

  The program. \<open>pallets/pallet-qx-kilt-permissions\<close> keeps the workers' DIDs and credentials and says
  who may work; \<open>pallets/pallet-qx-ai\<close> keeps the requests, the workers' queues and the results, and
  asks the former through the trait \<open>KiltPermissions\<close>; \<open>pallets/pallet-qx-faucet\<close> gives free tokens
  to new accounts by unsigned transactions; \<open>runtime/src/lib.rs\<close> configures the pallets, implements
  the trait and dispatches the calls; \<open>node/src/chain_spec\<close> builds the genesis of the networks;
  \<open>node/src/service.rs\<close> assembles a node from the SDK, with the methods of \<open>rpc.rs\<close>, and
  \<open>node/src/command.rs\<close> runs it or a subcommand.

  The theories.
  \<^item> \<open>QX_Prelude\<close>: machine integers, bounded vectors, the storage layer, sequences of calls, and the
    contracts \<open>guarded_calls\<close> and \<open>counted_calls\<close> that turn "each successful call keeps the invariant"
    into "every sequence of calls does".
  \<^item> \<open>Frame_Interface\<close>: what the pallets see of FRAME (origins, currency, storage iteration, dispatch
    information), as parameters with named hypotheses, and instances that satisfy them.
  \<^item> \<open>Kilt_Permissions\<close>, \<open>Kilt_Properties\<close>: the first pallet; record \<open>kilt\<close> for its storage, one
    definition per dispatchable and helper, invariant \<open>kilt_inv\<close>.
  \<^item> \<open>QX_AI\<close>, \<open>AI_Market\<close>, \<open>AI_Properties\<close>: the second pallet; record \<open>ai\<close>, invariant \<open>ai_inv\<close>; the
    abstract market of jobs it refines, and the locale \<open>credential_oracle\<close>, its interface to the first.
  \<^item> \<open>QX_Faucet\<close>, \<open>Faucet_Run\<close>, \<open>Faucet_Properties\<close>: the third pallet; record \<open>faucet\<close> beside the ledger,
    invariant \<open>faucet_inv\<close>, its runs over time \<open>faucet_run\<close> and the books of the pot.
  \<^item> \<open>Runtime\<close>, \<open>Runtime_Properties\<close>, \<open>Onboarding\<close>: constants, configurations, the joint storage
    \<open>runtime\<close>, \<open>rt_dispatch\<close>, the interpretation of the locales on it, and properties across pallets.
  \<^item> \<open>Loop_Cost\<close>: how much of \<open>WorkerDIDs\<close> the calls that loop over it have to read (\<open>undecided_after\<close>: their
    outcome is still open after so many entries), beside the weight the calls declare.
  \<^item> \<open>Storage_Types\<close>: the bounds of the structs, the storage items and the calls' arguments as typing
    predicates, and their soundness.
  \<^item> \<open>Chain_Run\<close>, \<open>Chain_Run_Properties\<close>: the chain over time as the relation \<open>chain_run\<close> between the
    trace of the extrinsics, the block and the storage; \<open>acquired_last\<close> traces what is stored back to the
    extrinsic that last brought it about, and what holds since, and \<open>chain_run_faucet\<close> projects a run of the chain to a run of the faucet.
    The genesis block has no extrinsics.
  \<^item> \<open>Visible_Errors\<close>: the errors that the callers of each pallet can see on runs of the chain, with a run for each.
  \<^item> \<open>Event_Replay\<close>: the views \<open>kilt_view\<close> and \<open>ai_view\<close> that an observer folds over the pallets' events, and that
    they are the storage.
  \<^item> \<open>Chain_History\<close>: the lists \<open>requests_of\<close> and \<open>answers_of\<close> of a trace, and that the AI pallet's storage is these
    lists (\<open>books\<close>); the extrinsics behind a stored answer; the history of a worker's status along a run.
  \<^item> \<open>Runtime_Config\<close>: the version, the configurations of the FRAME pallets, the pallets' indices, the
    transaction extensions, and the runtime APIs that have a body of their own.
  \<^item> \<open>Runtime_API\<close>, \<open>Block_Execution\<close>: the other runtime APIs, one definition per method, on records of the FRAME
    code they forward to (most methods only forward, in the source as here); what \<open>Executive::apply_extrinsic\<close> promises
    (\<open>apply_law\<close>, with the instance \<open>plain_executive\<close>), and the claims that enter blocks unsigned.
  \<^item> \<open>Chain_Spec\<close>, \<open>Chain_Properties\<close>: \<open>load_spec\<close>, the specifications, the genesis and the presets.
  \<^item> \<open>Build_Scripts\<close>: the two build scripts, and the include of the wasm binary that the networks need.
  \<^item> \<open>Node_Service\<close>, \<open>Node_Command\<close>, \<open>Node_Properties\<close>: \<open>new_partial\<close> and \<open>new_full\<close> as lists of SDK
    calls, each with what the source does when it fails; \<open>create_full\<close>; the subcommands, \<open>run\<close> and \<open>main\<close>.

  Correspondence. A storage map is a partial map, a \<open>ValueQuery\<close> value a field with its default, a
  \<open>BoundedVec\<close> a list whose bound is kept by \<open>bounded_try_from\<close> and \<open>bounded_try_push\<close>, an unsigned
  integer a word, the block number a 32-bit word passed as \<open>now\<close>, and \<open>deposit_event\<close> an append to the
  log of the pallet. A dispatchable returns \<open>Inl\<close> the error or \<open>Inr\<close> the result, together with the
  storage its body leaves behind, in the error case too; FRAME's storage layer, which discards that
  storage, is the parameter \<open>layer\<close> with the hypothesis \<open>storage_layer\<close>. An unchecked \<open>+ 1\<close> wraps, as
  in the release profile. All loops of the program walk over a finite storage map; they are structural
  recursions over its enumeration (the loop of \<open>suspend_worker\<close> writes into the map it walks over, but leaves right
  after its write). No fuel is used. The logs of events are history variables: \<open>System\<close> clears its events with each
  block, and the storage never depends on them. An origin is the one a call is dispatched with: root for a call
  inside \<open>sudo\<close>, the named account for one inside \<open>sudo_as\<close>. A call of the SDK by the node is an event that carries the values the source passes; the
  parameter \<open>world\<close> decides which calls fail, from the calls made before.

  What is shown. Who may act: the AI calls succeed exactly for registered workers with a live
  credential and no suspension in force; revocation and suspension lock a worker out through any
  sequence of other calls, and a revocation strands the requests in its queue; the errors a caller can see are
  listed exactly, per pallet (\<open>errors_raised\<close>). Consistency: the maps of each pallet agree with each other after every
  sequence of calls, up to \<open>2 ^ 32 - 1\<close> of them for the AI pallet, whose counter wraps after that
  (\<open>request_counter_wraps\<close>). Refinement: every call, successful or not, is a step of the market of
  jobs, jobs only move forward and answers are final. Provenance: on every run of the chain each stored
  answer goes back to its worker's signature, the customer's request to that worker whose number it carries, and a credential issued by
  the governance and not revoked before the answer; it was given outside every suspension in force; and the recorded
  times are in order. History: requests, answers and queues are exactly what the successful extrinsics of
  the trace say, numbered in their order. The faucet: the pool's check agrees with the
  call, claims are a cooldown apart and limited for life, the books of the pot balance, and no call of the
  three pallets creates money or takes it from anybody but the pot and the funder. Loops: the outcome
  of a call can stay open until all registered workers are read, at a constant weight. Types: the storage stays within the
  bounds of its types. Events: they tell the storage, and so who may act.
  Blocks: the only calls of the three pallets that the runtime API applies unsigned are claims that passed the
  faucet's check. The networks: every specification the node builds starts with
  valid balances and a funded pot, which lasts for 99999 claims whatever else happens on the chain; the presets fit the pallets but leave the pot empty. The node: tasks and keys follow the
  role, the start ends with the first failing call and succeeds exactly without one, consensus parts share their data, the RPC methods are those of the two handlers, slots are 6000 milliseconds, and only a
  plain invocation joins the network.

  Hypotheses. The hash of accounts may collide as far as the model knows: properties that need distinct
  DIDs say so (\<open>no_collision\<close>). Storage iteration is any enumeration of the map (\<open>storage_iter\<close>), and
  nothing depends on which (\<open>iteration_order_irrelevant\<close>). The currency obeys \<open>currency_laws\<close>, and
  \<open>spendable\<close>, in the ledger at hand, where progress is claimed.

  A run of the chain applies any extrinsic of the modelled calls in any block after genesis, so its theorems do not depend
  on which ones FRAME's executive admits. What a single application does in the runtime API rests on \<open>apply_law\<close>, the
  documented behaviour of \<open>frame_executive\<close>; \<open>merge_laws\<close> is
  jsonrpsee's documented behaviour and \<open>doubles\<close> that of
  \<open>MinimumPeriodTimesTwo\<close>.

  Not modelled. Root's raw writes to the storage and the replacement of the runtime's code (\<open>set_storage\<close> and
  \<open>set_code\<close> of \<open>System\<close>, open to the sudo key): \<open>Other_Call\<close> covers the calls of other pallets that leave the QX
  pallets' storage alone, and the theorems hold for as long as that key does not use them. The encodings that the
  derive macros generate. The FRAME pallets themselves, the execution of blocks inside \<open>Executive\<close> and the fees beyond the
  dispatch information, which are code outside the repository; the remaining type aliases of the runtime and the node
  (headers, signatures, the block over a justification, the client and backend types) and the configurations of
  \<open>pallet_sudo\<close> and \<open>pallet_skip_feeless_payment\<close>, which only name types of code outside the
  repository; the SDK behind the node's calls, and what its build helpers generate. The macros of the benchmarking
  API, which nothing defines, are parameters.
\<close>

end
